(* ===== verification/Nan_Prelude.thy ===== *)
theory Nan_Prelude
  imports Main "HOL-Library.Word" "HOL-Library.Signed_Division" "HOL-Library.Monad_Syntax"
begin

text \<open>
  Shared vocabulary of the development: the C types of the program as words, the
  implementation-defined conversion to \<^verbatim>\<open>int\<close>, byte encodings, and the typed stores that
  stand for the parts of the C heap that hold list nodes, peers and services.

  Conventions used by every theory:
  \<^item> a computation of type \<^typ>\<open>'a option\<close> that yields \<^const>\<open>None\<close> is undefined behaviour of
    the C code (an access outside an object or through a dangling or null pointer) or, for a
    function defined by \<^theory_text>\<open>partial_function\<close>, a loop that does not end;
  \<^item> memory the code leaves uninitialised is an argument of the model (its prior contents);
  \<^item> \<^verbatim>\<open>malloc\<close> never fails, as the code assumes by never testing its result, and the host is
    little-endian with 64-bit pointers and 32-bit \<^verbatim>\<open>int\<close>.
\<close>

unbundle bit_operations_syntax

named_theorems c_simps \<open>conversions between C integer types\<close>
named_theorems byte_simps \<open>encodings of words as bytes\<close>
named_theorems store_simps \<open>reads and writes of typed stores\<close>

section \<open>C types\<close>

type_synonym u8 = "8 word"
type_synonym u16 = "16 word"
type_synonym u32 = "32 word"
type_synonym u64 = "64 word"
type_synonym size_t = "64 word"
type_synonym ptr = nat

abbreviation (input) NULL :: ptr where "NULL \<equiv> 0"

text \<open>The conversion of any integer to the 32-bit \<^verbatim>\<open>int\<close> type, reducing modulo \<open>2\<^sup>3\<^sup>2\<close>.\<close>

definition c_int :: "int \<Rightarrow> int" where
  "c_int x = signed_take_bit 31 x"

text \<open>The conversion to \<^verbatim>\<open>signed char\<close>.\<close>

definition c_schar :: "int \<Rightarrow> int" where
  "c_schar x = signed_take_bit 7 x"

lemma c_int_id [c_simps]: "- (2 ^ 31) \<le> x \<Longrightarrow> x < 2 ^ 31 \<Longrightarrow> c_int x = x"
  by (simp add: c_int_def signed_take_bit_int_eq_self)

lemma c_schar_id [c_simps]: "- (2 ^ 7) \<le> x \<Longrightarrow> x < 2 ^ 7 \<Longrightarrow> c_schar x = x"
  by (simp add: c_schar_def signed_take_bit_int_eq_self)

lemma c_int_bounds: "- (2 ^ 31) \<le> c_int x" "c_int x < 2 ^ 31"
proof -
  show "- (2 ^ 31) \<le> c_int x"
    unfolding c_int_def by (rule signed_take_bit_int_greater_eq_minus_exp)
  show "c_int x < 2 ^ 31"
    unfolding c_int_def by (rule signed_take_bit_int_less_exp)
qed

lemma c_schar_bounds: "- (2 ^ 7) \<le> c_schar x" "c_schar x < 2 ^ 7"
proof -
  show "- (2 ^ 7) \<le> c_schar x"
    unfolding c_schar_def by (rule signed_take_bit_int_greater_eq_minus_exp)
  show "c_schar x < 2 ^ 7"
    unfolding c_schar_def by (rule signed_take_bit_int_less_exp)
qed

lemma unat_size_of_nat [c_simps]: "n < 2 ^ 64 \<Longrightarrow> unat (of_nat n :: size_t) = n"
  by (simp only: unat_of_nat take_bit_eq_mod) simp

lemma uint_size_of_nat [c_simps]: "n < 2 ^ 64 \<Longrightarrow> uint (of_nat n :: size_t) = int n"
  unfolding uint_nat by (simp only: unat_size_of_nat)

lemma int_less_uint [c_simps]: "int k < uint (n :: 'a::len word) \<longleftrightarrow> k < unat n"
proof -
  have "int k < int (unat n) \<longleftrightarrow> k < unat n" by (rule of_nat_less_iff)
  then show ?thesis by simp
qed

lemma uint_less_int [c_simps]: "uint (n :: 'a::len word) < int k \<longleftrightarrow> unat n < k"
proof -
  have "int (unat n) < int k \<longleftrightarrow> unat n < k" by (rule of_nat_less_iff)
  then show ?thesis by simp
qed

lemma c_int_uint [c_simps]: "unat (n :: 'a::len word) < 2 ^ 31 \<Longrightarrow> c_int (uint n) = uint n"
proof (rule c_int_id)
  show "- (2 ^ 31) \<le> uint n" by (rule order_trans [OF _ uint_ge_0]) simp
  show "unat n < 2 ^ 31 \<Longrightarrow> uint n < 2 ^ 31"
    using uint_less_int [of n "2 ^ 31"] by simp
qed

lemma c_int_mod: "c_int (m * 2 ^ 32 + x) = c_int x"
  unfolding c_int_def
  by (rule signed_take_bit_eq_iff_take_bit_eq [THEN iffD2]) (simp add: take_bit_eq_mod)

lemma unat_bound: "unat (w :: 'a::len word) < 2 ^ LENGTH('a)"
  by (rule unsigned_less)

lemma unat_of_nat_mod: "unat (of_nat n :: 'a::len word) = n mod 2 ^ LENGTH('a)"
  by (simp only: unat_of_nat take_bit_eq_mod)

lemma unat_add_mod: "unat (a + b :: 'a::len word) = (unat a + unat b) mod 2 ^ LENGTH('a)"
  using unat_of_nat_mod [of "unat a + unat b", where 'a = 'a] by simp

lemma unat_mult_mod: "unat (a * b :: 'a::len word) = (unat a * unat b) mod 2 ^ LENGTH('a)"
  using unat_of_nat_mod [of "unat a * unat b", where 'a = 'a] by simp

lemma unat_ucast_mod: "unat (ucast (w :: 'a::len word) :: 'b::len word) = unat w mod 2 ^ LENGTH('b)"
  using unat_of_nat_mod [of "unat w", where 'a = 'b] by simp

lemma unat_ucast_small:
  "unat (w :: 'a::len word) < 2 ^ LENGTH('b) \<Longrightarrow> unat (ucast w :: 'b::len word) = unat w"
  by (simp only: unat_ucast_mod mod_less)

lemma unat_ucast_up [c_simps]:
  "LENGTH('a) \<le> LENGTH('b) \<Longrightarrow> unat (ucast (w :: 'a::len word) :: 'b::len word) = unat w"
proof (rule unat_ucast_small)
  assume "LENGTH('a) \<le> LENGTH('b)"
  then have "(2 :: nat) ^ LENGTH('a) \<le> 2 ^ LENGTH('b)" by (rule power_increasing) simp
  with unat_bound [of w] show "unat w < 2 ^ LENGTH('b)" by linarith
qed

section \<open>Bytes and words\<close>

text \<open>
  \<open>le_bytes n w\<close> are the \<open>n\<close> bytes of \<open>w\<close>, least significant first: what storing
  \<^verbatim>\<open>htole16(v)\<close>, \<^verbatim>\<open>htole32(v)\<close> or \<^verbatim>\<open>htole64(v)\<close> leaves in memory.
\<close>

primrec le_bytes :: "nat \<Rightarrow> 'a::len word \<Rightarrow> u8 list" where
  "le_bytes 0 w = []"
| "le_bytes (Suc n) w = ucast w # le_bytes n (drop_bit 8 w)"

primrec of_le_bytes :: "u8 list \<Rightarrow> 'a::len word" where
  "of_le_bytes [] = 0"
| "of_le_bytes (b # bs) = ucast b OR push_bit 8 (of_le_bytes bs)"

definition be_bytes :: "nat \<Rightarrow> 'a::len word \<Rightarrow> u8 list" where
  "be_bytes n w = rev (le_bytes n w)"

definition of_be_bytes :: "u8 list \<Rightarrow> 'a::len word" where
  "of_be_bytes bs = of_le_bytes (rev bs)"

lemma length_le_bytes [simp]: "length (le_bytes n w) = n"
  by (induction n arbitrary: w) simp_all

lemma length_be_bytes [simp]: "length (be_bytes n w) = n"
  by (simp add: be_bytes_def)

lemma le_bytes_numeral [simp]:
  "le_bytes (numeral k) w = ucast w # le_bytes (pred_numeral k) (drop_bit 8 w)"
  by (simp add: numeral_eq_Suc)

lemma of_le_bytes_le_bytes:
  "of_le_bytes (le_bytes n w) = take_bit (8 * n) (w :: 'a::len word)"
proof (induction n arbitrary: w)
  case 0
  then show ?case by simp
next
  case (Suc n)
  have "ucast (ucast w :: u8) OR push_bit 8 (take_bit (8 * n) (drop_bit 8 w))
      = take_bit (8 * Suc n) w"
    by (rule bit_word_eqI) (auto simp: bit_simps not_less)
  with Suc show ?case by simp
qed

lemma of_le_bytes_inverse [byte_simps]:
  "LENGTH('a) = 8 * n \<Longrightarrow> of_le_bytes (le_bytes n w) = (w :: 'a::len word)"
  by (simp add: of_le_bytes_le_bytes take_bit_word_eq_self)

lemma of_be_bytes_inverse [byte_simps]:
  "LENGTH('a) = 8 * n \<Longrightarrow> of_be_bytes (be_bytes n w) = (w :: 'a::len word)"
  by (simp add: of_be_bytes_def be_bytes_def of_le_bytes_inverse)

lemma le_bytes_inverse:
  "8 * length bs \<le> LENGTH('a) \<Longrightarrow> le_bytes (length bs) (of_le_bytes bs :: 'a::len word) = bs"
proof (induction bs)
  case Nil
  then show ?case by simp
next
  case (Cons b bs)
  have 1: "ucast (ucast b OR push_bit 8 (of_le_bytes bs :: 'a word)) = b"
    using Cons.prems by (intro bit_word_eqI) (auto simp: bit_simps)
  have small: "bit (of_le_bytes cs :: 'a word) m \<Longrightarrow> m < 8 * length cs" for cs m
  proof (induction cs arbitrary: m)
    case Nil
    then show ?case by simp
  next
    case (Cons c cs)
    from Cons.prems consider "bit c m" | "8 \<le> m" "bit (of_le_bytes cs :: 'a word) (m - 8)"
      by (auto simp: bit_simps)
    then show ?case
    proof cases
      case 1
      then have "m < 8" using bit_imp_le_length [of c m] by simp
      then show ?thesis by simp
    next
      case 2
      then show ?thesis using Cons.IH [of "m - 8"] by simp
    qed
  qed
  have 2: "drop_bit 8 (ucast b OR push_bit 8 (of_le_bytes bs :: 'a word)) = of_le_bytes bs"
  proof (rule bit_word_eqI)
    fix m
    have "\<not> bit b (8 + m)"
      by (auto dest: bit_imp_le_length)
    moreover have "bit (of_le_bytes bs :: 'a word) m \<Longrightarrow> 8 + m < LENGTH('a)"
      using small [of bs m] Cons.prems by simp
    ultimately show "bit (drop_bit 8 (ucast b OR push_bit 8 (of_le_bytes bs :: 'a word))) m
        = bit (of_le_bytes bs :: 'a word) m"
      by (auto simp: bit_simps)
  qed
  from 1 2 Cons show ?case by simp
qed

lemma of_le_bytes_append_zero [simp]: "of_le_bytes (replicate n 0) = 0"
  by (induction n) simp_all

section \<open>Lists and options\<close>

lemma take_drop_upt: "i + n \<le> length xs \<Longrightarrow> length (take n (drop i xs)) = n"
  by simp

text \<open>Writing a block of bytes at an offset of a memory block; \<^const>\<open>None\<close> outside it.\<close>

definition mem_store :: "u8 list \<Rightarrow> nat \<Rightarrow> u8 list \<Rightarrow> u8 list option" where
  "mem_store m i bs =
     (if i + length bs \<le> length m then Some (take i m @ bs @ drop (i + length bs) m) else None)"

definition mem_load :: "u8 list \<Rightarrow> nat \<Rightarrow> nat \<Rightarrow> u8 list option" where
  "mem_load m i n = (if i + n \<le> length m then Some (take n (drop i m)) else None)"

lemma mem_store_length: "mem_store m i bs = Some m' \<Longrightarrow> length m' = length m"
  by (auto simp: mem_store_def split: if_splits)

lemma mem_store_take:
  "mem_store m i bs = Some m' \<Longrightarrow> take (i + length bs) m' = take i m @ bs"
  by (auto simp: mem_store_def split: if_splits)

lemma mem_store_take_le:
  "mem_store m i bs = Some m' \<Longrightarrow> k \<le> i \<Longrightarrow> take k m' = take k m"
  by (auto simp: mem_store_def min_def split: if_splits)

lemma mem_store_append:
  "mem_store (xs @ ys) (length xs) bs = map_option ((@) xs) (mem_store ys 0 bs)"
  by (simp add: mem_store_def)

lemma mem_load_store:
  "mem_store m i bs = Some m' \<Longrightarrow> mem_load m' i (length bs) = Some bs"
  by (auto simp: mem_store_def mem_load_def split: if_splits)

section \<open>Typed stores\<close>

text \<open>
  A store holds the live objects of one C type, by address; \<open>brk\<close> is the next address
  that \<^verbatim>\<open>malloc\<close> hands out. Addresses are not reused, so an access through a freed
  pointer is always seen as undefined.
\<close>

record 'a store =
  cells :: "ptr \<rightharpoonup> 'a"
  brk :: ptr

definition store_empty :: "'a store" where
  "store_empty = \<lparr>cells = Map.empty, brk = 1\<rparr>"

definition store_alloc :: "'a \<Rightarrow> 'a store \<Rightarrow> ptr \<times> 'a store" where
  "store_alloc v s = (brk s, s\<lparr>cells := (cells s)(brk s \<mapsto> v), brk := Suc (brk s)\<rparr>)"

definition store_put :: "ptr \<Rightarrow> 'a \<Rightarrow> 'a store \<Rightarrow> 'a store option" where
  "store_put p v s =
     (case cells s p of None \<Rightarrow> None | Some _ \<Rightarrow> Some (s\<lparr>cells := (cells s)(p \<mapsto> v)\<rparr>))"

definition store_free :: "ptr \<Rightarrow> 'a store \<Rightarrow> 'a store option" where
  "store_free p s =
     (case cells s p of None \<Rightarrow> None | Some _ \<Rightarrow> Some (s\<lparr>cells := (cells s)(p := None)\<rparr>))"

definition wf_store :: "'a store \<Rightarrow> bool" where
  "wf_store s \<longleftrightarrow> 0 < brk s \<and> (\<forall>p v. cells s p = Some v \<longrightarrow> 0 < p \<and> p < brk s)"

lemma wf_store_empty [simp]: "wf_store store_empty"
  by (simp add: wf_store_def store_empty_def)

lemma wf_store_alloc: "wf_store s \<Longrightarrow> store_alloc v s = (p, s') \<Longrightarrow> wf_store s'"
  by (auto simp: wf_store_def store_alloc_def less_Suc_eq split: if_splits)

lemma wf_store_put: "wf_store s \<Longrightarrow> store_put p v s = Some s' \<Longrightarrow> wf_store s'"
  by (auto simp: wf_store_def store_put_def split: option.splits if_splits)

lemma wf_store_free: "wf_store s \<Longrightarrow> store_free p s = Some s' \<Longrightarrow> wf_store s'"
  by (auto simp: wf_store_def store_free_def split: option.splits if_splits)

lemma wf_store_fresh: "wf_store s \<Longrightarrow> cells s (brk s) = None"
  by (meson less_irrefl not_Some_eq wf_store_def)

lemma wf_store_NULL: "wf_store s \<Longrightarrow> cells s NULL = None"
  by (metis less_irrefl not_Some_eq wf_store_def)

lemma store_put_Some [store_simps]:
  "cells s p = Some w \<Longrightarrow> store_put p v s = Some (s\<lparr>cells := (cells s)(p \<mapsto> v)\<rparr>)"
  by (simp add: store_put_def)

lemma store_free_Some [store_simps]:
  "cells s p = Some w \<Longrightarrow> store_free p s = Some (s\<lparr>cells := (cells s)(p := None)\<rparr>)"
  by (simp add: store_free_def)

end
