(* ===== verification/Nan_Sha256.thy ===== *)
theory Nan_Sha256
  imports Nan_Prelude
begin

text \<open>
  The SHA-256 routine of \<^verbatim>\<open>src/src/sha256.c\<close>, from which service identifiers are made. The
  first half is the code: a context that takes bytes one at a time and compresses its buffer
  whenever it is full, message words computed inside the round loop, lengths in two 32-bit
  halves. The second half is the hash as FIPS 180-4 defines it, on the padded message split
  into blocks, with rotations and a separate message schedule; the last section proves the two
  equal.
\<close>

section \<open>Functions on words\<close>

definition sha_K :: "u32 list" where
  "sha_K = concat [
    [0x428a2f98, 0x71374491, 0xb5c0fbcf, 0xe9b5dba5],
    [0x3956c25b, 0x59f111f1, 0x923f82a4, 0xab1c5ed5],
    [0xd807aa98, 0x12835b01, 0x243185be, 0x550c7dc3],
    [0x72be5d74, 0x80deb1fe, 0x9bdc06a7, 0xc19bf174],
    [0xe49b69c1, 0xefbe4786, 0x0fc19dc6, 0x240ca1cc],
    [0x2de92c6f, 0x4a7484aa, 0x5cb0a9dc, 0x76f988da],
    [0x983e5152, 0xa831c66d, 0xb00327c8, 0xbf597fc7],
    [0xc6e00bf3, 0xd5a79147, 0x06ca6351, 0x14292967],
    [0x27b70a85, 0x2e1b2138, 0x4d2c6dfc, 0x53380d13],
    [0x650a7354, 0x766a0abb, 0x81c2c92e, 0x92722c85],
    [0xa2bfe8a1, 0xa81a664b, 0xc24b8b70, 0xc76c51a3],
    [0xd192e819, 0xd6990624, 0xf40e3585, 0x106aa070],
    [0x19a4c116, 0x1e376c08, 0x2748774c, 0x34b0bcb5],
    [0x391c0cb3, 0x4ed8aa4a, 0x5b9cca4f, 0x682e6ff3],
    [0x748f82ee, 0x78a5636f, 0x84c87814, 0x8cc70208],
    [0x90befffa, 0xa4506ceb, 0xbef9a3f7, 0xc67178f2]]"

definition sha_shb :: "u32 \<Rightarrow> u32 \<Rightarrow> u8" where
  "sha_shb x n = ucast (drop_bit (unat (n AND 31)) x AND 0xff)"

definition sha_shw :: "u32 \<Rightarrow> u32 \<Rightarrow> u32" where
  "sha_shw x n = push_bit (unat (n AND 31)) x AND 0xffffffff"

definition sha_r :: "u32 \<Rightarrow> u8 \<Rightarrow> u32" where
  "sha_r x n = drop_bit (unat n) x OR sha_shw x (32 - ucast n)"

definition sha_Ch :: "u32 \<Rightarrow> u32 \<Rightarrow> u32 \<Rightarrow> u32" where
  "sha_Ch x y z = (x AND y) XOR (NOT x AND z)"

definition sha_Ma :: "u32 \<Rightarrow> u32 \<Rightarrow> u32 \<Rightarrow> u32" where
  "sha_Ma x y z = (x AND y) XOR (x AND z) XOR (y AND z)"

definition sha_S0 :: "u32 \<Rightarrow> u32" where
  "sha_S0 x = sha_r x 2 XOR sha_r x 13 XOR sha_r x 22"

definition sha_S1 :: "u32 \<Rightarrow> u32" where
  "sha_S1 x = sha_r x 6 XOR sha_r x 11 XOR sha_r x 25"

definition sha_G0 :: "u32 \<Rightarrow> u32" where
  "sha_G0 x = sha_r x 7 XOR sha_r x 18 XOR drop_bit 3 x"

definition sha_G1 :: "u32 \<Rightarrow> u32" where
  "sha_G1 x = sha_r x 17 XOR sha_r x 19 XOR drop_bit 10 x"

text \<open>The four octets from index \<open>i\<close> of the buffer.\<close>

definition sha_word :: "u8 list \<Rightarrow> nat \<Rightarrow> u32" where
  "sha_word c i =
     sha_shw (ucast (c ! i)) 24 OR sha_shw (ucast (c ! (i + 1))) 16
     OR sha_shw (ucast (c ! (i + 2))) 8 OR ucast (c ! (i + 3))"

section \<open>The context\<close>

datatype sha_state = Sha u32 u32 u32 u32 u32 u32 u32 u32

record sha256_context =
  sha_buf :: "u8 list"
  sha_hash :: sha_state
  sha_bits0 :: u32
  sha_bits1 :: u32
  sha_len :: u32

definition sha_addbits :: "sha256_context \<Rightarrow> u32 \<Rightarrow> sha256_context" where
  "sha_addbits ctx n =
     (let ctx = (if sha_bits0 ctx > 0xffffffff - n
                 then ctx\<lparr>sha_bits1 := (sha_bits1 ctx + 1) AND 0xFFFFFFFF\<rparr> else ctx)
      in ctx\<lparr>sha_bits0 := (sha_bits0 ctx + n) AND 0xFFFFFFFF\<rparr>)"

text \<open>One round, with its constant and message word.\<close>

fun sha_round :: "u32 \<Rightarrow> u32 \<Rightarrow> sha_state \<Rightarrow> sha_state" where
  "sha_round k w (Sha a b c d e f g h) =
     (let t0 = h + sha_S1 e + sha_Ch e f g + k + w;
          t1 = sha_S0 a + sha_Ma a b c
      in Sha (t0 + t1) a b c (d + t0) e f g)"

text \<open>The loop over \<open>i\<close>; \<open>W\<close> are the message words assigned so far.\<close>

function sha_rounds :: "u8 list \<Rightarrow> nat \<Rightarrow> u32 list \<Rightarrow> sha_state \<Rightarrow> sha_state" where
  "sha_rounds buf i W st =
     (if i < 64 then
        let w = (if i < 16 then sha_word buf (i * 4)
                 else sha_G1 (W ! (i - 2)) + W ! (i - 7) + sha_G0 (W ! (i - 15)) + W ! (i - 16))
        in sha_rounds buf (i + 1) (W @ [w]) (sha_round (sha_K ! i) w st)
      else st)"
  by pat_completeness auto

termination
  by (relation "measure (\<lambda>(buf, i, W, st). 64 - i)") auto

declare sha_rounds.simps [simp del]

fun sha_add :: "sha_state \<Rightarrow> sha_state \<Rightarrow> sha_state" where
  "sha_add (Sha a b c d e f g h) (Sha a' b' c' d' e' f' g' h') =
     Sha (a + a') (b + b') (c + c') (d + d') (e + e') (f + f') (g + g') (h + h')"

definition sha_compress :: "sha256_context \<Rightarrow> sha256_context" where
  "sha_compress ctx = ctx\<lparr>sha_hash := sha_add (sha_hash ctx) (sha_rounds (sha_buf ctx) 0 [] (sha_hash ctx))\<rparr>"

definition sha_initial :: sha_state where
  "sha_initial = Sha 0x6a09e667 0xbb67ae85 0x3c6ef372 0xa54ff53a 0x510e527f 0x9b05688c 0x1f83d9ab 0x5be0cd19"

definition sha256_init :: "sha256_context \<Rightarrow> sha256_context" where
  "sha256_init ctx = ctx\<lparr>sha_bits0 := 0, sha_bits1 := 0, sha_len := 0, sha_hash := sha_initial\<rparr>"

text \<open>One byte; an index outside the buffer is undefined.\<close>

definition sha256_byte :: "u8 \<Rightarrow> sha256_context \<Rightarrow> sha256_context option" where
  "sha256_byte b ctx =
     (if unat (sha_len ctx) < length (sha_buf ctx) then
        (let ctx = ctx\<lparr>sha_buf := (sha_buf ctx)[unat (sha_len ctx) := b]\<rparr>;
             ctx = ctx\<lparr>sha_len := sha_len ctx + 1\<rparr>
         in if sha_len ctx = 64
            then let ctx = sha_compress ctx;
                     ctx = sha_addbits ctx (64 * 8)
                 in Some (ctx\<lparr>sha_len := 0\<rparr>)
            else Some ctx)
      else None)"

fun sha256_hash :: "u8 list \<Rightarrow> sha256_context \<Rightarrow> sha256_context option" where
  "sha256_hash [] ctx = Some ctx"
| "sha256_hash (b # bs) ctx =
     (case sha256_byte b ctx of None \<Rightarrow> None | Some ctx \<Rightarrow> sha256_hash bs ctx)"

fun sha_state_words :: "sha_state \<Rightarrow> u32 list" where
  "sha_state_words (Sha a b c d e f g h) = [a, b, c, d, e, f, g, h]"

text \<open>The digest: the octets of each word, most significant first.\<close>

definition sha_word_bytes :: "u32 \<Rightarrow> u8 list" where
  "sha_word_bytes w = map (sha_shb w) [24, 16, 8, 0]"

text \<open>The length of the message in bits, in the last eight bytes of the buffer.\<close>

definition sha_put_length :: "sha256_context \<Rightarrow> sha256_context" where
  "sha_put_length ctx = ctx\<lparr>sha_buf := take 56 (sha_buf ctx)
     @ map (sha_shb (sha_bits1 ctx)) [24, 16, 8, 0] @ map (sha_shb (sha_bits0 ctx)) [24, 16, 8, 0]\<rparr>"

definition sha256_done :: "sha256_context \<Rightarrow> u8 list" where
  "sha256_done ctx =
     (let j = unat (sha_len ctx mod 64);
          ctx = ctx\<lparr>sha_buf := take j (sha_buf ctx) @ 0x80 # replicate (63 - j) 0\<rparr>;
          ctx = (if sha_len ctx > 55
                 then (sha_compress ctx)\<lparr>sha_buf := replicate 64 0\<rparr> else ctx);
          ctx = sha_compress (sha_put_length (sha_addbits ctx (sha_len ctx * 8)))
      in concat (map sha_word_bytes (sha_state_words (sha_hash ctx))))"

text \<open>\<open>junk\<close> is the uninitialised context on the stack.\<close>

definition sha256 :: "sha256_context \<Rightarrow> u8 list \<Rightarrow> u8 list option" where
  "sha256 junk data =
     (case sha256_hash data (sha256_init junk) of None \<Rightarrow> None | Some ctx \<Rightarrow> Some (sha256_done ctx))"

section \<open>The standard\<close>

definition std_S0 :: "u32 \<Rightarrow> u32" where
  "std_S0 x = word_rotr 2 x XOR word_rotr 13 x XOR word_rotr 22 x"

definition std_S1 :: "u32 \<Rightarrow> u32" where
  "std_S1 x = word_rotr 6 x XOR word_rotr 11 x XOR word_rotr 25 x"

definition std_G0 :: "u32 \<Rightarrow> u32" where
  "std_G0 x = word_rotr 7 x XOR word_rotr 18 x XOR drop_bit 3 x"

definition std_G1 :: "u32 \<Rightarrow> u32" where
  "std_G1 x = word_rotr 17 x XOR word_rotr 19 x XOR drop_bit 10 x"

fun std_round :: "sha_state \<Rightarrow> u32 \<times> u32 \<Rightarrow> sha_state" where
  "std_round (Sha a b c d e f g h) (k, w) =
     (let t1 = h + std_S1 e + ((e AND f) XOR (NOT e AND g)) + k + w;
          t2 = std_S0 a + ((a AND b) XOR (a AND c) XOR (b AND c))
      in Sha (t1 + t2) a b c (d + t1) e f g)"

text \<open>The sixteen words of a block, and the schedule of 64 words they are extended to.\<close>

definition block_words :: "u8 list \<Rightarrow> u32 list" where
  "block_words blk = map (\<lambda>i. of_be_bytes (take 4 (drop (4 * i) blk))) [0..<16]"

fun extend :: "nat \<Rightarrow> u32 list \<Rightarrow> u32 list" where
  "extend 0 W = W"
| "extend (Suc n) W =
     (let t = length W
      in extend n (W @ [std_G1 (W ! (t - 2)) + W ! (t - 7) + std_G0 (W ! (t - 15)) + W ! (t - 16)]))"

definition schedule :: "u8 list \<Rightarrow> u32 list" where
  "schedule blk = extend 48 (block_words blk)"

definition std_compress :: "sha_state \<Rightarrow> u8 list \<Rightarrow> sha_state" where
  "std_compress st blk = sha_add st (foldl std_round st (zip sha_K (schedule blk)))"

fun blocks :: "u8 list \<Rightarrow> u8 list list" where
  "blocks xs = (if length xs < 64 then [] else take 64 xs # blocks (drop 64 xs))"

declare blocks.simps [simp del]

definition padding :: "nat \<Rightarrow> u8 list" where
  "padding n = 0x80 # replicate ((119 - n mod 64) mod 64) 0 @ be_bytes 8 (of_nat (8 * n) :: u64)"

definition sha256_std :: "u8 list \<Rightarrow> u8 list" where
  "sha256_std msg =
     concat (map (be_bytes 4)
       (sha_state_words (foldl std_compress sha_initial (blocks (msg @ padding (length msg))))))"

section \<open>The functions on words agree\<close>

lemma unat_and_31: "unat ((x :: u32) AND 31) = unat x mod 32"
proof -
  have "x AND 31 = take_bit 5 x" by (simp add: take_bit_eq_mask mask_eq_exp_minus_1)
  then have "unat (x AND 31) = take_bit 5 (unat x)" by (simp only: unsigned_take_bit_eq)
  then show ?thesis by (simp add: take_bit_eq_mod)
qed

lemma and_ffffffff: "(x :: u32) AND 0xffffffff = x"
proof -
  have "x AND 0xffffffff = take_bit 32 x" by (simp add: take_bit_eq_mask mask_eq_exp_minus_1)
  then show ?thesis by (simp only: take_bit_word_eq_self [of 32 x, simplified])
qed

lemma sha_r_rotr:
  assumes "0 < unat n" "unat n < 32"
  shows "sha_r x n = word_rotr (unat n) x"
proof -
  have le: "(ucast n :: u32) \<le> 32"
    using assms(2) by (simp add: word_le_nat_alt unat_ucast_up)
  have "unat (32 - ucast n :: u32) = 32 - unat n"
    using unat_sub [OF le] by (simp add: unat_ucast_up)
  then have shift: "unat ((32 - ucast n :: u32) AND 31) = 32 - unat n"
    using assms by (simp add: unat_and_31)
  have r: "sha_r x n = drop_bit (unat n) x OR push_bit (32 - unat n) x"
    unfolding sha_r_def sha_shw_def shift and_ffffffff by (rule refl)
  show ?thesis
    unfolding r
  proof (rule bit_word_eqI)
    fix i assume i: "i < LENGTH(32)"
    have low: "bit x (i + unat n) \<Longrightarrow> i + unat n < 32"
      using bit_imp_le_length [of x "i + unat n"] by simp
    have "(i + unat n) mod 32 = (if i + unat n < 32 then i + unat n else i + unat n - 32)"
      using i assms by (simp add: mod_if)
    then show "bit (drop_bit (unat n) x OR push_bit (32 - unat n) x) i = bit (word_rotr (unat n) x) i"
      using i assms low
      by (auto simp: bit_or_iff bit_drop_bit_eq bit_push_bit_iff bit_word_rotr_iff ac_simps)
  qed
qed

lemma sha_functions: "sha_S0 = std_S0" "sha_S1 = std_S1" "sha_G0 = std_G0" "sha_G1 = std_G1"
  by (simp_all add: fun_eq_iff sha_S0_def std_S0_def sha_S1_def std_S1_def sha_G0_def std_G0_def
      sha_G1_def std_G1_def sha_r_rotr)

lemma sha_round_std: "sha_round k w st = std_round st (k, w)"
  by (cases st) (simp add: sha_functions sha_Ch_def sha_Ma_def)

lemma sha_word_of_be_bytes:
  assumes "i + 4 \<le> length c"
  shows "sha_word c i = of_be_bytes (take 4 (drop i c))"
proof -
  have "take 4 (drop i c) = [c ! i, c ! (i + 1), c ! (i + 2), c ! (i + 3)]"
    using assms by (intro nth_equalityI) (auto simp: less_Suc_eq numeral_eq_Suc)
  then show ?thesis
    by (simp add: sha_word_def of_be_bytes_def sha_shw_def and_ffffffff unat_and_31 push_bit_or
        or.assoc or.commute or.left_commute)
qed

lemma sha_shb_drop: "unat n < 32 \<Longrightarrow> sha_shb x n = ucast (drop_bit (unat n) x)"
proof -
  have "y AND 0xff = take_bit 8 y" for y :: u32 by (simp add: take_bit_eq_mask mask_eq_exp_minus_1)
  then show "unat n < 32 \<Longrightarrow> ?thesis"
    by (intro bit_word_eqI) (auto simp: sha_shb_def unat_and_31 bit_simps)
qed

lemma sha_word_bytes_be: "sha_word_bytes w = be_bytes 4 w"
  by (simp add: sha_word_bytes_def sha_shb_drop be_bytes_def)

section \<open>The rounds\<close>

lemma length_extend [simp]: "length (extend n W) = length W + n"
  by (induction n W rule: extend.induct) (simp_all add: Let_def)

lemma extend_prefix: "i < length W \<Longrightarrow> extend n W ! i = W ! i"
  by (induction n W rule: extend.induct) (simp_all add: Let_def nth_append)

lemma extend_nth:
  assumes "16 \<le> length W" "length W \<le> i" "i < length W + n"
  shows "extend n W ! i = std_G1 (extend n W ! (i - 2)) + extend n W ! (i - 7)
     + std_G0 (extend n W ! (i - 15)) + extend n W ! (i - 16)"
  using assms
proof (induction n W rule: extend.induct)
  case (1 W)
  then show ?case by simp
next
  case (2 n W)
  show ?case
  proof (cases "i = length W")
    case True
    moreover have "W \<noteq> []" using 2(2) by auto
    ultimately show ?thesis using 2(2) by (simp add: Let_def extend_prefix nth_append)
  next
    case False
    then show ?thesis using 2 by (simp add: Let_def)
  qed
qed

lemma length_schedule [simp]: "length (schedule blk) = 64"
  by (simp add: schedule_def block_words_def)

lemma schedule_nth_early:
  assumes "length blk = 64" "i < 16"
  shows "schedule blk ! i = sha_word blk (i * 4)"
  using assms by (simp add: schedule_def extend_prefix block_words_def sha_word_of_be_bytes ac_simps)

lemma schedule_nth_late:
  assumes "16 \<le> i" "i < 64"
  shows "schedule blk ! i = std_G1 (schedule blk ! (i - 2)) + schedule blk ! (i - 7)
    + std_G0 (schedule blk ! (i - 15)) + schedule blk ! (i - 16)"
  unfolding schedule_def using assms by (intro extend_nth) (simp_all add: block_words_def)

lemma length_sha_K [simp]: "length sha_K = 64"
  by (simp add: sha_K_def)

lemma sha_rounds_schedule:
  assumes "length buf = 64"
  shows "i \<le> 64 \<Longrightarrow> sha_rounds buf i (take i (schedule buf)) st
    = foldl std_round st (drop i (zip sha_K (schedule buf)))"
proof (induction "64 - i" arbitrary: i st)
  case 0
  then show ?case by (simp add: sha_rounds.simps)
next
  case (Suc k)
  let ?S = "schedule buf"
  from Suc(2) have i: "i < 64" by simp
  have "(if i < 16 then sha_word buf (i * 4)
      else sha_G1 (take i ?S ! (i - 2)) + take i ?S ! (i - 7) + sha_G0 (take i ?S ! (i - 15))
        + take i ?S ! (i - 16)) = ?S ! i"
    using i assms schedule_nth_late [of i buf] by (simp add: schedule_nth_early sha_functions)
  then have "sha_rounds buf i (take i ?S) st
      = sha_rounds buf (i + 1) (take i ?S @ [?S ! i]) (sha_round (sha_K ! i) (?S ! i) st)"
    using i by (subst sha_rounds.simps) (simp add: Let_def)
  also have "take i ?S @ [?S ! i] = take (i + 1) ?S"
    using i by (simp add: take_Suc_conv_app_nth)
  also have "sha_rounds buf (i + 1) \<dots> (sha_round (sha_K ! i) (?S ! i) st)
      = foldl std_round (std_round st (sha_K ! i, ?S ! i)) (drop (i + 1) (zip sha_K ?S))"
    using Suc(1) [of "i + 1"] Suc(2) i by (simp add: sha_round_std)
  also have "\<dots> = foldl std_round st (drop i (zip sha_K ?S))"
    using i Cons_nth_drop_Suc [of i "zip sha_K ?S"] by (metis (no_types, lifting) Suc_eq_plus1
        foldl_Cons length_schedule length_sha_K length_zip min.idem nth_zip)
  finally show ?case .
qed

lemma sha_compress_std:
  "length (sha_buf ctx) = 64 \<Longrightarrow>
     sha_compress ctx = ctx\<lparr>sha_hash := std_compress (sha_hash ctx) (sha_buf ctx)\<rparr>"
  using sha_rounds_schedule [of "sha_buf ctx" 0] by (simp add: sha_compress_def std_compress_def)

section \<open>Blocks and padding\<close>

lemma blocks_short: "length xs < 64 \<Longrightarrow> blocks xs = []"
  by (subst blocks.simps) simp

lemma blocks_Cons: "length xs = 64 \<Longrightarrow> blocks (xs @ ys) = xs # blocks ys"
  by (subst blocks.simps) simp

lemma blocks_append: "length q = 64 * k \<Longrightarrow> blocks (q @ ys) = blocks q @ blocks ys"
proof (induction k arbitrary: q)
  case 0
  then show ?case by (simp add: blocks_short)
next
  case (Suc k)
  define b r where "b = take 64 q" and "r = drop 64 q"
  have "q = b @ r" "length b = 64" "length r = 64 * k" using Suc(2) by (simp_all add: b_def r_def)
  then show ?case using Suc(1) [of r] by (simp add: blocks_Cons)
qed

lemma le_bytes_add: "le_bytes (m + n) w = le_bytes m w @ le_bytes n (drop_bit (8 * m) w)"
  by (induction m arbitrary: w) (simp_all add: drop_bit_drop_bit ac_simps)

lemma ucast_drop_ucast:
  "k + 8 \<le> 32 \<Longrightarrow> (ucast (drop_bit k (ucast (w :: u64) :: u32)) :: u8) = ucast (drop_bit k w)"
  by (rule bit_word_eqI) (auto simp: bit_simps)

lemma le_bytes_4_ucast: "le_bytes 4 (ucast (w :: u64) :: u32) = le_bytes 4 w"
  using ucast_drop_ucast [of 0 w] by (simp add: ucast_drop_ucast)

lemma be_bytes_64:
  assumes "unat hi * 2 ^ 32 + unat lo = m"
  shows "be_bytes 8 (of_nat m :: u64) = be_bytes 4 (hi :: u32) @ be_bytes 4 (lo :: u32)"
proof -
  let ?w = "of_nat m :: u64"
  have lo: "unat lo < 2 ^ 32" and hi: "unat hi < 2 ^ 32"
    using unat_bound [of lo] unat_bound [of hi] by simp_all
  have "m < 2 ^ 64" using lo hi unfolding assms [symmetric] by simp
  then have w: "unat ?w = m" by (rule unat_size_of_nat)
  have "unat (ucast ?w :: u32) = m mod 2 ^ 32"
    using unat_ucast_mod [of ?w, where 'b = 32] by (simp only: w) simp
  also have "\<dots> = unat lo" using lo unfolding assms [symmetric] by simp
  finally have l: "ucast ?w = lo" by (simp only: word_unat_eq_iff)
  have "unat (drop_bit 32 ?w) = drop_bit 32 (unat ?w)" by (rule unat_drop_bit_eq)
  then have d: "unat (drop_bit 32 ?w) = m div 2 ^ 32" unfolding w by (simp only: drop_bit_eq_div)
  have "unat (ucast (drop_bit 32 ?w) :: u32) = m div 2 ^ 32 mod 2 ^ 32"
    using unat_ucast_mod [of "drop_bit 32 ?w", where 'b = 32] unfolding d by simp
  also have "\<dots> = unat hi" using lo hi unfolding assms [symmetric] by simp
  finally have h: "ucast (drop_bit 32 ?w) = hi" by (simp only: word_unat_eq_iff)
  have "le_bytes (4 + 4) ?w = le_bytes 4 (ucast ?w :: u32) @ le_bytes 4 (ucast (drop_bit 32 ?w) :: u32)"
    unfolding le_bytes_add le_bytes_4_ucast by simp
  then have "le_bytes (4 + 4) ?w = le_bytes 4 lo @ le_bytes 4 hi" by (simp only: l h)
  then show ?thesis by (simp only: be_bytes_def rev_append) simp
qed

section \<open>The context and the bytes it has taken\<close>

text \<open>The message so far is \<open>q @ r\<close>: the whole blocks, and what the buffer holds.\<close>

definition absorbed :: "u8 list \<Rightarrow> u8 list \<Rightarrow> sha256_context \<Rightarrow> bool" where
  "absorbed q r ctx \<longleftrightarrow>
     (\<exists>k. length q = 64 * k) \<and> length r < 64
     \<and> length (sha_buf ctx) = 64 \<and> take (length r) (sha_buf ctx) = r
     \<and> unat (sha_len ctx) = length r
     \<and> sha_hash ctx = foldl std_compress sha_initial (blocks q)
     \<and> unat (sha_bits1 ctx) * 2 ^ 32 + unat (sha_bits0 ctx) = 8 * length q"

lemma absorbed_init: "length (sha_buf junk) = 64 \<Longrightarrow> absorbed [] [] (sha256_init junk)"
  by (simp add: absorbed_def sha256_init_def blocks_short)

lemma sha_addbits_fields [simp]:
  "sha_buf (sha_addbits ctx n) = sha_buf ctx" "sha_hash (sha_addbits ctx n) = sha_hash ctx"
  "sha_len (sha_addbits ctx n) = sha_len ctx"
  by (simp_all add: sha_addbits_def Let_def)

lemma add_carry:
  assumes "h * B + l + n < B * B" "l < B" "n < (B :: nat)"
  shows "(if l + n \<ge> B then (h + 1) mod B else h) * B + (l + n) mod B = h * B + l + n"
proof (cases "l + n \<ge> B")
  case True
  then have "(l + n) mod B = l + n - B" using assms(2,3) by (simp add: mod_if)
  moreover have "(h + 1) * B < B * B" using True assms(1) by simp
  then have "h + 1 < B" by (simp only: mult_less_cancel2)
  then have "(h + 1) mod B = h + 1" by (rule mod_less)
  ultimately show ?thesis using True by simp
qed simp

lemma sha_addbits_count:
  assumes "unat (sha_bits1 ctx) * 2 ^ 32 + unat (sha_bits0 ctx) + unat n < 2 ^ 64"
  shows "unat (sha_bits1 (sha_addbits ctx n)) * 2 ^ 32 + unat (sha_bits0 (sha_addbits ctx n))
    = unat (sha_bits1 ctx) * 2 ^ 32 + unat (sha_bits0 ctx) + unat n"
proof -
  let ?l = "sha_bits0 ctx" and ?h = "sha_bits1 ctx"
  have "n \<le> 0xffffffff" using unat_bound [of n] by (simp add: word_le_nat_alt)
  then have max: "unat (0xffffffff - n) = 0xffffffff - unat n" by (simp add: unat_sub)
  have carry: "?l > 0xffffffff - n \<longleftrightarrow> unat ?l + unat n \<ge> 2 ^ 32"
    unfolding word_less_nat_alt max using unat_bound [of n] by simp linarith
  have l: "unat (sha_bits0 (sha_addbits ctx n)) = (unat ?l + unat n) mod 2 ^ 32"
    using unat_add_mod [of ?l n] by (simp add: sha_addbits_def Let_def and_ffffffff)
  have h: "unat (sha_bits1 (sha_addbits ctx n))
      = (if unat ?l + unat n \<ge> 2 ^ 32 then (unat ?h + 1) mod 2 ^ 32 else unat ?h)"
    using unat_add_mod [of ?h 1] by (simp add: sha_addbits_def Let_def and_ffffffff carry)
  show ?thesis
    unfolding l h by (rule add_carry) (use assms unat_bound [of ?l] unat_bound [of n] in simp_all)
qed

lemma unat_add_one_len:
  "unat (n :: u32) < 64 \<Longrightarrow> unat (n + 1) = unat n + 1"
  using unat_add_mod [of n 1] by simp

lemma sha256_byte_absorbed:
  assumes "absorbed q r ctx" "length q + length r < 2 ^ 61 - 1"
  shows "\<exists>ctx' q' r'. sha256_byte b ctx = Some ctx' \<and> absorbed q' r' ctx' \<and> q' @ r' = q @ r @ [b]"
proof -
  let ?j = "length r"
  define c where "c = ctx\<lparr>sha_buf := (sha_buf ctx)[?j := b], sha_len := sha_len ctx + 1\<rparr>"
  from assms(1) obtain k where k: "length q = 64 * k" and r: "?j < 64" "length (sha_buf ctx) = 64"
      "take ?j (sha_buf ctx) = r" "unat (sha_len ctx) = ?j"
      "sha_hash ctx = foldl std_compress sha_initial (blocks q)"
      "unat (sha_bits1 ctx) * 2 ^ 32 + unat (sha_bits0 ctx) = 8 * length q"
    by (auto simp: absorbed_def)
  have len: "unat (sha_len ctx + 1) = ?j + 1" using r by (simp add: unat_add_one_len)
  have full: "sha_len ctx = 63 \<longleftrightarrow> ?j = 63" using r(4) by (simp add: word_unat_eq_iff)
  have taken: "take (?j + 1) ((sha_buf ctx)[?j := b]) = r @ [b]"
    using r by (simp add: take_Suc_conv_app_nth)
  have step: "sha256_byte b ctx = Some (if ?j = 63
      then (sha_addbits (sha_compress c) (64 * 8))\<lparr>sha_len := 0\<rparr> else c)"
    using r by (simp add: sha256_byte_def Let_def c_def full)
  show ?thesis
  proof (cases "?j = 63")
    case False
    then have "absorbed q (r @ [b]) c"
      unfolding absorbed_def using k r len taken by (simp add: c_def)
    then show ?thesis using step False by auto
  next
    case True
    have buf: "sha_buf c = r @ [b]"
      using taken r(2) True by (simp add: c_def)
    have comp: "sha_compress c = c\<lparr>sha_hash := std_compress (sha_hash ctx) (r @ [b])\<rparr>"
      using sha_compress_std [of c] buf True r(2) by (simp add: c_def)
    let ?c = "(sha_addbits (sha_compress c) (64 * 8))\<lparr>sha_len := 0\<rparr>"
    have bits: "unat (sha_bits1 (sha_compress c)) * 2 ^ 32 + unat (sha_bits0 (sha_compress c)) = 8 * length q"
      using r(6) unfolding comp by (simp add: c_def)
    have "unat (sha_bits1 ?c) * 2 ^ 32 + unat (sha_bits0 ?c) = 8 * length q + unat (64 * 8 :: u32)"
      using sha_addbits_count [of "sha_compress c" "64 * 8"] assms(2) True unfolding bits by simp
    moreover have "blocks (q @ r @ [b]) = blocks q @ [r @ [b]]"
      using blocks_append [OF k, of "r @ [b]"] blocks_Cons [of "r @ [b]" "[]"] True
      by (simp add: blocks_short)
    ultimately have "absorbed (q @ r @ [b]) [] ?c"
      unfolding absorbed_def using k True r(5) buf by (simp add: comp) (rule exI [of _ "k + 1"], simp)
    then show ?thesis using step True by auto
  qed
qed

lemma sha256_hash_absorbed:
  assumes "absorbed q r ctx" "length q + length r + length bs < 2 ^ 61"
  shows "\<exists>ctx' q' r'. sha256_hash bs ctx = Some ctx' \<and> absorbed q' r' ctx' \<and> q' @ r' = q @ r @ bs"
  using assms
proof (induction bs arbitrary: q r ctx)
  case (Cons b bs)
  have "length q + length r < 2 ^ 61 - 1" using Cons.prems(2) by simp
  then obtain ctx1 q1 r1 where 1: "sha256_byte b ctx = Some ctx1" "absorbed q1 r1 ctx1"
      "q1 @ r1 = q @ r @ [b]"
    using sha256_byte_absorbed [OF Cons.prems(1)] by blast
  have "length q1 + length r1 = length q + length r + 1"
    using arg_cong [OF 1(3), of length] by simp
  then have "length q1 + length r1 + length bs < 2 ^ 61" using Cons.prems(2) by simp
  from Cons.IH [OF 1(2) this] 1(1,3) show ?case by fastforce
qed auto

section \<open>Finishing\<close>

lemma done_last_block:
  assumes "length (sha_buf ctx) = 64" "unat (sha_len ctx) < 64" "n < 2 ^ 61"
    and "unat (sha_bits1 ctx) * 2 ^ 32 + unat (sha_bits0 ctx) + 8 * unat (sha_len ctx) = 8 * n"
  shows "sha_hash (sha_compress (sha_put_length (sha_addbits ctx (sha_len ctx * 8))))
    = std_compress (sha_hash ctx) (take 56 (sha_buf ctx) @ be_bytes 8 (of_nat (8 * n) :: u64))"
proof -
  let ?c = "sha_addbits ctx (sha_len ctx * 8)"
  have n: "8 * n < 2 ^ 64" using assms(3) by simp
  have l: "unat (sha_len ctx * 8) = 8 * unat (sha_len ctx)"
    using assms(2) unat_mult_mod [of "sha_len ctx" 8] by simp
  have "unat (sha_bits1 ?c) * 2 ^ 32 + unat (sha_bits0 ?c) = 8 * n"
    using sha_addbits_count [of ctx "sha_len ctx * 8"] n unfolding l assms(4) by blast
  then have len: "be_bytes 8 (of_nat (8 * n) :: u64)
      = sha_word_bytes (sha_bits1 ?c) @ sha_word_bytes (sha_bits0 ?c)"
    unfolding sha_word_bytes_be by (rule be_bytes_64)
  have buf: "sha_buf (sha_put_length ?c) = take 56 (sha_buf ctx) @ be_bytes 8 (of_nat (8 * n) :: u64)"
    unfolding len by (simp add: sha_put_length_def sha_word_bytes_def)
  have "sha_hash (sha_put_length ?c) = sha_hash ctx" by (simp add: sha_put_length_def)
  moreover have "length (sha_buf (sha_put_length ?c)) = 64" unfolding buf using assms(1) by simp
  ultimately show ?thesis by (simp add: sha_compress_std buf)
qed

lemma sha256_done_std:
  assumes ok: "absorbed q r ctx" and len: "length (q @ r) < 2 ^ 61"
  shows "sha256_done ctx = sha256_std (q @ r)"
proof -
  let ?j = "length r" and ?n = "length (q @ r)"
  from ok obtain k where k: "length q = 64 * k" and r: "?j < 64" "length (sha_buf ctx) = 64"
      "take ?j (sha_buf ctx) = r" "unat (sha_len ctx) = ?j"
      "sha_hash ctx = foldl std_compress sha_initial (blocks q)"
      "unat (sha_bits1 ctx) * 2 ^ 32 + unat (sha_bits0 ctx) = 8 * length q"
    by (auto simp: absorbed_def)
  define pad where "pad = take ?j (sha_buf ctx) @ 0x80 # replicate (63 - ?j) (0 :: u8)"
  define c0 where "c0 = ctx\<lparr>sha_buf := pad\<rparr>"
  have n: "?n < 2 ^ 61" by (rule len)
  have mod: "unat (sha_len ctx mod 64) = ?j"
    using r(1,4) by (simp add: unat_mod_distrib)
  have gt: "sha_len c0 > 55 \<longleftrightarrow> ?j > 55" using r(4) by (simp add: word_less_nat_alt c0_def)
  have pad: "pad = r @ 0x80 # replicate (63 - ?j) 0" "length pad = 64"
    using r(1,2,3) by (simp_all add: pad_def)
  have count: "unat (sha_bits1 ctx) * 2 ^ 32 + unat (sha_bits0 ctx) + 8 * unat (sha_len ctx) = 8 * ?n"
    unfolding r(4,6) by simp
  have nm: "?n mod 64 = ?j" using k r(1) by simp
  let ?len = "be_bytes 8 (of_nat (8 * ?n) :: u64)"
  let ?fin = "\<lambda>c. sha_put_length (sha_addbits c (sha_len c * 8))"
  have done0: "sha256_done ctx = concat (map sha_word_bytes (sha_state_words (sha_hash (sha_compress (?fin
      (if ?j > 55 then (sha_compress c0)\<lparr>sha_buf := replicate 64 0\<rparr> else c0))))))"
    unfolding sha256_done_def Let_def mod pad_def [symmetric] c0_def [symmetric]
    by (simp only: gt)
  show ?thesis
  proof (cases "?j > 55")
    case False
    let ?b = "r @ 0x80 # replicate (55 - ?j) 0 @ ?len"
    have "take 56 pad = r @ 0x80 # replicate (55 - ?j) 0"
      using False by (simp add: pad take_Cons' min_def)
    then have "sha_hash (sha_compress (?fin c0)) = std_compress (sha_hash ctx) ?b"
      using done_last_block [of c0 ?n] r(1,4) pad(2) n count by (simp add: c0_def)
    then have 1: "sha256_done ctx
        = concat (map sha_word_bytes (sha_state_words (std_compress (sha_hash ctx) ?b)))"
      using False by (simp only: done0 if_False)
    have "119 - ?j = (55 - ?j) + 64" "55 - ?j < 64" using False by simp_all
    then have "(119 - ?n mod 64) mod 64 = 55 - ?j" unfolding nm by (simp only: mod_add_self2 mod_less)
    then have "(q @ r) @ padding ?n = q @ ?b" by (simp add: padding_def)
    moreover have "blocks (q @ ?b) = blocks q @ [?b]"
      using blocks_append [OF k, of ?b] blocks_Cons [of ?b "[]"] False by (simp add: blocks_short)
    ultimately show ?thesis
      unfolding 1 sha256_std_def r(5) by (simp add: sha_word_bytes_be [abs_def])
  next
    case True
    let ?b = "replicate 56 0 @ ?len"
    define c1 where "c1 = (sha_compress c0)\<lparr>sha_buf := replicate 64 0\<rparr>"
    have c1: "c1 = ctx\<lparr>sha_hash := std_compress (sha_hash ctx) pad, sha_buf := replicate 64 0\<rparr>"
      using sha_compress_std [of c0] pad(2) by (simp add: c1_def c0_def)
    have "sha_hash (sha_compress (?fin c1)) = std_compress (std_compress (sha_hash ctx) pad) ?b"
      using done_last_block [of c1 ?n] r(1,4) n count by (simp add: c1)
    then have 1: "sha256_done ctx
        = concat (map sha_word_bytes (sha_state_words (std_compress (std_compress (sha_hash ctx) pad) ?b)))"
      using True by (simp only: done0 if_True c1_def [symmetric])
    have "119 - ?j = (63 - ?j) + 56" "119 - ?j < 64" using True r(1) by simp_all
    then have "(119 - ?n mod 64) mod 64 = (63 - ?j) + 56" unfolding nm by (simp only: mod_less)
    then have "(q @ r) @ padding ?n = q @ pad @ ?b"
      by (simp add: padding_def pad replicate_add)
    moreover have "blocks (q @ pad @ ?b) = blocks q @ [pad, ?b]"
      using blocks_append [OF k, of "pad @ ?b"] blocks_Cons [of pad ?b] blocks_Cons [of ?b "[]"] pad(2)
      by (simp add: blocks_short)
    ultimately show ?thesis
      unfolding 1 sha256_std_def r(5) by (simp add: sha_word_bytes_be [abs_def])
  qed
qed

lemma sha256_standard:
  assumes "length msg < 2 ^ 61" "length (sha_buf junk) = 64"
  shows "sha256 junk msg = Some (sha256_std msg)"
proof -
  from sha256_hash_absorbed [OF absorbed_init [OF assms(2)], of msg] assms(1)
  obtain ctx q r where c: "sha256_hash msg (sha256_init junk) = Some ctx" "absorbed q r ctx" "q @ r = msg"
    by auto
  from sha256_done_std [OF c(2)] c assms(1) show ?thesis by (simp add: sha256_def)
qed

lemma length_sha256_std [simp]: "length (sha256_std msg) = 32"
  by (cases "foldl std_compress sha_initial (blocks (msg @ padding (length msg)))")
    (simp add: sha256_std_def)

text \<open>
  C24: For every message of less than \<open>2\<^sup>6\<^sup>1\<close> bytes, and whatever the uninitialised context
  held, the incremental routine computes the SHA-256 digest of FIPS 180-4: the digest of the
  message padded to whole blocks, with its length in bits in the last eight bytes.
\<close>

theorem sha256_is_standard:
  assumes "length msg < 2 ^ 61" "length (sha_buf junk) = 64"
  shows "sha256 junk msg = Some (sha256_std msg)"
  using assms by (rule sha256_standard)

theorem sha256_is_standard_witness:
  "\<forall>junk. sha256 (junk\<lparr>sha_buf := replicate 64 7\<rparr>) [0x61, 0x62, 0x63] = Some (sha256_std [0x61, 0x62, 0x63])"
  by (intro allI, rule sha256_is_standard) simp_all

end
