(* ===== verification/Nan_Circular_Buffer.thy ===== *)
theory Nan_Circular_Buffer
  imports Nan_Prelude
begin

text \<open>
  The ring buffer of \<^verbatim>\<open>src/src/circular_buffer.c\<close>, which holds the follow-up frames that
  wait for the next discovery window. The concrete structure is an array with two indices
  and a \<^verbatim>\<open>full\<close> flag; \<open>cbuf_contents\<close> is the sequence it stands for, oldest first. The
  locale \<open>bounded_queue\<close> is the interface \<^verbatim>\<open>nan_transmit\<close> and
  \<^verbatim>\<open>nan_send_buffered_frames\<close> use, and its interpretation is the refinement.
  Indices are natural numbers: they stay below the capacity, so \<^verbatim>\<open>size_t\<close> never wraps.
\<close>

record circular_buf =
  cb_buffer :: "ptr list"
  cb_head :: nat
  cb_tail :: nat
  cb_capacity :: nat
  cb_full :: bool

text \<open>Reduction modulo the capacity; a capacity of 0 is a division by zero.\<close>

definition cb_inc :: "circular_buf \<Rightarrow> nat \<Rightarrow> nat option" where
  "cb_inc c i = (if cb_capacity c = 0 then None else Some ((i + 1) mod cb_capacity c))"

definition advance_pointer :: "circular_buf \<Rightarrow> circular_buf option" where
  "advance_pointer c =
     do { c \<leftarrow> (if cb_full c then do { t \<leftarrow> cb_inc c (cb_tail c); Some (c\<lparr>cb_tail := t\<rparr>) }
                else Some c);
          h \<leftarrow> cb_inc c (cb_head c);
          Some (c\<lparr>cb_head := h, cb_full := (h = cb_tail c)\<rparr>) }"

definition retreat_pointer :: "circular_buf \<Rightarrow> circular_buf option" where
  "retreat_pointer c =
     do { t \<leftarrow> cb_inc c (cb_tail c); Some (c\<lparr>cb_full := False, cb_tail := t\<rparr>) }"

definition circular_buf_reset :: "circular_buf \<Rightarrow> circular_buf" where
  "circular_buf_reset c = c\<lparr>cb_head := 0, cb_tail := 0, cb_full := False\<rparr>"

text \<open>\<open>mem\<close> is what \<^verbatim>\<open>malloc\<close> returned for the array and for the structure itself.\<close>

definition circular_buf_init :: "ptr list \<Rightarrow> circular_buf \<Rightarrow> nat \<Rightarrow> circular_buf" where
  "circular_buf_init mem c n =
     circular_buf_reset (c\<lparr>cb_buffer := take n mem, cb_capacity := n\<rparr>)"

definition circular_buf_full :: "circular_buf \<Rightarrow> bool" where
  "circular_buf_full c = cb_full c"

definition circular_buf_empty :: "circular_buf \<Rightarrow> bool" where
  "circular_buf_empty c \<longleftrightarrow> \<not> cb_full c \<and> cb_head c = cb_tail c"

definition circular_buf_capacity :: "circular_buf \<Rightarrow> nat" where
  "circular_buf_capacity c = cb_capacity c"

definition circular_buf_size :: "circular_buf \<Rightarrow> nat" where
  "circular_buf_size c =
     (if circular_buf_full c then cb_capacity c
      else if cb_head c \<ge> cb_tail c then cb_head c - cb_tail c
      else cb_capacity c + cb_head c - cb_tail c)"

text \<open>\<^verbatim>\<open>cbuf->buffer[i] = data\<close>; outside the array it is undefined.\<close>

definition cb_store :: "circular_buf \<Rightarrow> nat \<Rightarrow> ptr \<Rightarrow> circular_buf option" where
  "cb_store c i data =
     (if i < length (cb_buffer c) then Some (c\<lparr>cb_buffer := (cb_buffer c)[i := data]\<rparr>) else None)"

definition circular_buf_put_override :: "circular_buf \<Rightarrow> ptr \<Rightarrow> circular_buf option" where
  "circular_buf_put_override c data =
     do { c \<leftarrow> cb_store c (cb_head c) data; advance_pointer c }"

definition circular_buf_put :: "circular_buf \<Rightarrow> ptr \<Rightarrow> (int \<times> circular_buf) option" where
  "circular_buf_put c data =
     (if circular_buf_full c then Some (-1, c)
      else do { c \<leftarrow> cb_store c (cb_head c) data;
                c \<leftarrow> advance_pointer c;
                Some (0, c) })"

definition circular_buf_get :: "circular_buf \<Rightarrow> bool \<Rightarrow> (int \<times> ptr \<times> circular_buf) option" where
  "circular_buf_get c peek =
     (if circular_buf_empty c then Some (-1, NULL, c)
      else if cb_tail c < length (cb_buffer c)
      then do { let data = cb_buffer c ! cb_tail c;
                c \<leftarrow> (if \<not> peek then retreat_pointer c else Some c);
                Some (0, data, c) }
      else None)"

section \<open>Invariant and contents\<close>

definition cbuf_inv :: "circular_buf \<Rightarrow> bool" where
  "cbuf_inv c \<longleftrightarrow> 0 < cb_capacity c \<and> length (cb_buffer c) = cb_capacity c
     \<and> cb_head c < cb_capacity c \<and> cb_tail c < cb_capacity c
     \<and> (cb_full c \<longrightarrow> cb_head c = cb_tail c)"

definition cbuf_contents :: "circular_buf \<Rightarrow> ptr list" where
  "cbuf_contents c =
     map (\<lambda>i. cb_buffer c ! ((cb_tail c + i) mod cb_capacity c)) [0..<circular_buf_size c]"

named_theorems cbuf_defs
declare cb_inc_def [cbuf_defs] advance_pointer_def [cbuf_defs] retreat_pointer_def [cbuf_defs]
  circular_buf_full_def [cbuf_defs] circular_buf_empty_def [cbuf_defs]
  circular_buf_size_def [cbuf_defs] cb_store_def [cbuf_defs] cbuf_inv_def [cbuf_defs]

lemma circular_buf_init_inv:
  "0 < n \<Longrightarrow> n \<le> length mem \<Longrightarrow>
     cbuf_inv (circular_buf_init mem c n) \<and> cbuf_contents (circular_buf_init mem c n) = []"
  by (simp add: circular_buf_init_def circular_buf_reset_def cbuf_contents_def cbuf_defs)

lemma length_cbuf_contents [simp]: "length (cbuf_contents c) = circular_buf_size c"
  by (simp add: cbuf_contents_def)

lemma cbuf_size_le: "cbuf_inv c \<Longrightarrow> circular_buf_size c \<le> cb_capacity c"
  by (auto simp: cbuf_defs)

lemma cbuf_full_iff:
  "cbuf_inv c \<Longrightarrow> circular_buf_full c \<longleftrightarrow> circular_buf_size c = cb_capacity c"
  by (auto simp: cbuf_defs)

lemma cbuf_empty_iff: "cbuf_inv c \<Longrightarrow> circular_buf_empty c \<longleftrightarrow> cbuf_contents c = []"
proof -
  assume inv: "cbuf_inv c"
  have "circular_buf_empty c \<longleftrightarrow> circular_buf_size c = 0"
    using inv by (auto simp: cbuf_defs)
  then show ?thesis by (metis length_0_conv length_cbuf_contents)
qed

text \<open>The write index is the tail advanced by the number of elements.\<close>

lemma cbuf_head_eq:
  "cbuf_inv c \<Longrightarrow> cb_head c = (cb_tail c + circular_buf_size c) mod cb_capacity c"
  by (auto simp: cbuf_defs mod_if)

lemma circular_buf_size_put:
  assumes "cbuf_inv c" "\<not> cb_full c"
    and "h = (cb_head c + 1) mod cb_capacity c"
  shows "circular_buf_size (c\<lparr>cb_buffer := b, cb_head := h, cb_full := (h = cb_tail c)\<rparr>)
    = circular_buf_size c + 1"
  using assms by (auto simp: cbuf_defs mod_if)

lemma circular_buf_put_spec:
  assumes inv: "cbuf_inv c" and nf: "\<not> circular_buf_full c"
  shows "\<exists>c'. circular_buf_put c x = Some (0, c') \<and> cbuf_inv c'
      \<and> cbuf_contents c' = cbuf_contents c @ [x] \<and> cb_capacity c' = cb_capacity c"
proof -
  let ?n = "cb_capacity c" and ?k = "circular_buf_size c"
  define h where "h = (cb_head c + 1) mod ?n"
  define c' where "c' = c\<lparr>cb_buffer := (cb_buffer c)[cb_head c := x], cb_head := h,
      cb_full := (h = cb_tail c)\<rparr>"
  have put: "circular_buf_put c x = Some (0, c')"
    using inv nf by (simp add: circular_buf_put_def cbuf_defs c'_def h_def)
  have inv': "cbuf_inv c'"
    using inv by (simp add: cbuf_inv_def c'_def h_def)
  have sz: "circular_buf_size c' = ?k + 1"
    using circular_buf_size_put [OF inv _ h_def] nf
    by (simp add: c'_def circular_buf_full_def)
  have klt: "?k < ?n"
    using cbuf_size_le [OF inv] cbuf_full_iff [OF inv] nf by simp
  have hd: "cb_head c = (cb_tail c + ?k) mod ?n" by (rule cbuf_head_eq [OF inv])
  have other: "(cb_tail c + i) mod ?n \<noteq> cb_head c" if "i < ?k" for i
  proof
    assume "(cb_tail c + i) mod ?n = cb_head c"
    then have "(cb_tail c + i) mod ?n = (cb_tail c + ?k) mod ?n" using hd by simp
    then have "?n dvd ?k - i"
      using that by (metis add_diff_cancel_left less_imp_le mod_eq_dvd_iff_nat nat_add_left_cancel_le)
    then show False using that klt by (auto dest: dvd_imp_le)
  qed
  have nth: "cb_buffer c' ! ((cb_tail c + i) mod ?n)
      = (if i < ?k then cb_buffer c ! ((cb_tail c + i) mod ?n) else x)" if "i < ?k + 1" for i
    using that other [of i] inv hd
    by (cases "i < ?k") (auto simp: c'_def cbuf_inv_def less_Suc_eq)
  have "cbuf_contents c' = map (\<lambda>i. cb_buffer c' ! ((cb_tail c + i) mod ?n)) [0..<?k + 1]"
  proof -
    have "cb_tail c' = cb_tail c" "cb_capacity c' = ?n" by (simp_all add: c'_def)
    then show ?thesis by (simp only: cbuf_contents_def sz)
  qed
  also have "\<dots> = cbuf_contents c @ [x]"
    using nth by (auto simp: cbuf_contents_def)
  finally show ?thesis using put inv' by (simp add: c'_def)
qed

lemma circular_buf_get_spec:
  assumes inv: "cbuf_inv c" and ne: "cbuf_contents c = x # xs"
  shows "circular_buf_get c True = Some (0, x, c)"
    and "\<exists>c'. circular_buf_get c False = Some (0, x, c') \<and> cbuf_inv c'
      \<and> cbuf_contents c' = xs \<and> cb_capacity c' = cb_capacity c"
proof -
  let ?n = "cb_capacity c" and ?k = "circular_buf_size c"
  have nemp: "\<not> circular_buf_empty c" using cbuf_empty_iff [OF inv] ne by simp
  have k: "0 < ?k" using ne by (metis length_cbuf_contents length_greater_0_conv list.distinct(1))
  have x: "cb_buffer c ! cb_tail c = x"
  proof -
    have "cbuf_contents c ! 0 = cb_buffer c ! (cb_tail c mod ?n)"
      using k by (simp add: cbuf_contents_def)
    then show ?thesis using inv ne by (simp add: cbuf_inv_def)
  qed
  show "circular_buf_get c True = Some (0, x, c)"
    using nemp inv x by (simp add: circular_buf_get_def cbuf_inv_def)
  define c' where "c' = c\<lparr>cb_full := False, cb_tail := (cb_tail c + 1) mod ?n\<rparr>"
  have get: "circular_buf_get c False = Some (0, x, c')"
    using nemp inv x
    by (simp add: circular_buf_get_def retreat_pointer_def cb_inc_def cbuf_inv_def c'_def)
  have inv': "cbuf_inv c'" using inv by (simp add: cbuf_inv_def c'_def)
  have sz: "circular_buf_size c' = ?k - 1"
    using inv nemp by (auto simp: cbuf_defs c'_def mod_if)
  have "cbuf_contents c' = map (\<lambda>i. cb_buffer c ! ((cb_tail c + (i + 1)) mod ?n)) [0..<?k - 1]"
  proof -
    have "cb_tail c' = (cb_tail c + 1) mod ?n" "cb_capacity c' = ?n" "cb_buffer c' = cb_buffer c"
      by (simp_all add: c'_def)
    then show ?thesis by (simp add: cbuf_contents_def sz mod_simps add.commute)
  qed
  also have "\<dots> = tl (cbuf_contents c)"
    using k by (simp add: cbuf_contents_def map_tl [symmetric] list_eq_iff_nth_eq nth_tl)
  finally show "\<exists>c'. circular_buf_get c False = Some (0, x, c') \<and> cbuf_inv c'
      \<and> cbuf_contents c' = xs \<and> cb_capacity c' = cb_capacity c"
    using get inv' ne by (simp add: c'_def)
qed

lemma circular_buf_put_override_spec:
  assumes inv: "cbuf_inv c"
  shows "\<exists>c'. circular_buf_put_override c x = Some c' \<and> cbuf_inv c'
      \<and> cbuf_contents c' =
          (if circular_buf_full c then tl (cbuf_contents c) else cbuf_contents c) @ [x]"
proof (cases "circular_buf_full c")
  case False
  with circular_buf_put_spec [OF inv False, of x] show ?thesis
    by (auto simp: circular_buf_put_def circular_buf_put_override_def bind_eq_Some_conv)
next
  case True
  let ?n = "cb_capacity c"
  define t where "t = (cb_tail c + 1) mod ?n"
  have ht: "cb_head c = cb_tail c" and full: "cb_full c"
    using inv True by (auto simp: cbuf_inv_def circular_buf_full_def)
  define c' where "c' = c\<lparr>cb_buffer := (cb_buffer c)[cb_tail c := x], cb_head := t, cb_tail := t\<rparr>"
  have ov: "circular_buf_put_override c x = Some c'"
    using inv full ht by (simp add: circular_buf_put_override_def cbuf_defs c'_def t_def)
  have inv': "cbuf_inv c'" using inv by (simp add: cbuf_inv_def c'_def t_def)
  have sz: "circular_buf_size c' = ?n" "circular_buf_size c = ?n"
    using full by (simp_all add: circular_buf_size_def circular_buf_full_def c'_def)
  have pos: "0 < ?n" using inv by (simp add: cbuf_inv_def)
  then obtain m where m: "?n = Suc m" by (cases ?n) auto
  have nth: "cb_buffer c' ! ((t + i) mod ?n)
      = (if i < m then cb_buffer c ! ((cb_tail c + (i + 1)) mod ?n) else x)" if "i < Suc m" for i
  proof (cases "i < m")
    case True
    have "(cb_tail c + (i + 1)) mod ?n \<noteq> cb_tail c"
    proof
      assume "(cb_tail c + (i + 1)) mod ?n = cb_tail c"
      then have "(cb_tail c + (i + 1)) mod ?n = (cb_tail c + 0) mod ?n"
        using inv by (simp add: cbuf_inv_def)
      then have "?n dvd (i + 1)"
        by (metis add_diff_cancel_left' le_add1 mod_eq_dvd_iff_nat add_0_right)
      then show False using True m by (auto dest: dvd_imp_le)
    qed
    moreover have "(t + i) mod ?n = (cb_tail c + (i + 1)) mod ?n"
      by (simp add: t_def mod_simps add.commute)
    ultimately show ?thesis using True by (simp add: c'_def)
  next
    case False
    with that have "i = m" by simp
    have "(t + m) mod ?n = (cb_tail c + ?n) mod ?n"
      unfolding m by (simp add: t_def m mod_simps)
    also have "\<dots> = cb_tail c" using inv by (simp add: cbuf_inv_def)
    finally show ?thesis using \<open>i = m\<close> inv by (simp add: c'_def cbuf_inv_def)
  qed
  have flds: "cb_tail c' = t" "cb_capacity c' = ?n" by (simp_all add: c'_def)
  have "cbuf_contents c' = map (\<lambda>i. cb_buffer c' ! ((t + i) mod ?n)) [0..<Suc m]"
    by (simp only: cbuf_contents_def sz flds m)
  also have "\<dots> = map (\<lambda>i. cb_buffer c ! ((cb_tail c + (i + 1)) mod ?n)) [0..<m] @ [x]"
    using nth by auto
  also have "map (\<lambda>i. cb_buffer c ! ((cb_tail c + (i + 1)) mod ?n)) [0..<m] = tl (cbuf_contents c)"
    by (simp add: cbuf_contents_def sz m map_tl [symmetric] list_eq_iff_nth_eq nth_tl
        del: upt_Suc)
  finally show ?thesis using ov inv' True by auto
qed

section \<open>The interface of a bounded queue\<close>

text \<open>Taking everything out, as the loop of \<^verbatim>\<open>nan_send_buffered_frames\<close> does.\<close>

partial_function (option) drain ::
  "('q \<Rightarrow> (int \<times> ptr \<times> 'q) option) \<Rightarrow> 'q \<Rightarrow> ptr list \<Rightarrow> (ptr list \<times> 'q) option" where
  "drain get q acc =
     (case get q of None \<Rightarrow> None
      | Some (r, x, q') \<Rightarrow> if r \<noteq> - 1 then drain get q' (acc @ [x]) else Some (acc, q'))"

fun put_seq :: "('q \<Rightarrow> ptr \<Rightarrow> (int \<times> 'q) option) \<Rightarrow> 'q \<Rightarrow> ptr list \<Rightarrow> (int list \<times> 'q) option" where
  "put_seq put q [] = Some ([], q)"
| "put_seq put q (x # xs) =
     (case put q x of None \<Rightarrow> None
      | Some (r, q') \<Rightarrow> map_option (\<lambda>(rs, q''). (r # rs, q'')) (put_seq put q' xs))"

text \<open>Any interleaving of puts and gets, and the queue it should behave like.\<close>

datatype queue_cmd = Put ptr | Get

fun run_queue :: "('q \<Rightarrow> ptr \<Rightarrow> (int \<times> 'q) option) \<Rightarrow> ('q \<Rightarrow> (int \<times> ptr \<times> 'q) option)
    \<Rightarrow> queue_cmd list \<Rightarrow> 'q \<Rightarrow> ((int \<times> ptr) list \<times> 'q) option" where
  "run_queue put get [] q = Some ([], q)"
| "run_queue put get (Put x # cs) q =
     (case put q x of None \<Rightarrow> None
      | Some (r, q') \<Rightarrow> map_option (\<lambda>(as, q''). ((r, x) # as, q'')) (run_queue put get cs q'))"
| "run_queue put get (Get # cs) q =
     (case get q of None \<Rightarrow> None
      | Some (r, x, q') \<Rightarrow> map_option (\<lambda>(as, q''). ((r, x) # as, q'')) (run_queue put get cs q'))"

fun fifo_cmds :: "nat \<Rightarrow> queue_cmd list \<Rightarrow> ptr list \<Rightarrow> (int \<times> ptr) list" where
  "fifo_cmds n [] xs = []"
| "fifo_cmds n (Put x # cs) xs =
     (if length xs < n then (0, x) # fifo_cmds n cs (xs @ [x]) else (- 1, x) # fifo_cmds n cs xs)"
| "fifo_cmds n (Get # cs) xs =
     (case xs of [] \<Rightarrow> (- 1, NULL) # fifo_cmds n cs []
      | y # ys \<Rightarrow> (0, y) # fifo_cmds n cs ys)"

locale bounded_queue =
  fixes inv :: "'q \<Rightarrow> bool"
    and contents :: "'q \<Rightarrow> ptr list"
    and room :: "'q \<Rightarrow> nat"
    and put :: "'q \<Rightarrow> ptr \<Rightarrow> (int \<times> 'q) option"
    and get :: "'q \<Rightarrow> (int \<times> ptr \<times> 'q) option"
  assumes put_law: "inv q \<Longrightarrow> length (contents q) < room q \<Longrightarrow>
      \<exists>q'. put q x = Some (0, q') \<and> inv q' \<and> contents q' = contents q @ [x] \<and> room q' = room q"
    and put_full: "inv q \<Longrightarrow> length (contents q) = room q \<Longrightarrow> put q x = Some (- 1, q)"
    and within_room: "inv q \<Longrightarrow> length (contents q) \<le> room q"
    and get_law: "inv q \<Longrightarrow> contents q = x # xs \<Longrightarrow>
      \<exists>q'. get q = Some (0, x, q') \<and> inv q' \<and> contents q' = xs \<and> room q' = room q"
    and get_empty: "inv q \<Longrightarrow> contents q = [] \<Longrightarrow> get q = Some (- 1, NULL, q)"
begin

text \<open>Draining ends, yields the elements in the order they were put, and leaves it empty.\<close>

lemma drain_contents:
  "inv q \<Longrightarrow> \<exists>q'. drain get q acc = Some (acc @ contents q, q') \<and> inv q' \<and> contents q' = []"
proof (induction "contents q" arbitrary: q acc)
  case Nil
  then have "get q = Some (- 1, NULL, q)" by (simp add: get_empty)
  with Nil show ?case by (subst drain.simps) simp
next
  case (Cons x xs)
  then obtain q1 where q1: "get q = Some (0, x, q1)" "inv q1" "contents q1 = xs"
    using get_law by (metis)
  moreover obtain q2 where "drain get q1 (acc @ [x]) = Some ((acc @ [x]) @ contents q1, q2)"
    "inv q2" "contents q2 = []"
    using Cons.hyps(1) [of q1 "acc @ [x]"] q1 by auto
  ultimately show ?case
    by (subst drain.simps) (simp flip: Cons.hyps(2))
qed

text \<open>A sequence of puts accepts what fits, in order, and refuses the rest.\<close>

lemma put_seq_contents:
  "inv q \<Longrightarrow> \<exists>q'. put_seq put q xs = Some (replicate (min (length xs) (room q - length (contents q))) 0
      @ replicate (length xs - (room q - length (contents q))) (- 1), q') \<and> inv q'
      \<and> contents q' = contents q @ take (room q - length (contents q)) xs \<and> room q' = room q"
proof (induction xs arbitrary: q)
  case Nil
  then show ?case by simp
next
  case (Cons x xs)
  show ?case
  proof (cases "length (contents q) < room q")
    case True
    then obtain q1 where q1: "put q x = Some (0, q1)" "inv q1"
      "contents q1 = contents q @ [x]" "room q1 = room q"
      using put_law Cons.prems by blast
    obtain k where k: "room q - length (contents q) = Suc k"
      using True by (metis Suc_diff_Suc)
    then have k': "room q1 - length (contents q1) = k" using q1 by simp
    from Cons.IH [OF q1(2)] k k' q1 show ?thesis by auto
  next
    case False
    with within_room [OF Cons.prems] have full: "length (contents q) = room q" by simp
    with put_full [OF Cons.prems] Cons.IH [OF Cons.prems] show ?thesis by auto
  qed
qed

lemma put_all_drain:
  assumes "inv q" "contents q = []" "length xs \<le> room q"
  shows "\<exists>rs q1 q2. put_seq put q xs = Some (rs, q1) \<and> drain get q1 [] = Some (xs, q2)
     \<and> contents q2 = []"
proof -
  from put_seq_contents [OF assms(1), of xs] assms(2,3) obtain rs q1 where
    q1: "put_seq put q xs = Some (rs, q1)" "inv q1" "contents q1 = xs" by auto
  from drain_contents [OF q1(2), of "[]"] q1 show ?thesis by auto
qed

lemma run_queue_fifo:
  "inv q \<Longrightarrow> \<exists>q'. run_queue put get cs q = Some (fifo_cmds (room q) cs (contents q), q') \<and> inv q'"
proof (induction cs arbitrary: q)
  case Nil
  then show ?case by simp
next
  case (Cons c cs)
  show ?case
  proof (cases c)
    case (Put x)
    show ?thesis
    proof (cases "length (contents q) < room q")
      case True
      with put_law Cons.prems obtain q1 where "put q x = Some (0, q1)" "inv q1"
        "contents q1 = contents q @ [x]" "room q1 = room q" by blast
      with Cons.IH [of q1] Put True show ?thesis by auto
    next
      case False
      with within_room [OF Cons.prems] have "length (contents q) = room q" by simp
      with put_full [OF Cons.prems] Cons.IH [OF Cons.prems] Put show ?thesis by auto
    qed
  next
    case Get
    show ?thesis
    proof (cases "contents q")
      case Nil
      with get_empty [OF Cons.prems] Cons.IH [OF Cons.prems] Get show ?thesis by auto
    next
      case (Cons y ys)
      with get_law [OF Cons.prems] obtain q1 where "get q = Some (0, y, q1)" "inv q1"
        "contents q1 = ys" "room q1 = room q" by blast
      with Cons.IH [of q1] Get Cons show ?thesis by auto
    qed
  qed
qed

end

interpretation cbuf: bounded_queue cbuf_inv cbuf_contents circular_buf_capacity
  circular_buf_put "\<lambda>c. circular_buf_get c False"
proof
  fix c x
  assume inv: "cbuf_inv c" and "length (cbuf_contents c) < circular_buf_capacity c"
  then have "\<not> circular_buf_full c"
    using cbuf_full_iff [OF inv] by (simp add: circular_buf_capacity_def)
  from circular_buf_put_spec [OF inv this, of x]
  show "\<exists>c'. circular_buf_put c x = Some (0, c') \<and> cbuf_inv c'
      \<and> cbuf_contents c' = cbuf_contents c @ [x]
      \<and> circular_buf_capacity c' = circular_buf_capacity c"
    by (simp add: circular_buf_capacity_def)
next
  fix c x
  assume inv: "cbuf_inv c" and "length (cbuf_contents c) = circular_buf_capacity c"
  then have "circular_buf_full c"
    using cbuf_full_iff [OF inv] by (simp add: circular_buf_capacity_def)
  then show "circular_buf_put c x = Some (- 1, c)" by (simp add: circular_buf_put_def)
next
  fix c
  assume "cbuf_inv c"
  then show "length (cbuf_contents c) \<le> circular_buf_capacity c"
    by (simp add: cbuf_size_le circular_buf_capacity_def)
next
  fix c x xs
  assume "cbuf_inv c" and "cbuf_contents c = x # xs"
  from circular_buf_get_spec(2) [OF this]
  show "\<exists>c'. circular_buf_get c False = Some (0, x, c') \<and> cbuf_inv c' \<and> cbuf_contents c' = xs
      \<and> circular_buf_capacity c' = circular_buf_capacity c"
    by (simp add: circular_buf_capacity_def)
next
  fix c
  assume inv: "cbuf_inv c" and "cbuf_contents c = []"
  then show "circular_buf_get c False = Some (- 1, NULL, c)"
    using cbuf_empty_iff [OF inv] by (simp add: circular_buf_get_def)
qed

section \<open>Properties\<close>

text \<open>
  C21: A ring buffer initialised with capacity \<open>n\<close> behaves under every interleaving of
  \<^verbatim>\<open>circular_buf_put\<close> and \<^verbatim>\<open>circular_buf_get\<close> like a first-in first-out queue that
  holds at most \<open>n\<close> elements: a put is refused exactly when \<open>n\<close> elements wait, a get
  yields the oldest one and fails exactly when none waits, and the array is never left.
\<close>

theorem circular_buf_fifo:
  assumes "0 < n" "n \<le> length mem"
  shows "\<exists>c'. run_queue circular_buf_put (\<lambda>c. circular_buf_get c False) cs (circular_buf_init mem c n)
    = Some (fifo_cmds n cs [], c') \<and> cbuf_inv c'"
proof -
  from circular_buf_init_inv [OF assms, of c] have
    init: "cbuf_inv (circular_buf_init mem c n)" "cbuf_contents (circular_buf_init mem c n) = []"
    by simp_all
  have "circular_buf_capacity (circular_buf_init mem c n) = n"
    by (simp add: circular_buf_capacity_def circular_buf_init_def circular_buf_reset_def)
  with cbuf.run_queue_fifo [OF init(1), of cs] init(2) show ?thesis by simp
qed

theorem circular_buf_fifo_witness:
  "\<exists>c'. run_queue circular_buf_put (\<lambda>c. circular_buf_get c False)
      [Put 4, Put 5, Put 6, Get, Put 7, Get, Get, Get]
      (circular_buf_init [0, 0] \<lparr>cb_buffer = [], cb_head = 9, cb_tail = 9, cb_capacity = 9, cb_full = True\<rparr> 2)
    = Some ([(0, 4), (0, 5), (- 1, 6), (0, 4), (0, 7), (0, 5), (0, 7), (- 1, 0)], c') \<and> cbuf_inv c'"
  using circular_buf_fifo [of 2 "[0, 0]" "[Put 4, Put 5, Put 6, Get, Put 7, Get, Get, Get]"
      "\<lparr>cb_buffer = [], cb_head = 9, cb_tail = 9, cb_capacity = 9, cb_full = True\<rparr>"]
  by simp

text \<open>
  The overriding put never fails: on a full buffer it drops the oldest element, otherwise
  it appends, and the invariant is kept.
\<close>

lemma circular_buf_put_override_drops_oldest:
  assumes "cbuf_inv c"
  shows "\<exists>c'. circular_buf_put_override c x = Some c' \<and> cbuf_inv c'
    \<and> cbuf_contents c' = (if circular_buf_full c then tl (cbuf_contents c) else cbuf_contents c) @ [x]"
  using assms by (rule circular_buf_put_override_spec)

end
