(* ===== verification/Nan_Wire.thy ===== *)
theory Nan_Wire
  imports Nan_Prelude
begin

text \<open>
  The frame buffer of \<^verbatim>\<open>src/src/wire.c\<close>: a block of memory, a cursor, and the checked
  reads and writes through which every frame is parsed and built. The \<^verbatim>\<open>int\<close> and
  \<^verbatim>\<open>size_t\<close> arithmetic of the bounds checks is kept as it is, with its conversions.
  A buffer whose memory was reallocated is \<open>Dangling\<close>: its cursor must not be used any more.
  \<open>inp\<close> and \<open>written\<close> are the two views of a well-formed buffer: the bytes still to be
  read, and the bytes the cursor has passed. The locales \<open>byte_source\<close> and \<open>byte_sink\<close>
  state the contracts of the parsers and the builders.
\<close>

section \<open>Ethernet addresses\<close>

datatype ether_addr = Ether_Addr u8 u8 u8 u8 u8 u8

primrec ether_addr_octet :: "ether_addr \<Rightarrow> u8 list" where
  "ether_addr_octet (Ether_Addr a b c d e f) = [a, b, c, d, e, f]"

fun ether_addr_of :: "u8 list \<Rightarrow> ether_addr" where
  "ether_addr_of [a, b, c, d, e, f] = Ether_Addr a b c d e f"
| "ether_addr_of _ = Ether_Addr 0 0 0 0 0 0"

abbreviation (input) ETHER_ADDR_LEN :: nat where "ETHER_ADDR_LEN \<equiv> 6"

lemma length_ether_addr_octet [simp]: "length (ether_addr_octet a) = 6"
  by (cases a) simp

lemma ether_addr_of_octet [simp]: "ether_addr_of (ether_addr_octet a) = a"
  by (cases a) simp

section \<open>Buffers\<close>

text \<open>
  \<open>bdata\<close> is the memory from \<^verbatim>\<open>data\<close> to the end of the object it points into;
  \<open>bcurrent\<close> is \<^verbatim>\<open>current - data\<close>.
\<close>

record buf =
  bdata :: "u8 list"
  bcurrent :: size_t
  bstart :: int
  bend :: int
  bsize :: size_t
  bowned :: bool
  berror :: int

text \<open>\<open>junk\<close> is the memory \<^verbatim>\<open>malloc\<close> returns.\<close>

definition buf_new_owned :: "(nat \<Rightarrow> u8) \<Rightarrow> size_t \<Rightarrow> buf" where
  "buf_new_owned junk n =
     \<lparr>bdata = map junk [0..<unat n], bcurrent = 0, bstart = 0, bend = c_int (uint n), bsize = n,
      bowned = True, berror = 0\<rparr>"

definition buf_new_copy :: "(nat \<Rightarrow> u8) \<Rightarrow> u8 list \<Rightarrow> size_t \<Rightarrow> buf option" where
  "buf_new_copy junk src n =
     (let b = buf_new_owned junk n in
      do { bs \<leftarrow> mem_load src 0 (unat n);
           m \<leftarrow> mem_store (bdata b) 0 bs;
           Some (b\<lparr>bdata := m\<rparr>) })"

definition buf_new_const :: "u8 list \<Rightarrow> size_t \<Rightarrow> buf" where
  "buf_new_const src n =
     \<lparr>bdata = src, bcurrent = 0, bstart = 0, bend = c_int (uint n), bsize = n,
      bowned = False, berror = 0\<rparr>"

definition buf_error :: "buf \<Rightarrow> int" where
  "buf_error b = berror b"

text \<open>Pointers into the buffer are offsets from \<^verbatim>\<open>data\<close>.\<close>

definition buf_current :: "buf \<Rightarrow> size_t" where
  "buf_current b = bcurrent b"

definition buf_data :: "buf \<Rightarrow> int" where
  "buf_data b = bstart b"

definition buf_orig_data :: "buf \<Rightarrow> int" where
  "buf_orig_data b = bstart b"

definition buf_size :: "buf \<Rightarrow> size_t" where
  "buf_size b = word_of_int (bend b - bstart b)"

definition buf_orig_size :: "buf \<Rightarrow> size_t" where
  "buf_orig_size b = bsize b"

text \<open>\<^verbatim>\<open>abs\<close> takes an \<^verbatim>\<open>int\<close>, so the pointer difference is converted first.\<close>

definition buf_position :: "buf \<Rightarrow> size_t" where
  "buf_position b = word_of_int \<bar>c_int (sint (- bcurrent b))\<bar>"

definition buf_rest :: "buf \<Rightarrow> int" where
  "buf_rest b = c_int (uint (word_of_int (bend b) - buf_position b))"

definition buf_advance :: "buf \<Rightarrow> size_t \<Rightarrow> int \<times> buf" where
  "buf_advance b n =
     (if c_int (uint n) > buf_rest b then (- 1, b\<lparr>berror := - 1\<rparr>)
      else (c_int (uint n), b\<lparr>bcurrent := bcurrent b + n\<rparr>))"

definition buf_strip :: "buf \<Rightarrow> size_t \<Rightarrow> int \<times> buf" where
  "buf_strip b n =
     (if n > buf_position b then (- 1, b\<lparr>berror := - 1\<rparr>)
      else (c_int (uint n), b\<lparr>bstart := c_int (uint (word_of_int (bstart b) + n))\<rparr>))"

definition buf_take :: "buf \<Rightarrow> size_t \<Rightarrow> int \<times> buf" where
  "buf_take b n =
     (if buf_rest b < c_int (uint n) then (- 1, b\<lparr>berror := - 1\<rparr>)
      else (c_int (uint n), b\<lparr>bend := c_int (uint (word_of_int (bend b) - n))\<rparr>))"

text \<open>
  \<^verbatim>\<open>realloc\<close> keeps the common prefix; \<open>junk\<close> is what a larger block ends with. It ends the
  life of the old block, and \<^verbatim>\<open>current\<close>, which nothing moves, still points there: the buffer
  is \<open>Dangling\<close>, and every operation that uses the cursor is undefined. A buffer that does
  not own its memory stays \<open>Usable\<close>. The end is not changed in either case.
\<close>

datatype resized = Usable buf | Dangling buf

primrec resized_buf :: "resized \<Rightarrow> buf" where
  "resized_buf (Usable b) = b"
| "resized_buf (Dangling b) = b"

primrec usable :: "resized \<Rightarrow> buf option" where
  "usable (Usable b) = Some b"
| "usable (Dangling b) = None"

definition buf_resize :: "(nat \<Rightarrow> u8) \<Rightarrow> buf \<Rightarrow> size_t \<Rightarrow> resized" where
  "buf_resize junk b n =
     (if bowned b
      then Dangling (b\<lparr>bdata := take (unat n) (bdata b) @ map junk [length (bdata b)..<unat n], bsize := n\<rparr>)
      else Usable (b\<lparr>bsize := n\<rparr>))"

section \<open>Writing\<close>

text \<open>
  The bytes \<open>bs\<close> go to \<open>bcurrent\<close>; outside the object this is undefined. The macro
  \<^verbatim>\<open>write\<close> returns 0 when the buffer is too short, the other two functions -1.
\<close>

definition put_bytes :: "u8 list \<Rightarrow> buf \<Rightarrow> buf option" where
  "put_bytes bs b =
     do { m \<leftarrow> mem_store (bdata b) (unat (bcurrent b)) bs;
          Some (b\<lparr>bdata := m, bcurrent := bcurrent b + of_nat (length bs)\<rparr>) }"

definition write_macro :: "buf \<Rightarrow> u8 list \<Rightarrow> (int \<times> buf) option" where
  "write_macro b bs =
     (if buf_rest b < int (length bs) then Some (0, b\<lparr>berror := - 1\<rparr>)
      else do { b \<leftarrow> put_bytes bs b; Some (int (length bs), b) })"

definition write_u8 :: "buf \<Rightarrow> u8 \<Rightarrow> (int \<times> buf) option" where
  "write_u8 b v = write_macro b [v]"

definition write_le16 :: "buf \<Rightarrow> u16 \<Rightarrow> (int \<times> buf) option" where
  "write_le16 b v = write_macro b (le_bytes 2 v)"

definition write_be16 :: "buf \<Rightarrow> u16 \<Rightarrow> (int \<times> buf) option" where
  "write_be16 b v = write_macro b (be_bytes 2 v)"

definition write_le32 :: "buf \<Rightarrow> u32 \<Rightarrow> (int \<times> buf) option" where
  "write_le32 b v = write_macro b (le_bytes 4 v)"

definition write_be32 :: "buf \<Rightarrow> u32 \<Rightarrow> (int \<times> buf) option" where
  "write_be32 b v = write_macro b (be_bytes 4 v)"

definition write_le64 :: "buf \<Rightarrow> u64 \<Rightarrow> (int \<times> buf) option" where
  "write_le64 b v = write_macro b (le_bytes 8 v)"

definition write_be64 :: "buf \<Rightarrow> u64 \<Rightarrow> (int \<times> buf) option" where
  "write_be64 b v = write_macro b (be_bytes 8 v)"

definition write_ether_addr :: "buf \<Rightarrow> ether_addr \<Rightarrow> (int \<times> buf) option" where
  "write_ether_addr b addr =
     (if buf_rest b < 6 then Some (- 1, b\<lparr>berror := - 1\<rparr>)
      else do { b \<leftarrow> put_bytes (ether_addr_octet addr) b; Some (6, b) })"

text \<open>\<open>src\<close> is the memory \<^verbatim>\<open>bytes\<close> points to.\<close>

definition write_bytes :: "buf \<Rightarrow> u8 list \<Rightarrow> size_t \<Rightarrow> (int \<times> buf) option" where
  "write_bytes b src n =
     (if buf_rest b < c_int (uint n) then Some (- 1, b\<lparr>berror := - 1\<rparr>)
      else do { bs \<leftarrow> mem_load src 0 (unat n);
                b \<leftarrow> put_bytes bs b;
                Some (c_int (uint n), b) })"

section \<open>Reading\<close>

text \<open>
  Every caller passes the address of a variable; \<open>value\<close> is what that variable holds, and
  the result has what it holds afterwards.
\<close>

definition get_bytes :: "nat \<Rightarrow> buf \<Rightarrow> (u8 list \<times> buf) option" where
  "get_bytes n b =
     do { bs \<leftarrow> mem_load (bdata b) (unat (bcurrent b)) n;
          Some (bs, b\<lparr>bcurrent := bcurrent b + of_nat n\<rparr>) }"

definition read_macro :: "nat \<Rightarrow> (u8 list \<Rightarrow> 'v) \<Rightarrow> buf \<Rightarrow> 'v \<Rightarrow> (int \<times> 'v \<times> buf) option" where
  "read_macro n to b val =
     (if buf_rest b < int n then Some (0, val, b\<lparr>berror := - 1\<rparr>)
      else do { (bs, b) \<leftarrow> get_bytes n b; Some (int n, to bs, b) })"

definition read_u8 :: "buf \<Rightarrow> u8 \<Rightarrow> (int \<times> u8 \<times> buf) option" where
  "read_u8 = read_macro 1 hd"

definition read_le16 :: "buf \<Rightarrow> u16 \<Rightarrow> (int \<times> u16 \<times> buf) option" where
  "read_le16 = read_macro 2 of_le_bytes"

definition read_be16 :: "buf \<Rightarrow> u16 \<Rightarrow> (int \<times> u16 \<times> buf) option" where
  "read_be16 = read_macro 2 of_be_bytes"

definition read_le32 :: "buf \<Rightarrow> u32 \<Rightarrow> (int \<times> u32 \<times> buf) option" where
  "read_le32 = read_macro 4 of_le_bytes"

definition read_be32 :: "buf \<Rightarrow> u32 \<Rightarrow> (int \<times> u32 \<times> buf) option" where
  "read_be32 = read_macro 4 of_be_bytes"

definition read_le64 :: "buf \<Rightarrow> u64 \<Rightarrow> (int \<times> u64 \<times> buf) option" where
  "read_le64 = read_macro 8 of_le_bytes"

definition read_be64 :: "buf \<Rightarrow> u64 \<Rightarrow> (int \<times> u64 \<times> buf) option" where
  "read_be64 = read_macro 8 of_be_bytes"

text \<open>The cursor stays where it is.\<close>

definition read_ether_addr :: "buf \<Rightarrow> ether_addr \<Rightarrow> (int \<times> ether_addr \<times> buf) option" where
  "read_ether_addr b addr =
     (if 6 > buf_rest b then Some (0, addr, b\<lparr>berror := - 1\<rparr>)
      else do { bs \<leftarrow> mem_load (bdata b) (unat (bcurrent b)) 6;
                Some (6, ether_addr_of bs, b) })"

text \<open>The pointer stored into \<^verbatim>\<open>*bytes\<close> is an offset into the buffer.\<close>

definition read_bytes :: "buf \<Rightarrow> size_t \<Rightarrow> size_t \<Rightarrow> int \<times> size_t \<times> buf" where
  "read_bytes b bytes n =
     (if buf_rest b < c_int (uint n) then (0, bytes, b\<lparr>berror := - 1\<rparr>)
      else (c_int (uint n), bcurrent b, b\<lparr>bcurrent := bcurrent b + n\<rparr>))"

text \<open>\<open>dst\<close> is the memory the bytes are copied to.\<close>

definition read_bytes_copy :: "buf \<Rightarrow> u8 list \<Rightarrow> size_t \<Rightarrow> (int \<times> u8 list \<times> buf) option" where
  "read_bytes_copy b dst n =
     (if buf_rest b < c_int (uint n) then Some (0, dst, b\<lparr>berror := - 1\<rparr>)
      else do { bs \<leftarrow> mem_load (bdata b) (unat (bcurrent b)) (unat n);
                dst \<leftarrow> mem_store dst 0 bs;
                Some (c_int (uint n), dst, b\<lparr>bcurrent := bcurrent b + n\<rparr>) })"

named_theorems wire_simps \<open>views of a well-formed buffer after its cursor moved\<close>

section \<open>Well-formed buffers\<close>

definition wf_buf :: "buf \<Rightarrow> bool" where
  "wf_buf b \<longleftrightarrow> 0 \<le> bend b \<and> bend b < 2 ^ 31 \<and> unat (bcurrent b) \<le> nat (bend b)
     \<and> nat (bend b) \<le> length (bdata b)"

lemma wf_bufE:
  assumes "wf_buf b"
  obtains k e where "bcurrent b = of_nat k" "unat (bcurrent b) = k" "bend b = int e" "k \<le> e"
    "e \<le> length (bdata b)" "e < 2 ^ 31"
proof
  show "bcurrent b = of_nat (unat (bcurrent b))" by simp
  show "bend b = int (nat (bend b))" using assms by (simp add: wf_buf_def)
qed (use assms in \<open>auto simp: wf_buf_def nat_less_iff\<close>)

text \<open>The unread bytes, and those the cursor has passed.\<close>

definition inp :: "buf \<Rightarrow> u8 list" where
  "inp b = drop (unat (bcurrent b)) (take (nat (bend b)) (bdata b))"

definition written :: "buf \<Rightarrow> u8 list" where
  "written b = take (unat (bcurrent b)) (bdata b)"

definition room :: "buf \<Rightarrow> nat" where
  "room b = nat (bend b) - unat (bcurrent b)"

text \<open>The buffer after \<open>n\<close> bytes were read, and after a failed check.\<close>

abbreviation (input) skip :: "nat \<Rightarrow> buf \<Rightarrow> buf" where
  "skip n b \<equiv> b\<lparr>bcurrent := bcurrent b + of_nat n\<rparr>"

abbreviation (input) failed :: "buf \<Rightarrow> buf" where
  "failed b \<equiv> b\<lparr>berror := - 1\<rparr>"

lemma length_inp: "wf_buf b \<Longrightarrow> length (inp b) = room b"
  by (erule wf_bufE) (simp add: inp_def room_def)

lemma wf_buf_position: "wf_buf b \<Longrightarrow> buf_position b = bcurrent b"
proof (erule wf_bufE)
  fix k e
  assume k: "bcurrent b = of_nat k" "k \<le> e" "e < 2 ^ 31"
  have "sint (- bcurrent b) = sint (word_of_int (- int k) :: size_t)" by (simp add: k)
  also have "\<dots> = signed_take_bit 63 (- int k)" by (simp only: sint_sbintrunc') simp
  also have "\<dots> = - int k" using k by (intro signed_take_bit_int_eq_self) auto
  finally have "sint (- bcurrent b) = - int k" .
  moreover have "c_int (- int k) = - int k" using k by (intro c_int_id) auto
  ultimately show ?thesis using k by (simp add: buf_position_def)
qed

lemma wf_buf_rest: "wf_buf b \<Longrightarrow> buf_rest b = int (room b)"
proof -
  assume wf: "wf_buf b"
  then obtain k e where k: "bcurrent b = of_nat k" "unat (bcurrent b) = k" "bend b = int e"
    "k \<le> e" "e < 2 ^ 31" by (erule_tac wf_bufE)
  have "of_nat e - of_nat k = (of_nat (e - k) :: size_t)"
    using k by (simp add: of_nat_diff)
  moreover have "uint (of_nat (e - k) :: size_t) = int (e - k)"
    using k by (intro uint_size_of_nat) auto
  moreover have "c_int (int (e - k)) = int (e - k)" using k by (intro c_int_id) auto
  ultimately show ?thesis using k(1,3) k(2)
    by (simp add: buf_rest_def wf_buf_position [OF wf] room_def)
qed

lemma wf_buf_room_bound: "wf_buf b \<Longrightarrow> room b < 2 ^ 31"
  by (erule wf_bufE) (simp add: room_def)

lemma wf_buf_cursor: "wf_buf b \<Longrightarrow> unat (bcurrent b) + room b \<le> length (bdata b)"
  by (erule wf_bufE) (simp add: room_def)

text \<open>What a check against the rest of the buffer decides.\<close>

lemma wf_buf_check: "wf_buf b \<Longrightarrow> buf_rest b < int n \<longleftrightarrow> room b < n"
  by (simp add: wf_buf_rest)

lemma wf_buf_check_size: "wf_buf b \<Longrightarrow> buf_rest b < uint (n :: size_t) \<longleftrightarrow> room b < unat n"
  by (simp add: wf_buf_rest int_less_uint)

lemma unat_skip:
  "wf_buf b \<Longrightarrow> n \<le> room b \<Longrightarrow> unat (bcurrent b + of_nat n) = unat (bcurrent b) + n"
proof (erule wf_bufE)
  fix k e
  assume "n \<le> room b" "bcurrent b = of_nat k" "unat (bcurrent b) = k" "bend b = int e" "k \<le> e"
    "e < 2 ^ 31"
  then show ?thesis
    using unat_size_of_nat [of "k + n"] by (simp add: room_def)
qed

lemma wf_buf_skip: "wf_buf b \<Longrightarrow> n \<le> room b \<Longrightarrow> wf_buf (skip n b)"
  using unat_skip [of b n] by (auto simp: wf_buf_def room_def)

lemma room_skip: "wf_buf b \<Longrightarrow> n \<le> room b \<Longrightarrow> room (skip n b) = room b - n"
  using unat_skip [of b n] by (simp add: room_def)

lemma inp_skip: "wf_buf b \<Longrightarrow> n \<le> room b \<Longrightarrow> inp (skip n b) = drop n (inp b)"
  using unat_skip [of b n] by (simp add: inp_def add.commute)

lemma written_skip: "wf_buf b \<Longrightarrow> n \<le> room b \<Longrightarrow> written (skip n b) = written b @ take n (inp b)"
proof -
  assume wf: "wf_buf b" and n: "n \<le> room b"
  have "take n (inp b) = take n (drop (unat (bcurrent b)) (bdata b))"
    using wf n by (elim wf_bufE) (simp add: inp_def room_def take_drop min_absorb1)
  with unat_skip [OF wf n] show ?thesis by (simp add: written_def take_add)
qed

lemma failed_simps [simp]:
  "wf_buf (failed b) = wf_buf b" "inp (failed b) = inp b" "written (failed b) = written b"
  "room (failed b) = room b"
  by (simp_all add: wf_buf_def inp_def written_def room_def)

text \<open>The same for a literal number of bytes.\<close>

lemma skip_numeral [wire_simps]:
  assumes "wf_buf b" "numeral n \<le> room b"
  shows "wf_buf (b\<lparr>bcurrent := bcurrent b + numeral n\<rparr>)"
    and "room (b\<lparr>bcurrent := bcurrent b + numeral n\<rparr>) = room b - numeral n"
    and "inp (b\<lparr>bcurrent := bcurrent b + numeral n\<rparr>) = drop (numeral n) (inp b)"
    and "written (b\<lparr>bcurrent := bcurrent b + numeral n\<rparr>) = written b @ take (numeral n) (inp b)"
  using wf_buf_skip [OF assms] room_skip [OF assms] inp_skip [OF assms] written_skip [OF assms]
  by simp_all

lemma skip_one [wire_simps]:
  assumes "wf_buf b" "1 \<le> room b"
  shows "wf_buf (b\<lparr>bcurrent := bcurrent b + 1\<rparr>)"
    and "room (b\<lparr>bcurrent := bcurrent b + 1\<rparr>) = room b - 1"
    and "inp (b\<lparr>bcurrent := bcurrent b + 1\<rparr>) = drop 1 (inp b)"
    and "written (b\<lparr>bcurrent := bcurrent b + 1\<rparr>) = written b @ take 1 (inp b)"
  using wf_buf_skip [OF assms] room_skip [OF assms] inp_skip [OF assms] written_skip [OF assms]
  by simp_all

section \<open>What reads and writes do on a well-formed buffer\<close>

lemma inp_load:
  "wf_buf b \<Longrightarrow> n \<le> room b \<Longrightarrow> mem_load (bdata b) (unat (bcurrent b)) n = Some (take n (inp b))"
  by (erule wf_bufE) (simp add: mem_load_def inp_def room_def take_drop min_absorb1)

lemma read_macro_wf:
  "wf_buf b \<Longrightarrow> read_macro n to b v =
     Some (if n \<le> room b then (int n, to (take n (inp b)), skip n b) else (0, v, failed b))"
  by (simp add: read_macro_def wf_buf_check get_bytes_def inp_load)

lemma read_bytes_copy_wf:
  "wf_buf b \<Longrightarrow> unat n < 2 ^ 31 \<Longrightarrow> unat n \<le> length dst \<Longrightarrow> read_bytes_copy b dst n =
     Some (if unat n \<le> room b
           then (uint n, take (unat n) (inp b) @ drop (unat n) dst, skip (unat n) b)
           else (0, dst, failed b))"
  by (simp add: read_bytes_copy_def wf_buf_check_size inp_load mem_store_def length_inp c_int_uint)

lemma read_bytes_wf:
  "wf_buf b \<Longrightarrow> unat n < 2 ^ 31 \<Longrightarrow> read_bytes b p n =
     (if unat n \<le> room b then (uint n, bcurrent b, skip (unat n) b) else (0, p, failed b))"
  by (simp add: read_bytes_def wf_buf_check_size c_int_uint)

lemma put_bytes_wf:
  assumes wf: "wf_buf b" and fits: "length bs \<le> room b"
  shows "\<exists>b'. put_bytes bs b = Some b' \<and> wf_buf b' \<and> written b' = written b @ bs
      \<and> room b' = room b - length bs \<and> berror b' = berror b \<and> bend b' = bend b
      \<and> length (bdata b') = length (bdata b)
      \<and> bcurrent b' = bcurrent b + of_nat (length bs)"
proof -
  let ?k = "unat (bcurrent b)"
  from wf_buf_cursor [OF wf] fits have len: "?k + length bs \<le> length (bdata b)" by simp
  let ?m = "take ?k (bdata b) @ bs @ drop (?k + length bs) (bdata b)"
  have put: "put_bytes bs b = Some (b\<lparr>bdata := ?m, bcurrent := bcurrent b + of_nat (length bs)\<rparr>)"
    using len by (simp add: put_bytes_def mem_store_def)
  show ?thesis
    unfolding put using wf_buf_skip [OF wf fits] room_skip [OF wf fits] unat_skip [OF wf fits] len
    by (simp add: wf_buf_def room_def written_def)
qed

lemma buf_advance_wf:
  "wf_buf b \<Longrightarrow> unat n < 2 ^ 31 \<Longrightarrow> buf_advance b n =
     (if unat n \<le> room b then (uint n, skip (unat n) b) else (- 1, failed b))"
  by (simp add: buf_advance_def wf_buf_check_size c_int_uint)

lemma buf_take_wf:
  assumes wf: "wf_buf b" and n: "unat n < 2 ^ 31"
  shows "buf_take b n =
     (if unat n \<le> room b then (uint n, b\<lparr>bend := bend b - uint n\<rparr>) else (- 1, failed b))"
proof -
  from wf obtain e where e: "bend b = int e" "room b \<le> e" "e < 2 ^ 31"
    by (elim wf_bufE) (simp add: room_def)
  obtain k where k: "n = of_nat k" "k < 2 ^ 31" "unat n = k" "uint n = int k"
  proof
    show "n = of_nat (unat n)" by simp
    show "uint n = int (unat n)" by simp
  qed (use n in simp_all)
  have "c_int (uint (word_of_int (int e) - n)) = int e - int k" if "k \<le> e"
  proof -
    have "word_of_int (int e) - n = (of_nat (e - k) :: size_t)"
      using that k by (simp add: of_nat_diff)
    moreover have "uint (of_nat (e - k) :: size_t) = int (e - k)"
      using e by (intro uint_size_of_nat) auto
    moreover have "c_int (int (e - k)) = int (e - k)" using e by (intro c_int_id) auto
    ultimately show ?thesis using that by simp
  qed
  moreover have "c_int (uint n) = int k" using k by (simp add: c_int_id)
  moreover have "buf_rest b < int k \<longleftrightarrow> room b < k" using wf by (rule wf_buf_check)
  ultimately show ?thesis using e(1,2) k(3,4) by (auto simp: buf_take_def)
qed

text \<open>Taking bytes from the end shortens the input and nothing else.\<close>

lemma wf_buf_take:
  "wf_buf b \<Longrightarrow> n \<le> room b \<Longrightarrow> wf_buf (b\<lparr>bend := bend b - int n\<rparr>)
     \<and> inp (b\<lparr>bend := bend b - int n\<rparr>) = take (room b - n) (inp b)
     \<and> written (b\<lparr>bend := bend b - int n\<rparr>) = written b"
proof (erule wf_bufE)
  fix k e
  assume k: "n \<le> room b" "bcurrent b = of_nat k" "unat (bcurrent b) = k" "bend b = int e"
    "k \<le> e" "e \<le> length (bdata b)" "e < 2 ^ 31"
  then have n: "n \<le> e - k" by (simp add: room_def)
  have d: "nat (int e - int n) = e - n" "0 \<le> int e - int n" "int e - int n < 2 ^ 31"
    using n k(7) by simp_all
  have len: "min e (e - n) = e - n" "e - k - n = e - n - k" by simp_all
  have le: "n \<le> e" "k \<le> e - n" "e - n \<le> length (bdata b)" using k n by linarith+
  show ?thesis
    unfolding wf_buf_def inp_def written_def room_def using k n
    by (simp add: d len le take_drop del: int_ops)
qed

lemma write_macro_wf:
  assumes wf: "wf_buf b"
  shows "if length bs \<le> room b
    then \<exists>b'. write_macro b bs = Some (int (length bs), b') \<and> wf_buf b'
      \<and> written b' = written b @ bs \<and> room b' = room b - length bs \<and> berror b' = berror b
    else write_macro b bs = Some (0, failed b)"
  using put_bytes_wf [OF wf, of bs] by (auto simp: write_macro_def wf_buf_check [OF wf])

text \<open>A buffer made for writing, and one that hands a frame to the parsers.\<close>

lemma buf_new_owned_wf:
  "unat n < 2 ^ 31 \<Longrightarrow> wf_buf (buf_new_owned junk n) \<and> written (buf_new_owned junk n) = []
     \<and> room (buf_new_owned junk n) = unat n \<and> berror (buf_new_owned junk n) = 0"
  by (simp add: buf_new_owned_def wf_buf_def written_def room_def c_int_uint)
    (use uint_less_int [of n "2 ^ 31"] in simp)

lemma buf_new_const_wf:
  "unat n < 2 ^ 31 \<Longrightarrow> unat n \<le> length src \<Longrightarrow> wf_buf (buf_new_const src n)
     \<and> inp (buf_new_const src n) = take (unat n) src \<and> berror (buf_new_const src n) = 0"
  by (simp add: buf_new_const_def wf_buf_def inp_def c_int_uint)
    (use uint_less_int [of n "2 ^ 31"] in simp)

section \<open>The contracts of readers and writers\<close>

text \<open>Reading fields of given widths one after the other, whatever the reads return.\<close>

fun get_seq :: "(nat \<Rightarrow> 'b \<Rightarrow> (int \<times> u8 list \<times> 'b) option) \<Rightarrow> nat list \<Rightarrow> 'b
    \<Rightarrow> (u8 list list \<times> 'b) option" where
  "get_seq get [] b = Some ([], b)"
| "get_seq get (n # ns) b =
     (case get n b of None \<Rightarrow> None
      | Some (r, v, b') \<Rightarrow> map_option (\<lambda>(vs, b''). (v # vs, b'')) (get_seq get ns b'))"

locale byte_source =
  fixes ok :: "'b \<Rightarrow> bool"
    and clean :: "'b \<Rightarrow> bool"
    and input :: "'b \<Rightarrow> u8 list"
    and get :: "nat \<Rightarrow> 'b \<Rightarrow> (int \<times> u8 list \<times> 'b) option"
  assumes get_law: "ok b \<Longrightarrow> n \<le> length (input b) \<Longrightarrow>
      \<exists>b'. get n b = Some (int n, take n (input b), b') \<and> ok b' \<and> input b' = drop n (input b)
        \<and> clean b' = clean b"
    and get_short: "ok b \<Longrightarrow> length (input b) < n \<Longrightarrow>
      \<exists>v b'. get n b = Some (0, v, b') \<and> ok b' \<and> input b' = input b \<and> \<not> clean b'"
begin

lemma get_seq_fields:
  "ok b \<Longrightarrow> input b = concat fs @ rest \<Longrightarrow>
     \<exists>b'. get_seq get (map length fs) b = Some (fs, b') \<and> ok b' \<and> input b' = rest
       \<and> clean b' = clean b"
proof (induction fs arbitrary: b)
  case Nil
  then show ?case by simp
next
  case (Cons f fs)
  then obtain b1 where "get (length f) b = Some (int (length f), f, b1)" "ok b1"
    "input b1 = concat fs @ rest" "clean b1 = clean b"
    using get_law [of b "length f"] by auto
  with Cons.IH [of b1] show ?case by auto
qed

text \<open>
  The error flag is sticky and exact: after any sequence of reads it tells whether all of
  them fitted, so a parser may test it once, at its end.
\<close>

lemma get_seq_clean:
  "ok b \<Longrightarrow> \<exists>vs b'. get_seq get ns b = Some (vs, b') \<and> ok b'
     \<and> (clean b' \<longleftrightarrow> clean b \<and> sum_list ns \<le> length (input b))"
proof (induction ns arbitrary: b)
  case Nil
  then show ?case by simp
next
  case (Cons n ns)
  show ?case
  proof (cases "n \<le> length (input b)")
    case True
    with get_law [OF Cons.prems] obtain b1 where "get n b = Some (int n, take n (input b), b1)"
      "ok b1" "input b1 = drop n (input b)" "clean b1 = clean b" by blast
    with Cons.IH [of b1] True show ?thesis by fastforce
  next
    case False
    with get_short [OF Cons.prems, of n] obtain v b1 where "get n b = Some (0, v, b1)"
      "ok b1" "\<not> clean b1" by auto
    with Cons.IH [of b1] False show ?thesis by fastforce
  qed
qed

end

interpretation wire_in: byte_source wf_buf "\<lambda>b. berror b = 0" inp "\<lambda>n b. read_macro n (\<lambda>bs. bs) b []"
proof
  fix b n
  assume wf: "wf_buf b" and n: "n \<le> length (inp b)"
  then have "n \<le> room b" by (simp add: length_inp)
  with wf show "\<exists>b'. read_macro n (\<lambda>bs. bs) b [] = Some (int n, take n (inp b), b') \<and> wf_buf b'
      \<and> inp b' = drop n (inp b) \<and> (berror b' = 0) = (berror b = 0)"
    by (simp add: read_macro_wf wf_buf_skip inp_skip)
next
  fix b n
  assume wf: "wf_buf b" and "length (inp b) < n"
  then show "\<exists>v b'. read_macro n (\<lambda>bs. bs) b [] = Some (0, v, b') \<and> wf_buf b' \<and> inp b' = inp b
      \<and> berror b' \<noteq> 0"
    by (simp add: read_macro_wf length_inp)
qed

fun put_list :: "('b \<Rightarrow> u8 list \<Rightarrow> (int \<times> 'b) option) \<Rightarrow> 'b \<Rightarrow> u8 list list \<Rightarrow> 'b option" where
  "put_list put b [] = Some b"
| "put_list put b (x # xs) =
     (case put b x of None \<Rightarrow> None | Some (r, b') \<Rightarrow> put_list put b' xs)"

locale byte_sink =
  fixes ok :: "'b \<Rightarrow> bool"
    and clean :: "'b \<Rightarrow> bool"
    and outp :: "'b \<Rightarrow> u8 list"
    and space :: "'b \<Rightarrow> nat"
    and put :: "'b \<Rightarrow> u8 list \<Rightarrow> (int \<times> 'b) option"
  assumes put_law: "ok b \<Longrightarrow> length bs \<le> space b \<Longrightarrow>
      \<exists>b'. put b bs = Some (int (length bs), b') \<and> ok b' \<and> outp b' = outp b @ bs
        \<and> space b' = space b - length bs \<and> clean b' = clean b"
    and put_short: "ok b \<Longrightarrow> space b < length bs \<Longrightarrow>
      \<exists>r b'. put b bs = Some (r, b') \<and> ok b' \<and> outp b' = outp b \<and> space b' = space b
        \<and> \<not> clean b'"
begin

lemma put_list_fits:
  "ok b \<Longrightarrow> length (concat xs) \<le> space b \<Longrightarrow>
     \<exists>b'. put_list put b xs = Some b' \<and> ok b' \<and> outp b' = outp b @ concat xs
       \<and> space b' = space b - length (concat xs) \<and> clean b' = clean b"
proof (induction xs arbitrary: b)
  case Nil
  then show ?case by simp
next
  case (Cons x xs)
  then obtain b1 where "put b x = Some (int (length x), b1)" "ok b1" "outp b1 = outp b @ x"
    "space b1 = space b - length x" "clean b1 = clean b"
    using put_law [of b x] by auto
  with Cons.IH [of b1] Cons.prems(2) show ?case by auto
qed

text \<open>What was written only grows, and a flag raised stays up.\<close>

lemma put_list_grows:
  "ok b \<Longrightarrow> \<exists>ys b'. put_list put b xs = Some b' \<and> ok b' \<and> outp b' = outp b @ ys
     \<and> length ys + space b' = space b \<and> (clean b' \<longrightarrow> clean b \<and> ys = concat xs)"
proof (induction xs arbitrary: b)
  case Nil
  then show ?case by simp
next
  case (Cons x xs)
  show ?case
  proof (cases "length x \<le> space b")
    case True
    with put_law [OF Cons.prems] obtain b1 where b1: "put b x = Some (int (length x), b1)" "ok b1"
      "outp b1 = outp b @ x" "space b1 = space b - length x" "clean b1 = clean b" by blast
    from Cons.IH [OF b1(2)] obtain ys b2 where "put_list put b1 xs = Some b2" "ok b2"
      "outp b2 = outp b1 @ ys" "length ys + space b2 = space b1"
      "clean b2 \<longrightarrow> clean b1 \<and> ys = concat xs" by blast
    with b1 True show ?thesis by (intro exI [of _ "x @ ys"]) auto
  next
    case False
    with put_short [OF Cons.prems, of x] obtain r b1 where b1: "put b x = Some (r, b1)" "ok b1"
      "outp b1 = outp b" "space b1 = space b" "\<not> clean b1" by auto
    from Cons.IH [OF b1(2)] b1 show ?thesis by auto
  qed
qed

end

interpretation wire_out: byte_sink wf_buf "\<lambda>b. berror b = 0" written room write_macro
proof
  fix b and bs :: "u8 list"
  assume wf: "wf_buf b" and fits: "length bs \<le> room b"
  from write_macro_wf [OF wf, of bs] fits
  show "\<exists>b'. write_macro b bs = Some (int (length bs), b') \<and> wf_buf b'
      \<and> written b' = written b @ bs \<and> room b' = room b - length bs
      \<and> (berror b' = 0) = (berror b = 0)"
    by auto
next
  fix b and bs :: "u8 list"
  assume wf: "wf_buf b" and "room b < length bs"
  with write_macro_wf [OF wf, of bs]
  show "\<exists>r b'. write_macro b bs = Some (r, b') \<and> wf_buf b' \<and> written b' = written b
      \<and> room b' = room b \<and> berror b' \<noteq> 0"
    by auto
qed

section \<open>Fields of every width\<close>

datatype wire_field = U8 u8 | LE16 u16 | BE16 u16 | LE32 u32 | BE32 u32 | LE64 u64 | BE64 u64

fun field_bytes :: "wire_field \<Rightarrow> u8 list" where
  "field_bytes (U8 v) = [v]"
| "field_bytes (LE16 v) = le_bytes 2 v"
| "field_bytes (BE16 v) = be_bytes 2 v"
| "field_bytes (LE32 v) = le_bytes 4 v"
| "field_bytes (BE32 v) = be_bytes 4 v"
| "field_bytes (LE64 v) = le_bytes 8 v"
| "field_bytes (BE64 v) = be_bytes 8 v"

fun write_field :: "buf \<Rightarrow> wire_field \<Rightarrow> (int \<times> buf) option" where
  "write_field b (U8 v) = write_u8 b v"
| "write_field b (LE16 v) = write_le16 b v"
| "write_field b (BE16 v) = write_be16 b v"
| "write_field b (LE32 v) = write_le32 b v"
| "write_field b (BE32 v) = write_be32 b v"
| "write_field b (LE64 v) = write_le64 b v"
| "write_field b (BE64 v) = write_be64 b v"

text \<open>Reading the field a variable of the same type holds.\<close>

fun read_field :: "buf \<Rightarrow> wire_field \<Rightarrow> (int \<times> wire_field \<times> buf) option" where
  "read_field b (U8 v) = map_option (\<lambda>(r, v, b). (r, U8 v, b)) (read_u8 b v)"
| "read_field b (LE16 v) = map_option (\<lambda>(r, v, b). (r, LE16 v, b)) (read_le16 b v)"
| "read_field b (BE16 v) = map_option (\<lambda>(r, v, b). (r, BE16 v, b)) (read_be16 b v)"
| "read_field b (LE32 v) = map_option (\<lambda>(r, v, b). (r, LE32 v, b)) (read_le32 b v)"
| "read_field b (BE32 v) = map_option (\<lambda>(r, v, b). (r, BE32 v, b)) (read_be32 b v)"
| "read_field b (LE64 v) = map_option (\<lambda>(r, v, b). (r, LE64 v, b)) (read_le64 b v)"
| "read_field b (BE64 v) = map_option (\<lambda>(r, v, b). (r, BE64 v, b)) (read_be64 b v)"

fun same_width :: "wire_field \<Rightarrow> wire_field \<Rightarrow> bool" where
  "same_width (U8 _) f = (case f of U8 _ \<Rightarrow> True | _ \<Rightarrow> False)"
| "same_width (LE16 _) f = (case f of LE16 _ \<Rightarrow> True | _ \<Rightarrow> False)"
| "same_width (BE16 _) f = (case f of BE16 _ \<Rightarrow> True | _ \<Rightarrow> False)"
| "same_width (LE32 _) f = (case f of LE32 _ \<Rightarrow> True | _ \<Rightarrow> False)"
| "same_width (BE32 _) f = (case f of BE32 _ \<Rightarrow> True | _ \<Rightarrow> False)"
| "same_width (LE64 _) f = (case f of LE64 _ \<Rightarrow> True | _ \<Rightarrow> False)"
| "same_width (BE64 _) f = (case f of BE64 _ \<Rightarrow> True | _ \<Rightarrow> False)"

fun write_fields :: "buf \<Rightarrow> wire_field list \<Rightarrow> buf option" where
  "write_fields b [] = Some b"
| "write_fields b (f # fs) =
     (case write_field b f of None \<Rightarrow> None | Some (r, b') \<Rightarrow> write_fields b' fs)"

fun read_fields :: "buf \<Rightarrow> wire_field list \<Rightarrow> (wire_field list \<times> buf) option" where
  "read_fields b [] = Some ([], b)"
| "read_fields b (f # fs) =
     (case read_field b f of None \<Rightarrow> None
      | Some (r, f', b') \<Rightarrow> map_option (\<lambda>(gs, b''). (f' # gs, b'')) (read_fields b' fs))"

lemmas write_defs = write_u8_def write_le16_def write_be16_def write_le32_def write_be32_def
  write_le64_def write_be64_def

lemmas read_defs = read_u8_def read_le16_def read_be16_def read_le32_def read_be32_def
  read_le64_def read_be64_def

lemma write_field_macro: "write_field b f = write_macro b (field_bytes f)"
  by (cases f) (simp_all add: write_defs del: le_bytes_numeral)

lemma write_fields_list: "write_fields b fs = put_list write_macro b (map field_bytes fs)"
  by (induction fs arbitrary: b) (auto simp: write_field_macro split: option.splits)

lemma same_width_refl: "same_width f f"
  by (cases f) simp_all

lemma read_field_bytes:
  assumes "wf_buf b" "same_width f g" "inp b = field_bytes f @ rest"
  shows "\<exists>b'. read_field b g = Some (int (length (field_bytes f)), f, b') \<and> wf_buf b'
    \<and> inp b' = rest \<and> berror b' = berror b"
proof -
  have room: "length (field_bytes f) \<le> room b"
    using length_inp [OF assms(1)] assms(3) by simp
  show ?thesis
    using wf_buf_skip [OF assms(1) room] inp_skip [OF assms(1) room] room assms
    by (cases f; cases g)
      (simp_all add: read_defs read_macro_wf byte_simps del: le_bytes_numeral)
qed

lemma read_fields_bytes:
  "wf_buf b \<Longrightarrow> list_all2 same_width fs gs \<Longrightarrow> inp b = concat (map field_bytes fs) @ rest \<Longrightarrow>
     \<exists>b'. read_fields b gs = Some (fs, b') \<and> wf_buf b' \<and> inp b' = rest \<and> berror b' = berror b"
proof (induction fs arbitrary: b gs)
  case Nil
  then show ?case by simp
next
  case (Cons f fs)
  from Cons.prems(2) obtain g gs' where gs: "gs = g # gs'" "same_width f g"
    "list_all2 same_width fs gs'" by (auto simp: list_all2_Cons1)
  with Cons.prems obtain b1 where "read_field b g = Some (int (length (field_bytes f)), f, b1)"
    "wf_buf b1" "inp b1 = concat (map field_bytes fs) @ rest" "berror b1 = berror b"
    using read_field_bytes [of b f g "concat (map field_bytes fs) @ rest"] by auto
  with Cons.IH [of b1 gs'] gs show ?case by auto
qed

section \<open>Every operation\<close>

text \<open>
  The operations of the interface with their arguments, and what they do to the buffer.
  \<open>cursor_step\<close> has those that use the cursor; \<open>Resize\<close> has the memory a larger block ends with.
\<close>

datatype buf_op =
    Write wire_field | Write_ether ether_addr | Write_bytes "u8 list"
  | Read wire_field | Read_ether ether_addr | Read_bytes size_t | Read_copy size_t
  | Advance size_t | Take size_t | Strip size_t | Resize "nat \<Rightarrow> u8" size_t

fun cursor_step :: "buf_op \<Rightarrow> buf \<Rightarrow> buf option" where
  "cursor_step (Write f) b = map_option snd (write_field b f)"
| "cursor_step (Write_ether a) b = map_option snd (write_ether_addr b a)"
| "cursor_step (Write_bytes bs) b = map_option snd (write_bytes b bs (of_nat (length bs)))"
| "cursor_step (Read f) b = map_option (snd \<circ> snd) (read_field b f)"
| "cursor_step (Read_ether a) b = map_option (snd \<circ> snd) (read_ether_addr b a)"
| "cursor_step (Read_bytes n) b = Some (snd (snd (read_bytes b 0 n)))"
| "cursor_step (Read_copy n) b =
     map_option (snd \<circ> snd) (read_bytes_copy b (replicate (unat n) 0) n)"
| "cursor_step (Advance n) b = Some (snd (buf_advance b n))"
| "cursor_step (Take n) b = Some (snd (buf_take b n))"
| "cursor_step (Strip n) b = Some (snd (buf_strip b n))"
| "cursor_step (Resize junk n) b = None"

fun buf_step :: "buf_op \<Rightarrow> resized \<Rightarrow> resized option" where
  "buf_step (Resize junk n) r = Some (buf_resize junk (resized_buf r) n)"
| "buf_step p r = do { b \<leftarrow> usable r; map_option Usable (cursor_step p b) }"

text \<open>The lengths a caller hands over convert to a non-negative \<^verbatim>\<open>int\<close>.\<close>

fun op_ok :: "buf_op \<Rightarrow> bool" where
  "op_ok (Write_bytes bs) \<longleftrightarrow> length bs < 2 ^ 31"
| "op_ok (Read_bytes n) \<longleftrightarrow> unat n < 2 ^ 31"
| "op_ok (Read_copy n) \<longleftrightarrow> unat n < 2 ^ 31"
| "op_ok (Advance n) \<longleftrightarrow> unat n < 2 ^ 31"
| "op_ok (Take n) \<longleftrightarrow> unat n < 2 ^ 31"
| "op_ok _ \<longleftrightarrow> True"

fun buf_run :: "buf_op list \<Rightarrow> resized \<Rightarrow> resized option" where
  "buf_run [] r = Some r"
| "buf_run (p # ps) r = do { r \<leftarrow> buf_step p r; buf_run ps r }"

fun is_resize :: "buf_op \<Rightarrow> bool" where
  "is_resize (Resize _ _) \<longleftrightarrow> True"
| "is_resize _ \<longleftrightarrow> False"

definition used_after_resize :: "buf_op list \<Rightarrow> bool" where
  "used_after_resize ps \<longleftrightarrow> list_ex (Not \<circ> is_resize) (dropWhile (Not \<circ> is_resize) ps)"

lemma write_bytes_wf:
  assumes wf: "wf_buf b" and n: "length bs < 2 ^ 31"
  shows "if length bs \<le> room b
    then \<exists>b'. write_bytes b bs (of_nat (length bs)) = Some (int (length bs), b') \<and> wf_buf b'
      \<and> written b' = written b @ bs \<and> room b' = room b - length bs \<and> berror b' = berror b
      \<and> length (bdata b') = length (bdata b)
    else write_bytes b bs (of_nat (length bs)) = Some (- 1, failed b)"
proof -
  let ?n = "of_nat (length bs) :: size_t"
  have u: "unat ?n = length bs" "uint ?n = int (length bs)"
    using n by (simp_all add: c_simps del: of_nat_numeral)
  have c: "c_int (int (length bs)) = int (length bs)" using n by (intro c_int_id) auto
  show ?thesis
    using put_bytes_wf [OF wf, of bs] u c
    by (auto simp: write_bytes_def wf_buf_check [OF wf] mem_load_def)
qed

lemma write_ether_addr_wf:
  assumes wf: "wf_buf b"
  shows "if 6 \<le> room b
    then \<exists>b'. write_ether_addr b a = Some (6, b') \<and> wf_buf b'
      \<and> written b' = written b @ ether_addr_octet a \<and> room b' = room b - 6
      \<and> berror b' = berror b \<and> length (bdata b') = length (bdata b)
    else write_ether_addr b a = Some (- 1, failed b)"
  using put_bytes_wf [OF wf, of "ether_addr_octet a"] wf_buf_check [OF wf, of 6]
  by (auto simp: write_ether_addr_def)

lemma read_ether_addr_wf:
  "wf_buf b \<Longrightarrow> read_ether_addr b a =
     Some (if 6 \<le> room b then (6, ether_addr_of (take 6 (inp b)), b) else (0, a, failed b))"
  using wf_buf_check [of b 6] by (simp add: read_ether_addr_def inp_load)

lemma read_field_wf:
  "wf_buf b \<Longrightarrow> \<exists>r g b'. read_field b f = Some (r, g, b') \<and> wf_buf b' \<and> same_width f g
     \<and> length (bdata b') = length (bdata b)"
  by (cases f) (simp_all add: read_defs read_macro_wf wire_simps)

lemma cursor_step_wf:
  assumes wf: "wf_buf b" and ok: "op_ok p" and cursor: "\<not> is_resize p"
  shows "\<exists>b'. cursor_step p b = Some b' \<and> wf_buf b' \<and> length (bdata b') = length (bdata b)"
proof (cases p)
  case (Write f)
  show ?thesis
    using put_bytes_wf [OF wf, of "field_bytes f"] Write wf
    by (auto simp: write_field_macro write_macro_def wf_buf_check [OF wf])
next
  case (Write_ether a)
  then show ?thesis using write_ether_addr_wf [OF wf, of a] wf by (auto split: if_splits)
next
  case (Write_bytes bs)
  then show ?thesis using write_bytes_wf [OF wf, of bs] ok wf by (auto split: if_splits)
next
  case (Read f)
  then show ?thesis using read_field_wf [OF wf, of f] by auto
next
  case (Read_ether a)
  then show ?thesis using wf by (simp add: read_ether_addr_wf)
next
  case (Read_bytes n)
  then show ?thesis using ok wf wf_buf_skip [OF wf, of "unat n"] by (simp add: read_bytes_wf)
next
  case (Read_copy n)
  then show ?thesis using ok wf wf_buf_skip [OF wf, of "unat n"] by (simp add: read_bytes_copy_wf)
next
  case (Advance n)
  then show ?thesis using ok wf wf_buf_skip [OF wf, of "unat n"] by (simp add: buf_advance_wf)
next
  case (Take n)
  then show ?thesis using ok wf wf_buf_take [OF wf, of "unat n"] by (simp add: buf_take_wf)
next
  case (Strip n)
  then show ?thesis using wf by (simp add: buf_strip_def wf_buf_def)
qed (use cursor in simp)

lemma put_bytes_owned: "put_bytes bs b = Some b' \<Longrightarrow> bowned b' = bowned b"
  by (auto simp: put_bytes_def split: Option.bind_splits)

lemma get_bytes_owned: "get_bytes n b = Some (bs, b') \<Longrightarrow> bowned b' = bowned b"
  by (auto simp: get_bytes_def split: Option.bind_splits)

lemma write_macro_owned: "write_macro b bs = Some (r, b') \<Longrightarrow> bowned b' = bowned b"
  by (auto simp: write_macro_def dest: put_bytes_owned split: if_splits Option.bind_splits)

lemma read_macro_owned: "read_macro n to b v = Some (r, w, b') \<Longrightarrow> bowned b' = bowned b"
  by (auto simp: read_macro_def dest: get_bytes_owned split: if_splits Option.bind_splits)

lemma cursor_step_owned: "cursor_step p b = Some b' \<Longrightarrow> bowned b' = bowned b"
proof (cases p)
  case (Read f)
  then show "cursor_step p b = Some b' \<Longrightarrow> bowned b' = bowned b"
    by (cases f) (auto simp: read_defs dest: read_macro_owned)
qed (auto simp: write_field_macro write_ether_addr_def write_bytes_def read_ether_addr_def read_bytes_def
    read_bytes_copy_def buf_advance_def buf_take_def buf_strip_def mem_load_def
    dest: put_bytes_owned write_macro_owned split: if_splits Option.bind_splits)

lemma buf_step_cursor: "\<not> is_resize p \<Longrightarrow> buf_step p r = do { b \<leftarrow> usable r; map_option Usable (cursor_step p b) }"
  by (cases p) simp_all

lemma buf_step_resize: "is_resize p \<Longrightarrow> \<exists>junk n. buf_step p r = Some (buf_resize junk (resized_buf r) n)"
  by (cases p) auto

lemma buf_run_dangling:
  "bowned b \<Longrightarrow> buf_run ps (Dangling b) = None \<and> list_ex (Not \<circ> is_resize) ps
     \<or> (\<exists>b'. buf_run ps (Dangling b) = Some (Dangling b')) \<and> \<not> list_ex (Not \<circ> is_resize) ps"
proof (induction ps arbitrary: b)
  case (Cons p ps)
  show ?case
  proof (cases "is_resize p")
    case True
    then obtain junk n where "buf_step p (Dangling b) = Some (buf_resize junk b n)"
      using buf_step_resize [of p "Dangling b"] by auto
    then show ?thesis using Cons True by (simp add: buf_resize_def)
  qed (simp add: buf_step_cursor)
qed simp

lemma buf_run_wf:
  "wf_buf b \<Longrightarrow> list_all op_ok ps \<Longrightarrow>
     (case buf_run ps (Usable b) of
        Some (Usable b') \<Rightarrow> wf_buf b' \<and> length (bdata b') = length (bdata b) \<and> \<not> (bowned b \<and> list_ex is_resize ps)
      | Some (Dangling b') \<Rightarrow> bowned b \<and> list_ex is_resize ps \<and> \<not> used_after_resize ps
      | None \<Rightarrow> bowned b \<and> used_after_resize ps)"
proof (induction ps arbitrary: b)
  case Nil
  then show ?case by simp
next
  case (Cons p ps)
  show ?case
  proof (cases "is_resize p")
    case False
    with Cons.prems obtain b1 where b1: "cursor_step p b = Some b1" "wf_buf b1" "length (bdata b1) = length (bdata b)"
      using cursor_step_wf [of b p] by auto
    with Cons.IH [of b1] Cons.prems(2) cursor_step_owned [OF b1(1)] False show ?thesis
      by (simp add: buf_step_cursor used_after_resize_def split: option.splits resized.splits)
  next
    case True
    then obtain junk n where step: "buf_step p (Usable b) = Some (buf_resize junk b n)"
      using buf_step_resize [of p "Usable b"] by auto
    show ?thesis
    proof (cases "bowned b")
      case True
      then have r: "buf_resize junk b n
          = Dangling (b\<lparr>bdata := take (unat n) (bdata b) @ map junk [length (bdata b)..<unat n], bsize := n\<rparr>)"
        by (simp add: buf_resize_def)
      show ?thesis
        using buf_run_dangling [of "b\<lparr>bdata := take (unat n) (bdata b) @ map junk [length (bdata b)..<unat n], bsize := n\<rparr>" ps]
          True \<open>is_resize p\<close> by (auto simp: step r used_after_resize_def)
    next
      case False
      with Cons.IH [of "b\<lparr>bsize := n\<rparr>"] Cons.prems show ?thesis
        by (auto simp: step buf_resize_def wf_buf_def split: option.splits resized.splits)
    qed
  qed
qed

text \<open>Where the cursor and the flag end up does not depend on what is done with the bytes.\<close>

lemma read_macro_buf:
  "map_option (snd \<circ> snd) (read_macro n to b v) = map_option (snd \<circ> snd) (read_macro n (\<lambda>bs. bs) b [])"
  by (simp add: read_macro_def get_bytes_def mem_load_def)

lemma read_field_buf:
  "map_option (snd \<circ> snd) (read_field b f)
   = map_option (snd \<circ> snd) (read_macro (length (field_bytes f)) (\<lambda>bs. bs) b [])"
  by (cases f; simp add: read_defs option.map_comp comp_def case_prod_beta del: le_bytes_numeral;
      rule read_macro_buf [unfolded comp_def])

lemma read_fields_buf:
  "map_option snd (read_fields b fs)
   = map_option snd (get_seq (\<lambda>n b. read_macro n (\<lambda>bs. bs) b []) (map (length \<circ> field_bytes) fs) b)"
proof (induction fs arbitrary: b)
  case Nil
  then show ?case by simp
next
  case (Cons f fs)
  from read_field_buf [of b f] Cons show ?case
    by (cases "read_field b f"; cases "read_macro (length (field_bytes f)) (\<lambda>bs. bs) b []")
      (auto simp: option.map_comp comp_def case_prod_beta)
qed

lemma buf_position_written: "wf_buf b \<Longrightarrow> unat (buf_position b) = length (written b)"
  by (simp add: wf_buf_position written_def) (erule wf_bufE, simp)

section \<open>Properties\<close>

text \<open>
  C22: When a sequence of operations on a buffer is defined. Take a buffer whose cursor lies
  within its end and whose end lies within its memory, and any sequence of reads, writes,
  advances, takes, strips and resizes whose lengths convert to a non-negative \<^verbatim>\<open>int\<close>. The
  sequence is undefined in exactly one case: the buffer owns its memory and something other
  than a further resize follows its first resize, because \<^verbatim>\<open>buf_resize\<close> leaves the cursor in
  the block it has given back. Otherwise every access stays inside the memory; and without a
  resize of an owned buffer the cursor ends within the end, and the end within a memory of the
  same length.
\<close>

theorem buf_ops_stay_inside:
  "wf_buf b \<Longrightarrow> list_all op_ok ps \<Longrightarrow>
     (case buf_run ps (Usable b) of
        Some (Usable b') \<Rightarrow> wf_buf b' \<and> length (bdata b') = length (bdata b) \<and> \<not> (bowned b \<and> list_ex is_resize ps)
      | Some (Dangling b') \<Rightarrow> bowned b \<and> list_ex is_resize ps \<and> \<not> used_after_resize ps
      | None \<Rightarrow> bowned b \<and> used_after_resize ps)"
  by (rule buf_run_wf)

text \<open>A borrowed buffer that is read and resized, and an owned one that is read after a resize.\<close>

theorem buf_ops_stay_inside_witness:
  "(\<exists>b'. buf_run [Read (LE16 0), Strip 1, Resize (\<lambda>_. 0) 9, Take 1, Read (BE32 0)] (Usable (buf_new_const [1, 2, 3, 4] 4))
       = Some (Usable b') \<and> wf_buf b' \<and> length (bdata b') = 4)
   \<and> buf_run [Resize (\<lambda>_. 0) 4, Read (U8 0)] (Usable (buf_new_owned (\<lambda>_. 0) 16)) = None"
proof
  let ?c = "buf_new_const [1, 2, 3, 4] 4" and ?o = "buf_new_owned (\<lambda>_. 0) 16"
  have "wf_buf ?c" using buf_new_const_wf [of 4 "[1, 2, 3, 4]"] by simp
  moreover have "length (bdata ?c) = 4" "\<not> bowned ?c" by (simp_all add: buf_new_const_def)
  ultimately show "\<exists>b'. buf_run [Read (LE16 0), Strip 1, Resize (\<lambda>_. 0) 9, Take 1, Read (BE32 0)] (Usable ?c)
      = Some (Usable b') \<and> wf_buf b' \<and> length (bdata b') = 4"
    using buf_ops_stay_inside [of ?c "[Read (LE16 0), Strip 1, Resize (\<lambda>_. 0) 9, Take 1, Read (BE32 0)]"]
    by (simp split: option.splits resized.splits)
  have "wf_buf ?o" using buf_new_owned_wf [of 16 "\<lambda>_. 0"] by simp
  moreover have "bowned ?o" "used_after_resize [Resize (\<lambda>_. 0) 4, Read (U8 0)]"
    by (simp_all add: buf_new_owned_def used_after_resize_def)
  ultimately show "buf_run [Resize (\<lambda>_. 0) 4, Read (U8 0)] (Usable ?o) = None"
    using buf_ops_stay_inside [of ?o "[Resize (\<lambda>_. 0) 4, Read (U8 0)]"]
    by (simp split: option.splits resized.splits)
qed

text \<open>
  C23: Fields of any widths and byte orders, written into a fresh buffer that is large enough
  and read back in the same order, yield the values that were written, without an error, and
  nothing is left over.
\<close>

theorem wire_roundtrip:
  assumes "length (concat (map field_bytes fs)) \<le> unat n" "unat n < 2 ^ 31"
    and "list_all2 same_width fs gs"
  shows "\<exists>b b'. write_fields (buf_new_owned junk n) fs = Some b \<and> berror b = 0
    \<and> read_fields (buf_new_const (bdata b) (buf_position b)) gs = Some (fs, b')
    \<and> berror b' = 0 \<and> inp b' = []"
proof -
  note new = buf_new_owned_wf [OF assms(2), of junk]
  obtain b where b: "write_fields (buf_new_owned junk n) fs = Some b" "wf_buf b"
    "written b = concat (map field_bytes fs)" "berror b = 0"
    using wire_out.put_list_fits [of "buf_new_owned junk n" "map field_bytes fs"] new assms(1)
    by (auto simp: write_fields_list)
  from b(2) have pos: "unat (buf_position b) < 2 ^ 31" "unat (buf_position b) \<le> length (bdata b)"
    and tk: "take (unat (buf_position b)) (bdata b) = written b"
    by (auto elim!: wf_bufE simp: wf_buf_position written_def)
  note src = buf_new_const_wf [OF pos]
  then obtain b' where "read_fields (buf_new_const (bdata b) (buf_position b)) gs = Some (fs, b')"
    "inp b' = []" "berror b' = 0"
    using read_fields_bytes [of _ fs gs "[]"] assms(3) b(3) tk by fastforce
  with b show ?thesis by blast
qed

theorem wire_roundtrip_witness:
  "\<exists>b b'. write_fields (buf_new_owned (\<lambda>_. 0xAA) 16) [U8 1, LE16 0x1234, BE32 5] = Some b
    \<and> berror b = 0
    \<and> read_fields (buf_new_const (bdata b) (buf_position b)) [U8 0, LE16 0, BE32 0]
        = Some ([U8 1, LE16 0x1234, BE32 5], b')
    \<and> berror b' = 0 \<and> inp b' = []"
  by (rule wire_roundtrip) (simp_all add: be_bytes_def)

text \<open>
  C28: The error flag is sticky and exact. After reading any fields it is clear if and only if
  it was clear before and all the fields together fitted into the rest of the buffer, so the
  parsers may test it once, after the last field.
\<close>

theorem wire_error_exact:
  "wf_buf b \<Longrightarrow> \<exists>gs b'. read_fields b fs = Some (gs, b')
     \<and> (buf_error b' = 0 \<longleftrightarrow> buf_error b = 0 \<and> length (concat (map field_bytes fs)) \<le> length (inp b))"
proof -
  assume "wf_buf b"
  from wire_in.get_seq_clean [OF this, of "map (length \<circ> field_bytes) fs"] read_fields_buf [of b fs]
  show ?thesis by (cases "read_fields b fs") (auto simp: buf_error_def length_concat)
qed

theorem wire_error_exact_witness:
  "\<exists>gs b'. read_fields (buf_new_const [1, 2, 3] 3) [LE16 0, LE16 0, U8 0] = Some (gs, b')
     \<and> buf_error b' \<noteq> 0"
proof -
  have new: "wf_buf (buf_new_const [1, 2, 3] 3)" "inp (buf_new_const [1, 2, 3] 3) = [1, 2, 3]"
    using buf_new_const_wf [of 3 "[1, 2, 3]"] by simp_all
  from wire_error_exact [OF new(1), of "[LE16 0, LE16 0, U8 0]"] new(2) show ?thesis by auto
qed

text \<open>
  A length that converts to a negative \<^verbatim>\<open>int\<close> passes the bounds check of
  \<^verbatim>\<open>read_bytes\<close>: it reports no error and moves the cursor backwards.
\<close>

lemma read_bytes_backwards:
  assumes "wf_buf b" "0 < k" "k \<le> unat (bcurrent b)"
  shows "\<exists>b'. read_bytes b p (- of_nat k) = (- int k, bcurrent b, b') \<and> berror b' = berror b
    \<and> unat (bcurrent b') = unat (bcurrent b) - k"
proof -
  from assms have k: "k < 2 ^ 31" by (auto elim!: wf_bufE)
  have "uint (- of_nat k :: size_t) = 2 ^ 64 - int k"
    using assms(2) k by (simp add: uint_word_ariths uint_size_of_nat zmod_zminus1_eq_if)
  moreover have "c_int (2 ^ 64 - int k) = - int k"
  proof -
    have "c_int (2 ^ 64 - int k) = c_int (- int k)"
      using c_int_mod [of "2 ^ 32" "- int k"] by simp
    then show ?thesis using k by (simp add: c_int_id)
  qed
  moreover have "unat (bcurrent b - of_nat k) = unat (bcurrent b) - k"
    using assms(3) k by (simp add: unat_sub_if_size unat_size_of_nat word_size)
  ultimately show ?thesis
    using assms(1) by (simp add: read_bytes_def wf_buf_rest)
qed

end
