(* ===== verification/Nan_Utils.thy ===== *)
theory Nan_Utils
  imports Nan_Wire
begin

text \<open>
  The helpers of \<^verbatim>\<open>src/src/utils.c\<close>: comparison and conversion of addresses, their
  printed form, the monotonic clock, random numbers by rejection, and identifiers that skip 0.
  The C library's \<^verbatim>\<open>rand\<close> is a stream of draws with a position; what a draw can be is the
  hypothesis \<open>rng_ok\<close>.
\<close>

section \<open>Time units\<close>

definition USEC_TO_TU :: "u64 \<Rightarrow> u64" where
  "USEC_TO_TU usec = usec div 1024"

definition TU_TO_USEC :: "u64 \<Rightarrow> u64" where
  "TU_TO_USEC tu = tu * 1024"

definition SEC_TO_USEC :: "u64 \<Rightarrow> u64" where
  "SEC_TO_USEC sec = sec * 1000000"

text \<open>\<open>ts\<close> is what \<^verbatim>\<open>clock_gettime\<close> stores, or \<^const>\<open>None\<close> when it fails.\<close>

definition clock_time_usec :: "(int \<times> int) option \<Rightarrow> u64" where
  "clock_time_usec ts =
     (case ts of None \<Rightarrow> 0
      | Some (tv_sec, tv_nsec) \<Rightarrow>
          word_of_int (tv_sec * 1000000) + word_of_int (tv_nsec sdiv 1000))"

section \<open>Addresses\<close>

datatype oui = Oui u8 u8 u8

primrec oui_byte :: "oui \<Rightarrow> u8 list" where
  "oui_byte (Oui a b c) = [a, b, c]"

fun oui_of :: "u8 list \<Rightarrow> oui" where
  "oui_of [a, b, c] = Oui a b c"
| "oui_of _ = Oui 0 0 0"

abbreviation (input) OUI_LEN :: nat where "OUI_LEN \<equiv> 3"

lemma length_oui_byte [simp]: "length (oui_byte u) = 3"
  by (cases u) simp

lemma oui_of_byte [simp]: "oui_of (oui_byte u) = u"
  by (cases u) simp

text \<open>The loops over octets stop at the first difference.\<close>

fun octets_equal :: "u8 list \<Rightarrow> u8 list \<Rightarrow> bool" where
  "octets_equal (a # as) (b # bs) = (if a \<noteq> b then False else octets_equal as bs)"
| "octets_equal _ _ = True"

fun octets_compare :: "u8 list \<Rightarrow> u8 list \<Rightarrow> int" where
  "octets_compare (a # as) (b # bs) = (if a \<noteq> b then uint a - uint b else octets_compare as bs)"
| "octets_compare _ _ = 0"

definition ether_addr_equal :: "ether_addr \<Rightarrow> ether_addr \<Rightarrow> bool" where
  "ether_addr_equal a b = octets_equal (ether_addr_octet a) (ether_addr_octet b)"

definition compare_ether_addr :: "ether_addr \<Rightarrow> ether_addr \<Rightarrow> int" where
  "compare_ether_addr a b = octets_compare (ether_addr_octet a) (ether_addr_octet b)"

definition oui_equal :: "oui \<Rightarrow> oui \<Rightarrow> bool" where
  "oui_equal a b = octets_equal (oui_byte a) (oui_byte b)"

lemma octets_equal_iff: "length as = length bs \<Longrightarrow> octets_equal as bs \<longleftrightarrow> as = bs"
  by (induction as bs rule: list_induct2) auto

lemma ether_addr_equal_iff [simp]: "ether_addr_equal a b \<longleftrightarrow> a = b"
  unfolding ether_addr_equal_def
  by (metis ether_addr_of_octet length_ether_addr_octet octets_equal_iff)

lemma oui_equal_iff [simp]: "oui_equal a b \<longleftrightarrow> a = b"
  unfolding oui_equal_def by (metis oui_of_byte length_oui_byte octets_equal_iff)

text \<open>The number an address is when read most significant octet first.\<close>

fun octets_value :: "u8 list \<Rightarrow> nat" where
  "octets_value [] = 0"
| "octets_value (a # as) = unat a * 256 ^ length as + octets_value as"

definition ether_addr_value :: "ether_addr \<Rightarrow> nat" where
  "ether_addr_value a = octets_value (ether_addr_octet a)"

lemma octets_value_less: "octets_value as < 256 ^ length as"
proof (induction as)
  case Nil
  then show ?case by simp
next
  case (Cons a as)
  define K :: nat where "K = 256 ^ length as"
  have "unat a \<le> 255" using unat_bound [of a] by simp
  then have "unat a * K \<le> 255 * K" by (rule mult_right_mono) simp
  moreover have "octets_value as < K" using Cons by (simp add: K_def)
  moreover have "octets_value (a # as) = unat a * K + octets_value as"
    "256 ^ length (a # as) = 256 * K" by (simp_all add: K_def)
  ultimately show ?case by linarith
qed

lemma octets_value_Cons_less:
  "unat a < unat b \<Longrightarrow> length as = length bs \<Longrightarrow> octets_value (a # as) < octets_value (b # bs)"
proof -
  assume ab: "unat a < unat b" and len: "length as = length bs"
  have "octets_value (a # as) < Suc (unat a) * 256 ^ length as"
    using octets_value_less [of as] by simp
  also have "\<dots> \<le> unat b * 256 ^ length as" using ab by (intro mult_right_mono) auto
  finally show ?thesis using len by simp
qed

lemma octets_compare_value:
  "length as = length bs \<Longrightarrow>
     (octets_compare as bs < 0 \<longleftrightarrow> octets_value as < octets_value bs)
     \<and> (octets_compare as bs = 0 \<longleftrightarrow> octets_value as = octets_value bs)"
proof (induction as bs rule: list_induct2)
  case Nil
  then show ?case by simp
next
  case (Cons a as b bs)
  have conv: "uint a < uint b \<longleftrightarrow> unat a < unat b" "uint b < uint a \<longleftrightarrow> unat b < unat a"
    "a = b \<longleftrightarrow> unat a = unat b"
    by (simp_all only: word_less_def [symmetric] word_less_nat_alt word_unat_eq_iff)
  show ?case
  proof (cases "unat a" "unat b" rule: linorder_cases)
    case less
    with octets_value_Cons_less [OF less Cons.hyps] conv show ?thesis by (simp del: octets_value.simps)
  next
    case equal
    with conv have "a = b" by blast
    with Cons show ?thesis by simp
  next
    case greater
    have "octets_value (b # bs) < octets_value (a # as)"
      by (rule octets_value_Cons_less [OF greater Cons.hyps [symmetric]])
    moreover have "octets_value (a # as) \<noteq> octets_value (b # bs)"
      and "\<not> octets_value (a # as) < octets_value (b # bs)"
      using calculation by linarith+
    ultimately show ?thesis using greater conv by (simp del: octets_value.simps)
  qed
qed

lemma compare_ether_addr_value:
  "compare_ether_addr a b < 0 \<longleftrightarrow> ether_addr_value a < ether_addr_value b"
  "compare_ether_addr a b = 0 \<longleftrightarrow> ether_addr_value a = ether_addr_value b"
  using octets_compare_value [of "ether_addr_octet a" "ether_addr_octet b"]
  by (simp_all add: compare_ether_addr_def ether_addr_value_def)

lemma octets_compare_eq: "length as = length bs \<Longrightarrow> octets_compare as bs = 0 \<longleftrightarrow> as = bs"
proof (induction as bs rule: list_induct2)
  case Nil
  then show ?case by simp
next
  case (Cons a as b bs)
  have "uint a - uint b = 0 \<longleftrightarrow> a = b" by (simp add: word_uint_eq_iff)
  with Cons show ?case by simp
qed

lemma ether_addr_value_inject: "ether_addr_value a = ether_addr_value b \<longleftrightarrow> a = b"
proof -
  have "compare_ether_addr a b = 0 \<longleftrightarrow> a = b"
    unfolding compare_ether_addr_def
    by (metis ether_addr_of_octet length_ether_addr_octet octets_compare_eq)
  then show ?thesis by (simp add: compare_ether_addr_value)
qed

text \<open>Addresses are ordered the way \<^verbatim>\<open>compare_ether_addr\<close> orders them.\<close>

instantiation ether_addr :: linorder
begin

definition less_ether_addr :: "ether_addr \<Rightarrow> ether_addr \<Rightarrow> bool" where
  "less_ether_addr a b \<longleftrightarrow> compare_ether_addr a b < 0"

definition less_eq_ether_addr :: "ether_addr \<Rightarrow> ether_addr \<Rightarrow> bool" where
  "less_eq_ether_addr a b \<longleftrightarrow> compare_ether_addr a b \<le> 0"

instance
proof
  fix a b c :: ether_addr
  have le: "x \<le> y \<longleftrightarrow> ether_addr_value x \<le> ether_addr_value y" for x y :: ether_addr
    using compare_ether_addr_value [of x y] by (auto simp: less_eq_ether_addr_def le_less)
  have lt: "x < y \<longleftrightarrow> ether_addr_value x < ether_addr_value y" for x y :: ether_addr
    by (simp add: less_ether_addr_def compare_ether_addr_value)
  show "(a < b) = (a \<le> b \<and> \<not> b \<le> a)" by (auto simp: le lt)
  show "a \<le> a" by (simp add: le)
  show "a \<le> b \<Longrightarrow> b \<le> c \<Longrightarrow> a \<le> c" by (simp add: le)
  show "a \<le> b \<Longrightarrow> b \<le> a \<Longrightarrow> a = b" by (simp add: le flip: ether_addr_value_inject)
  show "a \<le> b \<or> b \<le> a" by (simp add: le linear)
qed

end

text \<open>The 16 octets of the link-local address, all cleared first.\<close>

definition ether_addr_to_ipv6_addr :: "ether_addr \<Rightarrow> u8 list" where
  "ether_addr_to_ipv6_addr addr =
     (let os = ether_addr_octet addr;
          v = replicate 16 0;
          v = v[0 := 0xfe]; v = v[1 := 0x80];
          v = v[8 := os ! 0 XOR 0x02]; v = v[9 := os ! 1]; v = v[10 := os ! 2];
          v = v[11 := 0xff]; v = v[12 := 0xfe];
          v = v[13 := os ! 3]; v = v[14 := os ! 4]; v = v[15 := os ! 5]
      in v)"

section \<open>Printed addresses\<close>

definition hex_digit :: "nat \<Rightarrow> char" where
  "hex_digit n = ''0123456789abcdef'' ! n"

text \<open>The conversions \<^verbatim>\<open>%.2x\<close> and \<^verbatim>\<open>%.4x\<close> of an octet and a 16-bit group.\<close>

definition hex2 :: "u8 \<Rightarrow> string" where
  "hex2 b = [hex_digit (unat b div 16), hex_digit (unat b mod 16)]"

definition hex4 :: "u16 \<Rightarrow> string" where
  "hex4 w = hex2 (ucast (drop_bit 8 w)) @ hex2 (ucast w)"

primrec ether_addr_text :: "ether_addr \<Rightarrow> string" where
  "ether_addr_text (Ether_Addr a b c d e f) =
     hex2 a @ '':'' @ hex2 b @ '':'' @ hex2 c @ '':'' @ hex2 d @ '':'' @ hex2 e @ '':'' @ hex2 f"

text \<open>
  The two static buffers, and which one the next call fills. The result is the buffer the
  returned pointer is.
\<close>

datatype addr_buf = Buf1 | Buf2

record addr_bufs =
  ab_current :: u8
  ab_buf1 :: string
  ab_buf2 :: string

definition ether_addr_to_string :: "ether_addr \<Rightarrow> addr_bufs \<Rightarrow> addr_buf \<times> addr_bufs" where
  "ether_addr_to_string addr s =
     (if ab_current s = 0
      then (Buf1, s\<lparr>ab_buf1 := ether_addr_text addr, ab_current := 1\<rparr>)
      else (Buf2, s\<lparr>ab_buf2 := ether_addr_text addr, ab_current := 0\<rparr>))"

primrec addr_buf_text :: "addr_buf \<Rightarrow> addr_bufs \<Rightarrow> string" where
  "addr_buf_text Buf1 s = ab_buf1 s"
| "addr_buf_text Buf2 s = ab_buf2 s"

text \<open>The groups are printed as the host reads them, each with a colon behind it.\<close>

definition ipv6_addr_to_string :: "u8 list \<Rightarrow> string" where
  "ipv6_addr_to_string v =
     concat (map (\<lambda>i. hex4 (of_le_bytes [v ! (2 * i), v ! (2 * i + 1)]) @ '':'') [0, 1, 2, 3, 4, 5, 6, 7])"

section \<open>Random numbers\<close>

abbreviation (input) RAND_MAX :: u32 where "RAND_MAX \<equiv> 2147483647"

record rng =
  rng_draw :: "nat \<Rightarrow> u32"
  rng_pos :: nat

definition rand :: "rng \<Rightarrow> u32 \<times> rng" where
  "rand s = (rng_draw s (rng_pos s), s\<lparr>rng_pos := Suc (rng_pos s)\<rparr>)"

definition rng_ok :: "rng \<Rightarrow> bool" where
  "rng_ok s \<longleftrightarrow> (\<forall>i. rng_draw s i \<le> RAND_MAX)"

partial_function (option) rand_below :: "u32 \<Rightarrow> rng \<Rightarrow> (u32 \<times> rng) option" where
  "rand_below end_of_last_chunk s =
     (if fst (rand s) \<ge> end_of_last_chunk then rand_below end_of_last_chunk (snd (rand s))
      else Some (rand s))"

text \<open>\<^verbatim>\<open>max - min + 1\<close> is computed as \<^verbatim>\<open>int\<close> and stored in 16 bits; 0 is a division by zero.\<close>

definition rand_range :: "u8 \<Rightarrow> u8 \<Rightarrow> u16" where
  "rand_range mn mx = word_of_int (uint mx - uint mn + 1)"

definition get_rand_num :: "u8 \<Rightarrow> u8 \<Rightarrow> rng \<Rightarrow> (u8 \<times> rng) option" where
  "get_rand_num mn mx s =
     (let range = rand_range mn mx in
      if range = 0 then None
      else let chunk_size = RAND_MAX div ucast range;
               end_of_last_chunk = chunk_size * ucast range
           in do { (r, s) \<leftarrow> rand_below end_of_last_chunk s;
                   Some (ucast (ucast mn + r div chunk_size), s) })"

definition increase_non_zero_id :: "u8 \<Rightarrow> u8 \<times> u8" where
  "increase_non_zero_id last_id =
     (let last_id = last_id + 1;
          last_id = (if last_id = 0 then last_id + 1 else last_id)
      in (last_id, last_id))"

section \<open>The random numbers are uniform\<close>

text \<open>\<open>draws e s x\<close>: \<open>x\<close> is a draw at or after the position of \<open>s\<close> that lies below \<open>e\<close>.\<close>

definition draws :: "u32 \<Rightarrow> rng \<Rightarrow> u32 \<times> rng \<Rightarrow> bool" where
  "draws e s x \<longleftrightarrow> (\<exists>k\<ge>rng_pos s. rng_draw s k < e \<and> fst x = rng_draw s k
     \<and> snd x = s\<lparr>rng_pos := Suc k\<rparr>)"

lemma draws_step:
  assumes "\<And>e s x. f e s = Some x \<Longrightarrow> draws e s x"
    and "(if e \<le> fst (rand s) then f e (snd (rand s)) else Some (rand s)) = Some x"
  shows "draws e s x"
proof (cases "e \<le> fst (rand s)")
  case True
  with assms have "draws e (snd (rand s)) x" by simp
  then obtain k where "Suc (rng_pos s) \<le> k" "rng_draw s k < e" "fst x = rng_draw s k"
    "snd x = s\<lparr>rng_pos := Suc k\<rparr>"
    by (auto simp: rand_def draws_def)
  then show ?thesis unfolding draws_def by (intro exI [of _ k]) auto
next
  case False
  with assms(2) have "x = rand s" by simp
  with False show ?thesis by (auto simp: rand_def draws_def not_le)
qed

lemma rand_below_draw: "rand_below e s = Some x \<Longrightarrow> draws e s x"
  by (rule rand_below.raw_induct [of draws, OF draws_step])

lemma rand_below_hit: "rng_draw s (rng_pos s) < e \<Longrightarrow> rand_below e s = Some (rand s)"
  by (subst rand_below.simps) (auto simp: rand_def not_le)

lemma rand_below_returns:
  "rng_pos s \<le> k \<Longrightarrow> rng_draw s k < e \<Longrightarrow> \<exists>x. rand_below e s = Some x"
proof (induction "k - rng_pos s" arbitrary: s)
  case 0
  then have "rng_draw s (rng_pos s) < e" by simp
  then show ?case by (subst rand_below.simps) (auto simp: rand_def not_le)
next
  case (Suc n)
  then have "\<exists>x. rand_below e (s\<lparr>rng_pos := Suc (rng_pos s)\<rparr>) = Some x" by simp
  then show ?case by (subst rand_below.simps) (auto simp: rand_def)
qed

text \<open>The quantities of the routine as natural numbers.\<close>

definition range_of :: "u8 \<Rightarrow> u8 \<Rightarrow> nat" where
  "range_of mn mx = unat mx - unat mn + 1"

definition chunk_of :: "u8 \<Rightarrow> u8 \<Rightarrow> nat" where
  "chunk_of mn mx = 2147483647 div range_of mn mx"

lemma range_of_bounds: "0 < range_of mn mx" "range_of mn mx \<le> 256"
  using unat_bound [of mx] by (simp_all add: range_of_def)

lemma chunk_of_pos: "0 < chunk_of mn mx"
  using range_of_bounds [of mn mx] by (simp add: chunk_of_def div_greater_zero_iff)

lemma chunk_of_le: "chunk_of mn mx * range_of mn mx \<le> 2147483647"
  by (simp add: chunk_of_def)

lemma rand_range_unat:
  assumes "mn \<le> mx"
  shows "rand_range mn mx = of_nat (range_of mn mx)"
proof -
  have "uint mx - uint mn + 1 = int (range_of mn mx)"
    using assms unfolding range_of_def uint_nat word_le_nat_alt by simp
  then show ?thesis by (simp add: rand_range_def)
qed

lemma unat_u32_of_nat: "n < 2 ^ 32 \<Longrightarrow> unat (of_nat n :: u32) = n"
  by (simp only: unat_of_nat take_bit_eq_mod) simp

lemma rand_quantities:
  assumes "mn \<le> mx"
  shows "rand_range mn mx \<noteq> 0"
    and "unat (ucast (rand_range mn mx) :: u32) = range_of mn mx"
    and "unat (RAND_MAX div ucast (rand_range mn mx)) = chunk_of mn mx"
    and "unat (RAND_MAX div ucast (rand_range mn mx) * ucast (rand_range mn mx))
          = chunk_of mn mx * range_of mn mx"
proof -
  let ?R = "range_of mn mx"
  have u: "unat (rand_range mn mx) = ?R"
    using range_of_bounds [of mn mx] unfolding rand_range_unat [OF assms]
    by (simp only: unat_of_nat take_bit_eq_mod) simp
  then show "rand_range mn mx \<noteq> 0" using range_of_bounds(1) [of mn mx] by auto
  show uc: "unat (ucast (rand_range mn mx) :: u32) = ?R"
    unfolding u [symmetric] by (simp add: unat_ucast_up)
  show c: "unat (RAND_MAX div ucast (rand_range mn mx)) = chunk_of mn mx"
    by (simp add: unat_div uc chunk_of_def)
  have "unat (RAND_MAX div ucast (rand_range mn mx) * ucast (rand_range mn mx))
      = (chunk_of mn mx * ?R) mod 2 ^ 32"
    by (simp add: unat_mult_mod c uc)
  then show "unat (RAND_MAX div ucast (rand_range mn mx) * ucast (rand_range mn mx))
          = chunk_of mn mx * ?R"
    using chunk_of_le [of mn mx] by simp
qed

text \<open>How many words lie in an interval.\<close>

lemma card_unat_interval:
  assumes "b \<le> 2 ^ 32"
  shows "card {r :: u32. a \<le> unat r \<and> unat r < b} = b - a"
proof -
  have "{r :: u32. a \<le> unat r \<and> unat r < b} = of_nat ` {a..<b}"
  proof (rule set_eqI, rule iffI)
    fix r :: u32
    assume "r \<in> {r. a \<le> unat r \<and> unat r < b}"
    then show "r \<in> of_nat ` {a..<b}" by (intro image_eqI [of _ _ "unat r"]) auto
  next
    fix r :: u32
    assume "r \<in> of_nat ` {a..<b}"
    then obtain n where n: "r = of_nat n" "a \<le> n" "n < b" by auto
    with assms have "n < 2 ^ 32" by linarith
    then have "unat r = n" unfolding n(1) by (rule unat_u32_of_nat)
    with n(2,3) show "r \<in> {r. a \<le> unat r \<and> unat r < b}" by blast
  qed
  moreover have "inj_on (of_nat :: nat \<Rightarrow> u32) {a..<b}"
  proof (rule inj_onI)
    fix m n
    assume "m \<in> {a..<b}" "n \<in> {a..<b}" "(of_nat m :: u32) = of_nat n"
    moreover from this assms have "m < 2 ^ 32" "n < 2 ^ 32" by auto
    ultimately show "m = n" by (metis unat_u32_of_nat)
  qed
  ultimately show ?thesis by (simp add: card_image)
qed

text \<open>The number an accepted draw is turned into.\<close>

lemma rand_result:
  assumes "mn \<le> mx" "unat r < chunk_of mn mx * range_of mn mx"
  shows "unat (ucast (ucast mn + r div (RAND_MAX div ucast (rand_range mn mx))) :: u8)
    = unat mn + unat r div chunk_of mn mx"
    and "unat r div chunk_of mn mx < range_of mn mx"
proof -
  let ?q = "unat r div chunk_of mn mx"
  show q: "?q < range_of mn mx"
    using assms(2) chunk_of_pos [of mn mx] by (simp add: less_mult_imp_div_less mult.commute)
  have mn: "unat mn + ?q < 256"
    using q assms(1) unat_bound [of mx] by (simp add: range_of_def word_le_nat_alt)
  have "unat (r div (RAND_MAX div ucast (rand_range mn mx))) = ?q"
    by (subst unat_div) (simp only: rand_quantities(3) [OF assms(1)])
  then have "unat (ucast mn + r div (RAND_MAX div ucast (rand_range mn mx))) = unat mn + ?q"
    using mn by (simp only: unat_add_mod unat_ucast_up) (simp add: unat_ucast_up)
  with mn show "unat (ucast (ucast mn + r div (RAND_MAX div ucast (rand_range mn mx))) :: u8)
    = unat mn + ?q"
    by (subst unat_ucast_small) simp_all
qed

lemma get_rand_num_eq:
  assumes "mn \<le> mx"
  shows "get_rand_num mn mx s =
    map_option (\<lambda>(r, s). (ucast (ucast mn + r div (RAND_MAX div ucast (rand_range mn mx))), s))
      (rand_below (RAND_MAX div ucast (rand_range mn mx) * ucast (rand_range mn mx)) s)"
  using rand_quantities(1) [OF assms]
  by (cases "rand_below (RAND_MAX div ucast (rand_range mn mx) * ucast (rand_range mn mx)) s")
    (auto simp: get_rand_num_def Let_def)

lemma get_rand_num_SomeD:
  assumes "mn \<le> mx" "get_rand_num mn mx s = Some (v, s')"
  shows "\<exists>k\<ge>rng_pos s. unat (rng_draw s k) < chunk_of mn mx * range_of mn mx
    \<and> unat v = unat mn + unat (rng_draw s k) div chunk_of mn mx \<and> s' = s\<lparr>rng_pos := Suc k\<rparr>"
proof -
  from assms obtain r where r: "rand_below (RAND_MAX div ucast (rand_range mn mx)
      * ucast (rand_range mn mx)) s = Some (r, s')"
    "v = ucast (ucast mn + r div (RAND_MAX div ucast (rand_range mn mx)))"
    by (auto simp: get_rand_num_eq)
  from rand_below_draw [OF r(1)] obtain k where k: "rng_pos s \<le> k" "r = rng_draw s k"
    "s' = s\<lparr>rng_pos := Suc k\<rparr>" and lt: "unat r < chunk_of mn mx * range_of mn mx"
    using rand_quantities(4) [OF assms(1)] by (auto simp: draws_def word_less_nat_alt)
  from rand_result(1) [OF assms(1) lt] r(2) k lt show ?thesis by auto
qed

lemma get_rand_num_between:
  assumes "mn \<le> mx" "get_rand_num mn mx s = Some (v, s')"
  shows "mn \<le> v \<and> v \<le> mx"
proof -
  from get_rand_num_SomeD [OF assms] obtain k where
    k: "unat (rng_draw s k) < chunk_of mn mx * range_of mn mx"
      "unat v = unat mn + unat (rng_draw s k) div chunk_of mn mx" by blast
  from rand_result(2) [OF assms(1) k(1)] k(2) assms(1) show ?thesis
    by (simp add: word_le_nat_alt range_of_def)
qed

lemma div_eq_interval:
  "0 < c \<Longrightarrow> x div c = d \<longleftrightarrow> d * c \<le> x \<and> x < (d + 1) * (c :: nat)"
  using less_eq_div_iff_mult_less_eq [of c d x] div_less_iff_less_mult [of c x "d + 1"] by auto

lemma mult_Suc_diff: "(d + 1) * c - d * c = (c :: nat)"
  by simp

lemma interval_select:
  "(q = d \<longleftrightarrow> a \<le> x \<and> x < b) \<Longrightarrow> b \<le> t \<Longrightarrow> (v = m + q \<longleftrightarrow> q = (d :: nat)) \<Longrightarrow>
     (x < t \<and> v = m + q) \<longleftrightarrow> (a \<le> x \<and> x < (b :: nat))"
  by auto

text \<open>A stream that repeats one draw: the routine returns if and only if it accepts the draw.\<close>

lemma get_rand_num_constant:
  assumes "mn \<le> mx"
  shows "(\<exists>s'. get_rand_num mn mx \<lparr>rng_draw = \<lambda>_. r, rng_pos = 0\<rparr> = Some (v, s')) \<longleftrightarrow>
    unat r < chunk_of mn mx * range_of mn mx \<and> unat v = unat mn + unat r div chunk_of mn mx"
    (is "?lhs \<longleftrightarrow> ?rhs")
proof
  assume ?lhs
  then show ?rhs using get_rand_num_SomeD [OF assms] by fastforce
next
  assume r: ?rhs
  let ?e = "RAND_MAX div ucast (rand_range mn mx) * ucast (rand_range mn mx)"
  let ?s = "\<lparr>rng_draw = \<lambda>_. r, rng_pos = 0\<rparr>"
  have "r < ?e" using r rand_quantities(4) [OF assms] by (simp add: word_less_nat_alt)
  then have "rand_below ?e ?s = Some (r, ?s\<lparr>rng_pos := 1\<rparr>)"
    using rand_below_hit [of ?s ?e] by (simp add: rand_def)
  moreover have "ucast (ucast mn + r div (RAND_MAX div ucast (rand_range mn mx))) = v"
    using rand_result(1) [OF assms] r by (simp add: word_unat_eq_iff)
  ultimately show ?lhs by (simp add: get_rand_num_eq [OF assms])
qed

section \<open>Properties\<close>

text \<open>
  C33: \<^verbatim>\<open>get_rand_num\<close> has no modulo bias. For every value between the bounds the number of
  raw draws that are accepted and turned into it is the same, the chunk size.
\<close>

theorem get_rand_num_uniform:
  assumes "mn \<le> v" "v \<le> mx"
  shows "card {r. \<exists>s'. get_rand_num mn mx \<lparr>rng_draw = \<lambda>_. r, rng_pos = 0\<rparr> = Some (v, s')}
    = 2147483647 div (unat mx - unat mn + 1)"
proof -
  have le: "mn \<le> mx" using assms by simp
  let ?c = "chunk_of mn mx" and ?d = "unat v - unat mn"
  have d: "?d + 1 \<le> range_of mn mx" "unat mn \<le> unat v"
    using assms by (simp_all add: range_of_def word_le_nat_alt)
  then have top: "(?d + 1) * ?c \<le> ?c * range_of mn mx"
    by (metis mult.commute mult_le_mono1)
  have "{r. \<exists>s'. get_rand_num mn mx \<lparr>rng_draw = \<lambda>_. r, rng_pos = 0\<rparr> = Some (v, s')}
      = {r. ?d * ?c \<le> unat r \<and> unat r < (?d + 1) * ?c}"
  proof (rule Collect_cong)
    fix r :: u32
    have "unat v = unat mn + unat r div ?c \<longleftrightarrow> unat r div ?c = ?d" using d(2) by auto
    then show "(\<exists>s'. get_rand_num mn mx \<lparr>rng_draw = \<lambda>_. r, rng_pos = 0\<rparr> = Some (v, s')) \<longleftrightarrow>
        ?d * ?c \<le> unat r \<and> unat r < (?d + 1) * ?c"
      unfolding get_rand_num_constant [OF le]
      by (rule interval_select [OF div_eq_interval [OF chunk_of_pos] top])
  qed
  moreover have "(?d + 1) * ?c \<le> 2 ^ 32"
    by (rule order_trans [OF top order_trans [OF chunk_of_le]]) simp
  ultimately have "card {r. \<exists>s'. get_rand_num mn mx \<lparr>rng_draw = \<lambda>_. r, rng_pos = 0\<rparr> = Some (v, s')}
      = (?d + 1) * ?c - ?d * ?c"
    by (simp only: card_unat_interval)
  also have "(?d + 1) * ?c - ?d * ?c = ?c" by (rule mult_Suc_diff)
  finally show ?thesis by (simp only: chunk_of_def range_of_def)
qed

theorem get_rand_num_uniform_witness:
  "card {r. \<exists>s'. get_rand_num 10 19 \<lparr>rng_draw = \<lambda>_. r, rng_pos = 0\<rparr> = Some (12, s')} = 214748364"
  using get_rand_num_uniform [of 10 12 19] by simp

lemma get_rand_num_defined:
  assumes "mn \<le> mx" "rng_pos s \<le> k" "rng_draw s k < RAND_MAX - 255"
  shows "\<exists>v s'. get_rand_num mn mx s = Some (v, s') \<and> mn \<le> v \<and> v \<le> mx"
proof -
  let ?e = "RAND_MAX div ucast (rand_range mn mx) * ucast (rand_range mn mx)"
  have "2147483647 mod range_of mn mx < range_of mn mx"
    using range_of_bounds(1) by (rule mod_less_divisor)
  then have "2147483647 - 255 \<le> chunk_of mn mx * range_of mn mx"
    using range_of_bounds(2) [of mn mx] div_mult_mod_eq [of 2147483647 "range_of mn mx"]
    unfolding chunk_of_def by linarith
  then have "rng_draw s k < ?e"
    using assms(3) rand_quantities(4) [OF assms(1)] by (simp add: word_less_nat_alt)
  from rand_below_returns [OF assms(2) this] have "\<exists>x. get_rand_num mn mx s = Some x"
    by (auto simp: get_rand_num_eq [OF assms(1)])
  then show ?thesis using get_rand_num_between [OF assms(1)] by auto
qed

text \<open>
  C34: \<^verbatim>\<open>get_rand_num\<close> returns as soon as the generator yields a number at least 256 below
  its maximum, and the result lies between the bounds.
\<close>

theorem get_rand_num_returns:
  assumes "mn \<le> mx" "rng_pos s \<le> k" "rng_draw s k < RAND_MAX - 255"
  shows "\<exists>v s'. get_rand_num mn mx s = Some (v, s') \<and> mn \<le> v \<and> v \<le> mx"
  using assms by (rule get_rand_num_defined)

theorem get_rand_num_returns_witness:
  "\<exists>v s'. get_rand_num 120 240 \<lparr>rng_draw = (\<lambda>i. if i < 3 then RAND_MAX else 77), rng_pos = 1\<rparr>
     = Some (v, s') \<and> 120 \<le> v \<and> v \<le> 240"
  by (rule get_rand_num_returns [of 120 240 _ 3]) simp_all

text \<open>
  \<^verbatim>\<open>compare_ether_addr\<close> orders addresses like the 48-bit numbers they are, most
  significant octet first, and is 0 exactly on equal addresses.
\<close>

lemma compare_ether_addr_is_numeric:
  "(compare_ether_addr a b < 0 \<longleftrightarrow> ether_addr_value a < ether_addr_value b)
   \<and> (compare_ether_addr a b = 0 \<longleftrightarrow> a = b)
   \<and> (compare_ether_addr a b > 0 \<longleftrightarrow> ether_addr_value a > ether_addr_value b)"
  using compare_ether_addr_value [of a b] ether_addr_value_inject [of a b] by linarith

text \<open>
  Identifiers drawn from a fresh counter run through 1 to 255 in order and start over,
  never yielding 0.
\<close>

lemma non_zero_ids_cycle:
  "((\<lambda>id. snd (increase_non_zero_id id)) ^^ Suc k) 0 = of_nat (k mod 255 + 1)"
proof (induction k)
  case 0
  then show ?case by (simp add: increase_non_zero_id_def)
next
  case (Suc k)
  have "k mod 255 < 255" by simp
  then consider "k mod 255 < 254" | "k mod 255 = 254" by linarith
  then show ?case
  proof cases
    case 1
    then have m: "Suc k mod 255 = k mod 255 + 1" by (simp add: mod_Suc)
    have "unat (of_nat (k mod 255 + 2) :: u8) = k mod 255 + 2"
      using 1 by (simp only: unat_of_nat_mod) simp
    then have "(of_nat (k mod 255 + 2) :: u8) \<noteq> 0" by (metis add_is_0 unsigned_0 zero_neq_numeral)
    with Suc m show ?thesis by (simp add: increase_non_zero_id_def Let_def add.assoc)
  next
    case 2
    then have m: "Suc k mod 255 = 0" by (simp add: mod_Suc)
    have "(of_nat (k mod 255 + 1) :: u8) = 255" using 2 by simp
    with Suc m show ?thesis by (simp add: increase_non_zero_id_def Let_def)
  qed
qed

end
