(* ===== verification/Nan_Frame.thy ===== *)
theory Nan_Frame
  imports Nan_Utils
begin

text \<open>
  The fixed parts of NAN frames of \<^verbatim>\<open>src/src/frame.h\<close> and \<^verbatim>\<open>src/src/frame.c\<close>: the packed
  structures, as records with the bytes they occupy, and the classification of beacons.
\<close>

section \<open>Constants\<close>

abbreviation (input) NAN_SYNC_BEACON_INTERVAL_TU :: u16 where "NAN_SYNC_BEACON_INTERVAL_TU \<equiv> 512"
abbreviation (input) NAN_DISCOVERY_BEACON_INTERVAL :: u16 where "NAN_DISCOVERY_BEACON_INTERVAL \<equiv> 100"

definition NAN_BROADCAST_ADDRESS :: ether_addr where
  "NAN_BROADCAST_ADDRESS = Ether_Addr 0xff 0xff 0xff 0xff 0xff 0xff"

definition NAN_NETWORK_ID :: ether_addr where
  "NAN_NETWORK_ID = Ether_Addr 0x51 0x6f 0x9a 0x01 0x00 0x00"

definition NAN_CLUSTER_ID_BASE :: ether_addr where
  "NAN_CLUSTER_ID_BASE = Ether_Addr 0x50 0x6f 0x9a 0x01 0x00 0x00"

definition NAN_OUI :: oui where
  "NAN_OUI = Oui 0x50 0x6f 0x9a"

abbreviation (input) NAN_OUI_TYPE_BEACON :: u8 where "NAN_OUI_TYPE_BEACON \<equiv> 0x13"
abbreviation (input) NAN_OUT_TYPE_SERVICE_DISCOVERY :: u8
  where "NAN_OUT_TYPE_SERVICE_DISCOVERY \<equiv> 0x13"
abbreviation (input) NAN_OUI_TYPE_ACTION :: u8 where "NAN_OUI_TYPE_ACTION \<equiv> 0x18"

section \<open>Beacon types\<close>

datatype nan_beacon_type = NAN_SYNC_BEACON | NAN_DISCOVERY_BEACON

primrec beacon_type_val :: "nan_beacon_type \<Rightarrow> int" where
  "beacon_type_val NAN_SYNC_BEACON = 0"
| "beacon_type_val NAN_DISCOVERY_BEACON = 1"

definition nan_get_beacon_type :: "u16 \<Rightarrow> int" where
  "nan_get_beacon_type beacon_interval =
     (if beacon_interval = NAN_DISCOVERY_BEACON_INTERVAL then beacon_type_val NAN_DISCOVERY_BEACON
      else if beacon_interval = NAN_SYNC_BEACON_INTERVAL_TU then beacon_type_val NAN_SYNC_BEACON
      else - 1)"

definition nan_beacon_type_to_string :: "int \<Rightarrow> string" where
  "nan_beacon_type_to_string t =
     (if t = beacon_type_val NAN_DISCOVERY_BEACON then ''DISCOVERY''
      else if t = beacon_type_val NAN_SYNC_BEACON then ''SYNC''
      else ''UNKNOWN'')"

text \<open>The action frame subtypes are the numbers 1 to 13, in the order of the enumeration.\<close>

definition nan_action_frame_subtypes :: "(int \<times> string) list" where
  "nan_action_frame_subtypes =
     [(1, ''NAF_RANGING_REQUEST''), (2, ''NAF_RANGING_RESPONSE''), (3, ''NAF_RANGING_TERMINATION''),
      (4, ''NAN_RANGING_REPORT''), (5, ''NAF_DATA_PATH_REQUEST''), (6, ''NAF_DATA_PATH_RESPONSE''),
      (7, ''NAF_DATA_PATH_CONFIRM''), (8, ''NAF_DATA_PATH_KEY_INSTALLMENT''),
      (9, ''NAF_DATA_PATH_TERMINATION''), (10, ''NAF_SCHEDULE_REQUEST''),
      (11, ''NAF_SCHEDULE_RESPONSE''), (12, ''NAF_SCHEDULE_CONFIRM''),
      (13, ''NAF_SCHEDULE_UPDATE_NOTIFICATION'')]"

definition nan_action_frame_subtype_to_string :: "int \<Rightarrow> string" where
  "nan_action_frame_subtype_to_string subtype =
     (case map_of nan_action_frame_subtypes subtype of Some s \<Rightarrow> s | None \<Rightarrow> ''UNKNOWN'')"

section \<open>Packed structures\<close>

record nan_beacon_frame =
  bf_time_stamp :: u64
  bf_beacon_interval :: u16
  bf_capability :: u16
  bf_element_id :: u8
  bf_length :: u8
  bf_oui :: oui
  bf_oui_type :: u8

definition nan_beacon_frame_bytes :: "nan_beacon_frame \<Rightarrow> u8 list" where
  "nan_beacon_frame_bytes f =
     le_bytes 8 (bf_time_stamp f) @ le_bytes 2 (bf_beacon_interval f) @ le_bytes 2 (bf_capability f)
     @ [bf_element_id f, bf_length f] @ oui_byte (bf_oui f) @ [bf_oui_type f]"

lemma length_nan_beacon_frame_bytes [simp]: "length (nan_beacon_frame_bytes f) = 18"
  by (simp add: nan_beacon_frame_bytes_def)

record nan_service_discovery_frame =
  sdf_category :: u8
  sdf_action :: u8
  sdf_oui :: oui
  sdf_oui_type :: u8

definition nan_service_discovery_frame_bytes :: "nan_service_discovery_frame \<Rightarrow> u8 list" where
  "nan_service_discovery_frame_bytes f =
     [sdf_category f, sdf_action f] @ oui_byte (sdf_oui f) @ [sdf_oui_type f]"

lemma length_nan_service_discovery_frame_bytes [simp]:
  "length (nan_service_discovery_frame_bytes f) = 6"
  by (simp add: nan_service_discovery_frame_bytes_def)

record nan_action_frame = nan_service_discovery_frame +
  naf_oui_subtype :: u8

end
