(* ===== verification/Nan_Cluster.thy ===== *)
theory Nan_Cluster
  imports Nan_Frame
begin

text \<open>
  Cluster identity and grade (\<^verbatim>\<open>src/src/cluster.c\<close>) and channel numbers
  (\<^verbatim>\<open>src/src/channel.c\<close>).
\<close>

section \<open>Channels\<close>

record nan_channel_state =
  ch_master :: int

definition nan_channel_state_init :: "nan_channel_state \<Rightarrow> int \<Rightarrow> nan_channel_state" where
  "nan_channel_state_init state channel = state\<lparr>ch_master := channel\<rparr>"

definition ieee80211_channel_to_frequency :: "int \<Rightarrow> int" where
  "ieee80211_channel_to_frequency chan =
     (if chan \<le> 0 then 0
      else if chan = 14 then 2484
      else if chan < 14 then 2407 + chan * 5
      else if chan < 32 then 0
      else if chan \<ge> 182 \<and> chan \<le> 196 then 4000 + chan * 5
      else 5000 + chan * 5)"

definition ieee80211_frequency_to_channel :: "int \<Rightarrow> int" where
  "ieee80211_frequency_to_channel freq =
     (if freq = 2484 then 14
      else if freq < 2484 then (freq - 2407) sdiv 5
      else if freq \<ge> 4910 \<and> freq \<le> 4980 then (freq - 4000) sdiv 5
      else if freq \<le> 45000 then (freq - 5000) sdiv 5
      else if freq \<ge> 58320 \<and> freq \<le> 64800 then (freq - 56160) sdiv 2160
      else 0)"

lemma sdiv_5: "0 \<le> c \<Longrightarrow> (c * 5) sdiv 5 = (c :: int)"
  by (cases "c = 0") (simp_all add: signed_divide_int_def sgn_if)

section \<open>Clusters\<close>

record nan_cluster_state =
  cluster_id :: ether_addr
  cluster_grade :: u64

definition nan_cluster_id_new :: "rng \<Rightarrow> (ether_addr \<times> rng) option" where
  "nan_cluster_id_new r =
     do { (a, r) \<leftarrow> get_rand_num 0 255 r;
          (b, r) \<leftarrow> get_rand_num 0 255 r;
          (let id = ether_addr_octet NAN_CLUSTER_ID_BASE; id = id[4 := a]; id = id[5 := b]
           in Some (ether_addr_of id, r)) }"

definition nan_cluster_state_init ::
  "nan_cluster_state \<Rightarrow> rng \<Rightarrow> (nan_cluster_state \<times> rng) option" where
  "nan_cluster_state_init state r =
     do { (id, r) \<leftarrow> nan_cluster_id_new r; Some (state\<lparr>cluster_id := id\<rparr>, r) }"

definition nan_cluster_compare_grade :: "u8 \<Rightarrow> u64 \<Rightarrow> u8 \<Rightarrow> u64 \<Rightarrow> int" where
  "nan_cluster_compare_grade master_preferenceA timestampA master_preferenceB timestampB =
     (if master_preferenceA = master_preferenceB
      then of_bool ((timestampA AND 0x7ffff) < (timestampB AND 0x7ffff))
      else of_bool (master_preferenceA < master_preferenceB))"

text \<open>The shift is done in \<^verbatim>\<open>int\<close>.\<close>

definition nan_calculate_cluster_grade :: "u8 \<Rightarrow> u64 \<Rightarrow> u64" where
  "nan_calculate_cluster_grade master_preference timestamp =
     (let cluster_grade = word_of_int (uint master_preference * 2 ^ 6);
          cluster_grade = cluster_grade + (timestamp AND 0x7ffff)
      in cluster_grade)"

text \<open>What the comparison orders clusters by.\<close>

definition grade_rank :: "u8 \<Rightarrow> u64 \<Rightarrow> nat" where
  "grade_rank master_preference timestamp =
     unat master_preference * 2 ^ 19 + unat timestamp mod 2 ^ 19"

lemma unat_mask19: "unat (t AND 0x7ffff :: u64) = unat t mod 2 ^ 19"
proof -
  have "t AND 0x7ffff = take_bit 19 t"
    by (simp add: take_bit_eq_mask mask_eq_exp_minus_1)
  then show ?thesis by (simp add: take_bit_eq_mod unat_mod)
qed

lemma digits_less: "a < b \<Longrightarrow> x < K \<Longrightarrow> a * K + x < b * K + (y :: nat)"
proof -
  assume "a < b" and x: "x < K"
  then have "Suc a * K \<le> b * K" by (intro mult_right_mono) auto
  with x show ?thesis by simp
qed

section \<open>Properties\<close>

text \<open>
  Every channel the code supports, 1 to 14 in the 2.4 GHz band and 32 to 8000 above, is
  recovered from its frequency.
\<close>

lemma channel_frequency_roundtrip:
  assumes "1 \<le> c \<and> c \<le> 14 \<or> 32 \<le> c \<and> c \<le> 8000"
  shows "ieee80211_frequency_to_channel (ieee80211_channel_to_frequency c) = c"
  using assms sdiv_5 [of c]
  by (auto simp: ieee80211_frequency_to_channel_def ieee80211_channel_to_frequency_def)

text \<open>
  The comparison of cluster grades is the strict order of one number, the master
  preference above the low 19 bits of the timestamp: irreflexive, transitive and total up to
  equal grades, so two clusters never both consider the other one superior.
\<close>

lemma nan_cluster_compare_grade_is_order:
  "nan_cluster_compare_grade mpA tA mpB tB = of_bool (grade_rank mpA tA < grade_rank mpB tB)"
proof -
  have m: "unat tA mod 2 ^ 19 < 2 ^ 19" "unat tB mod 2 ^ 19 < 2 ^ 19" by simp_all
  show ?thesis
  proof (cases "unat mpA" "unat mpB" rule: linorder_cases)
    case less
    then have "mpA \<noteq> mpB" "mpA < mpB" by (auto simp: word_less_nat_alt)
    moreover have "grade_rank mpA tA < grade_rank mpB tB"
      unfolding grade_rank_def by (rule digits_less [OF less m(1)])
    ultimately show ?thesis by (simp add: nan_cluster_compare_grade_def)
  next
    case equal
    then have "mpA = mpB" by (simp add: word_unat_eq_iff)
    then show ?thesis
      by (simp add: nan_cluster_compare_grade_def grade_rank_def word_less_nat_alt unat_mask19)
  next
    case greater
    then have "mpA \<noteq> mpB" "\<not> mpA < mpB" by (auto simp: word_less_nat_alt)
    moreover have "grade_rank mpB tB < grade_rank mpA tA"
      unfolding grade_rank_def by (rule digits_less [OF greater m(2)])
    ultimately show ?thesis by (simp add: nan_cluster_compare_grade_def)
  qed
qed

end
