(* ===== verification/Nan_Moving_Average.thy ===== *)
theory Nan_Moving_Average
  imports Nan_Prelude
begin

text \<open>
  The macros of \<^verbatim>\<open>src/src/moving_average.h\<close>, which smooth the timer error (elements of type
  \<^verbatim>\<open>int\<close>) and the signal strength of a peer (elements of type \<^verbatim>\<open>signed char\<close>). The
  argument \<open>ty\<close> is the macro's \<open>type\<close> parameter, which is also the type of the average in
  both uses.
\<close>

record moving_average =
  ma_buffer :: "int list"
  ma_position :: nat
  ma_buffer_size :: nat
  ma_buffer_full :: bool

definition moving_average_init :: "nat \<Rightarrow> int \<times> moving_average" where
  "moving_average_init n =
     (0, \<lparr>ma_buffer = replicate n 0, ma_position = 0, ma_buffer_size = n, ma_buffer_full = False\<rparr>)"

datatype element_type = Signed_Char | Signed_Int

primrec element_conv :: "element_type \<Rightarrow> int \<Rightarrow> int" where
  "element_conv Signed_Char = c_schar"
| "element_conv Signed_Int = c_int"

text \<open>
  The exact result \<open>x\<close> of an operation on two elements, which C does on \<^verbatim>\<open>int\<close>: it is undefined
  when it is no \<^verbatim>\<open>int\<close>, which results on a few dozen \<^verbatim>\<open>signed char\<close>s always are.
\<close>

primrec element_arith :: "element_type \<Rightarrow> int \<Rightarrow> int option" where
  "element_arith Signed_Char x = Some x"
| "element_arith Signed_Int x = (if - (2 ^ 31) \<le> x \<and> x < 2 ^ 31 then Some x else None)"

text \<open>C's division truncates towards zero; an index outside the array is undefined.\<close>

definition moving_average_add ::
  "element_type \<Rightarrow> moving_average \<Rightarrow> int \<Rightarrow> int \<Rightarrow> (int \<times> moving_average) option" where
  "moving_average_add ty state average val =
     (if ma_position state < length (ma_buffer state) then
        do { average \<leftarrow>
               (if ma_buffer_full state
                then do { diff \<leftarrow> element_arith ty (val - ma_buffer state ! ma_position state);
                          let diff = element_conv ty diff;
                          average \<leftarrow> element_arith ty (average + diff sdiv int (ma_buffer_size state));
                          Some (element_conv ty average) }
                else do { product \<leftarrow> element_arith ty (average * int (ma_position state));
                          sum \<leftarrow> element_arith ty (product + val);
                          Some (element_conv ty (sum sdiv (int (ma_position state) + 1))) });
             let state = state\<lparr>ma_buffer := (ma_buffer state)[ma_position state := element_conv ty val]\<rparr>;
             let state = state\<lparr>ma_position := ma_position state + 1\<rparr>;
             let state = (if ma_position state = ma_buffer_size state
                      then state\<lparr>ma_position := 0, ma_buffer_full := True\<rparr> else state);
             Some (average, state) }
      else None)"

fun moving_average_feed ::
  "element_type \<Rightarrow> moving_average \<Rightarrow> int \<Rightarrow> int list \<Rightarrow> (int \<times> moving_average) option" where
  "moving_average_feed ty state average [] = Some (average, state)"
| "moving_average_feed ty state average (v # vs) =
     (case moving_average_add ty state average v of None \<Rightarrow> None
      | Some (average, state) \<Rightarrow> moving_average_feed ty state average vs)"

definition ma_inv :: "moving_average \<Rightarrow> bool" where
  "ma_inv s \<longleftrightarrow> length (ma_buffer s) = ma_buffer_size s \<and> ma_position s < ma_buffer_size s"

lemma ma_inv_init: "0 < n \<Longrightarrow> ma_inv (snd (moving_average_init n))"
  by (simp add: ma_inv_def moving_average_init_def)

text \<open>A number that is a value of the type.\<close>

definition element_ok :: "element_type \<Rightarrow> int \<Rightarrow> bool" where
  "element_ok ty x \<longleftrightarrow> (case ty of Signed_Char \<Rightarrow> - (2 ^ 7) \<le> x \<and> x < 2 ^ 7 | Signed_Int \<Rightarrow> - (2 ^ 31) \<le> x \<and> x < 2 ^ 31)"

lemma element_ok_conv: "element_ok ty x \<Longrightarrow> element_conv ty x = x"
  by (cases ty) (simp_all add: element_ok_def c_schar_id c_int_id)

lemma element_ok_arith: "element_ok ty x \<Longrightarrow> element_arith ty x = Some x"
  by (cases ty) (simp_all add: element_ok_def)

lemma element_ok_small: "\<bar>x\<bar> < 128 \<Longrightarrow> element_ok ty x"
  by (cases ty) (auto simp: element_ok_def)

text \<open>What is stored, whatever becomes of the average.\<close>

lemma moving_average_add_state:
  assumes "ma_inv s" "moving_average_add ty s a v = Some (a', s')"
  shows "ma_inv s' \<and> ma_buffer_size s' = ma_buffer_size s \<and> (ma_buffer_full s \<longrightarrow> ma_buffer_full s')
    \<and> ma_buffer s' = (ma_buffer s)[ma_position s := element_conv ty v]
    \<and> (ma_buffer_full s' \<or> ma_position s' = Suc (ma_position s))"
  using assms by (auto simp: moving_average_add_def ma_inv_def Let_def split: if_splits Option.bind_splits)

text \<open>With characters the macro always works.\<close>

lemma moving_average_add_inv:
  assumes "ma_inv s"
  shows "\<exists>a' s'. moving_average_add Signed_Char s a v = Some (a', s') \<and> ma_inv s' \<and> ma_buffer_size s' = ma_buffer_size s"
proof -
  obtain a' s' where "moving_average_add Signed_Char s a v = Some (a', s')"
    using assms by (cases "ma_buffer_full s") (simp_all add: moving_average_add_def ma_inv_def Let_def)
  with moving_average_add_state [OF assms this] show ?thesis by blast
qed

section \<open>While the buffer fills, the average stays within the samples\<close>

lemma sdiv_between:
  assumes "0 < n" "lo * n \<le> x" "x \<le> hi * (n :: int)"
  shows "lo \<le> x sdiv n \<and> x sdiv n \<le> hi"
proof (cases "0 \<le> x")
  case True
  then have "x sdiv n = x div n" using assms(1) by (simp add: signed_divide_int_def sgn_if)
  moreover have "lo \<le> x div n" using zdiv_mono1 [of "lo * n" x n] assms(1,2) by simp
  moreover have "x div n \<le> hi" using zdiv_mono1 [of x "hi * n" n] assms(1,3) by simp
  ultimately show ?thesis by simp
next
  case False
  then have q: "x sdiv n = - (- x div n)" using assms(1) by (simp add: signed_divide_int_def sgn_if)
  have "- x div n \<le> - lo"
    using zdiv_mono1 [of "- x" "(- lo) * n" n] assms(1,2) by (simp del: mult_minus_left)
  moreover have "- hi \<le> - x div n"
    using zdiv_mono1 [of "(- hi) * n" "- x" n] assms(1,3) by (simp del: mult_minus_left)
  ultimately show ?thesis using q by simp
qed

lemma moving_average_add_between:
  assumes s: "ma_inv s" "\<not> ma_buffer_full s" and v: "lo \<le> v" "v \<le> hi"
    and a: "0 < ma_position s \<longrightarrow> lo \<le> a \<and> a \<le> hi"
    and conv: "element_ok ty lo" "element_ok ty hi"
    and size: "\<bar>lo\<bar> * int (ma_buffer_size s) < 2 ^ 31" "\<bar>hi\<bar> * int (ma_buffer_size s) < 2 ^ 31"
    and a0: "ma_position s = 0 \<longrightarrow> element_ok ty a"
  shows "\<exists>a' s'. moving_average_add ty s a v = Some (a', s') \<and> lo \<le> a' \<and> a' \<le> hi"
proof -
  let ?p = "int (ma_position s)" and ?n = "int (ma_buffer_size s)"
  have p: "?p + 1 \<le> ?n" "ma_position s < length (ma_buffer s)" using s(1) by (auto simp: ma_inv_def)
  have b: "lo * ?p \<le> a * ?p \<and> a * ?p \<le> hi * ?p"
    using a by (cases "ma_position s = 0") (auto intro: mult_right_mono)
  then have between: "lo * (?p + 1) \<le> a * ?p + v \<and> a * ?p + v \<le> hi * (?p + 1)" using v by (simp add: distrib_left)
  have k: "- (2 ^ 31) < lo * k" "hi * k < 2 ^ 31" if "0 \<le> k" "k \<le> ?n" for k
  proof -
    have "\<bar>lo\<bar> * k \<le> \<bar>lo\<bar> * ?n" "\<bar>hi\<bar> * k \<le> \<bar>hi\<bar> * ?n" using that by (auto intro: mult_left_mono)
    moreover have "\<bar>lo * k\<bar> = \<bar>lo\<bar> * k" "\<bar>hi * k\<bar> = \<bar>hi\<bar> * k" using that(1) by (simp_all add: abs_mult)
    ultimately show "- (2 ^ 31) < lo * k" "hi * k < 2 ^ 31" using size by linarith+
  qed
  have arith: "element_arith ty (a * ?p) = Some (a * ?p)" "element_arith ty (a * ?p + v) = Some (a * ?p + v)"
    using k [of ?p] k [of "?p + 1"] p(1) b between by (cases ty; simp; linarith)+
  have q: "lo \<le> (a * ?p + v) sdiv (?p + 1) \<and> (a * ?p + v) sdiv (?p + 1) \<le> hi"
    using sdiv_between [of "?p + 1" lo "a * ?p + v" hi] between by simp
  then have "element_ok ty ((a * ?p + v) sdiv (?p + 1))"
    using conv by (cases ty) (auto simp: element_ok_def)
  with q arith p(2) s(2) show ?thesis by (simp add: moving_average_add_def element_ok_conv Let_def)
qed

lemma moving_average_feed_between:
  "ma_inv s \<Longrightarrow> \<not> ma_buffer_full s \<Longrightarrow> length vs \<le> ma_buffer_size s - ma_position s \<Longrightarrow>
   vs \<noteq> [] \<Longrightarrow> (\<And>v. v \<in> set vs \<Longrightarrow> lo \<le> v \<and> v \<le> hi) \<Longrightarrow>
   (0 < ma_position s \<longrightarrow> lo \<le> a \<and> a \<le> hi) \<Longrightarrow> element_ok ty lo \<Longrightarrow> element_ok ty hi \<Longrightarrow>
   \<bar>lo\<bar> * int (ma_buffer_size s) < 2 ^ 31 \<Longrightarrow> \<bar>hi\<bar> * int (ma_buffer_size s) < 2 ^ 31 \<Longrightarrow>
   (ma_position s = 0 \<longrightarrow> element_ok ty a) \<Longrightarrow>
   \<exists>a' s'. moving_average_feed ty s a vs = Some (a', s') \<and> ma_inv s' \<and> lo \<le> a' \<and> a' \<le> hi"
proof (induction vs arbitrary: s a)
  case (Cons v vs)
  obtain a1 s1 where 1: "moving_average_add ty s a v = Some (a1, s1)" "lo \<le> a1" "a1 \<le> hi"
    using moving_average_add_between [OF Cons.prems(1,2) _ _ Cons.prems(6-11), of v] Cons.prems(5) [of v] by auto
  note st = moving_average_add_state [OF Cons.prems(1) 1(1)]
  show ?case
  proof (cases "vs = []")
    case True
    with 1 st show ?thesis by auto
  next
    case False
    with Cons.prems(3) have "Suc (ma_position s) < ma_buffer_size s" by (cases vs) auto
    with 1(1) Cons.prems(1,2) have nf: "\<not> ma_buffer_full s1" "ma_position s1 = Suc (ma_position s)"
      by (auto simp: moving_average_add_def ma_inv_def Let_def split: if_splits Option.bind_splits)
    have "length vs \<le> ma_buffer_size s1 - ma_position s1" using Cons.prems(3) nf st by simp
    with Cons.IH [of s1 a1] False st nf 1 Cons.prems(5,7-10) show ?thesis by simp
  qed
qed simp

section \<open>Once it is full, small changes are lost\<close>

lemma sdiv_small: "\<bar>x\<bar> < n \<Longrightarrow> x sdiv n = (0 :: int)"
  by (auto simp: signed_divide_int_def sgn_if)

lemma moving_average_add_full:
  assumes "ma_inv s" "ma_buffer_full s" "element_ok ty (v - ma_buffer s ! ma_position s)"
    and "element_ok ty (a + (v - ma_buffer s ! ma_position s) sdiv int (ma_buffer_size s))"
  shows "\<exists>s'. moving_average_add ty s a v
    = Some (a + (v - ma_buffer s ! ma_position s) sdiv int (ma_buffer_size s), s')"
  using assms by (simp add: moving_average_add_def ma_inv_def Let_def element_ok_arith element_ok_conv)

lemma moving_average_feed_append:
  "moving_average_feed ty s a (us @ vs)
   = do { (a', s') \<leftarrow> moving_average_feed ty s a us; moving_average_feed ty s' a' vs }"
  by (induction us arbitrary: s a) (simp_all split: option.splits)

lemma moving_average_feed_stuck:
  "ma_inv s \<Longrightarrow> ma_buffer_full s \<Longrightarrow> ma_buffer_size s \<le> 128 \<Longrightarrow> element_ok ty a \<Longrightarrow>
    (\<And>v. v \<in> set (ma_buffer s) \<union> set vs \<Longrightarrow> element_ok ty v \<and> lo \<le> v \<and> v < lo + int (ma_buffer_size s)) \<Longrightarrow>
    \<exists>s'. moving_average_feed ty s a vs = Some (a, s')"
proof (induction vs arbitrary: s)
  case (Cons v vs)
  let ?p = "ma_position s" and ?b = "ma_buffer s"
  have p: "?p < length ?b" "ma_buffer_size s = length ?b" using Cons.prems(1) by (auto simp: ma_inv_def)
  have "lo \<le> v \<and> v < lo + int (length ?b)" "lo \<le> ?b ! ?p \<and> ?b ! ?p < lo + int (length ?b)" "element_ok ty v"
    using Cons.prems(5) [of v] Cons.prems(5) [of "?b ! ?p"] p by auto
  then have d: "\<bar>v - ?b ! ?p\<bar> < int (ma_buffer_size s)" and v: "element_ok ty v" unfolding p(2) by linarith+
  then have "element_ok ty (v - ?b ! ?p)" using Cons.prems(3) by (intro element_ok_small) linarith
  with moving_average_add_full [of s ty v a] Cons.prems(1,2,4) sdiv_small [OF d] obtain s1 where
    add: "moving_average_add ty s a v = Some (a, s1)" by auto
  note st = moving_average_add_state [OF Cons.prems(1) add]
  then have inv: "ma_inv s1" "ma_buffer_full s1" "ma_buffer_size s1 = ma_buffer_size s"
    and sub: "set (ma_buffer s1) \<subseteq> insert v (set ?b)"
    using Cons.prems(2) set_update_subset_insert [of ?b ?p v] by (simp_all add: element_ok_conv [OF v])
  have "element_ok ty w \<and> lo \<le> w \<and> w < lo + int (ma_buffer_size s1)" if "w \<in> set (ma_buffer s1) \<union> set vs" for w
    using Cons.prems(5) [of w] that sub unfolding inv(3) by auto
  from Cons.IH [OF inv(1,2) _ Cons.prems(4) this] Cons.prems(3) inv(3) add show ?case by auto
qed simp

section \<open>Large rises stay\<close>

text \<open>A full window that holds one value.\<close>

definition constant_window :: "nat \<Rightarrow> int \<Rightarrow> moving_average" where
  "constant_window n x = \<lparr>ma_buffer = replicate n x, ma_position = 0, ma_buffer_size = n, ma_buffer_full = True\<rparr>"

lemma moving_average_feed_window:
  assumes v: "element_ok ty v" and d: "element_ok ty (v - y)"
  shows "(v - y) sdiv int (p + Suc m) = q \<Longrightarrow> (\<And>j. j \<le> Suc m \<Longrightarrow> element_ok ty (a + int j * q)) \<Longrightarrow>
    moving_average_feed ty \<lparr>ma_buffer = replicate p v @ replicate (Suc m) y, ma_position = p,
      ma_buffer_size = p + Suc m, ma_buffer_full = True\<rparr> a (replicate (Suc m) v)
    = Some (a + int (Suc m) * q, constant_window (p + Suc m) v)"
proof (induction m arbitrary: p a)
  case 0
  have "replicate p v @ [v] = v # replicate p v" by (simp add: replicate_append_same)
  moreover have "element_ok ty (a + q)" using "0.prems"(2) [of 1] by simp
  ultimately show ?case using "0.prems"(1) v d
    by (simp add: moving_average_add_def nth_append list_update_append constant_window_def Let_def
        element_ok_arith element_ok_conv)
next
  case (Suc m)
  have "element_ok ty (a + q)" using Suc.prems(2) [of 1] by simp
  then have "moving_average_add ty \<lparr>ma_buffer = replicate p v @ replicate (Suc (Suc m)) y, ma_position = p,
      ma_buffer_size = p + Suc (Suc m), ma_buffer_full = True\<rparr> a v
    = Some (a + q, \<lparr>ma_buffer = replicate (Suc p) v @ replicate (Suc m) y, ma_position = Suc p,
      ma_buffer_size = Suc p + Suc m, ma_buffer_full = True\<rparr>)"
    using Suc.prems(1) v d by (simp add: moving_average_add_def nth_append list_update_append Let_def
        replicate_app_Cons_same element_ok_arith element_ok_conv)
  moreover have "element_ok ty (a + q + int j * q)" if "j \<le> Suc m" for j
    using Suc.prems(2) [of "Suc j"] that by (simp add: distrib_right add.assoc)
  moreover have "p + Suc (Suc m) = Suc p + Suc m" by simp
  moreover from this have "(v - y) sdiv int (Suc p + Suc m) = q" using Suc.prems(1) by simp
  moreover have "a + q + int (Suc m) * q = a + int (Suc (Suc m)) * q" by (simp add: distrib_right)
  ultimately show ?case
    using Suc.IH [of "Suc p" "a + q"]
    by (simp only: moving_average_feed.simps replicate_Suc [of "Suc m" v] option.case prod.case)
qed

lemma moving_average_feed_constant:
  assumes "0 < n" "element_ok ty v" "element_ok ty (v - y)" "(v - y) sdiv int n = q"
    and "\<And>j. j \<le> n \<Longrightarrow> element_ok ty (a + int j * q)"
  shows "moving_average_feed ty (constant_window n y) a (replicate n v) = Some (a + int n * q, constant_window n v)"
proof -
  obtain m where m: "n = Suc m" using assms(1) by (cases n) auto
  show ?thesis
    using moving_average_feed_window [of ty v y 0 m q a, OF assms(2,3)] assms(4,5)
    by (simp add: m constant_window_def del: replicate_Suc of_nat_Suc)
qed

text \<open>A rise by the size of the window, and a fall in two steps that are smaller than it.\<close>

definition rise_and_fall :: "nat \<Rightarrow> int \<Rightarrow> int list" where
  "rise_and_fall n x = replicate n (x + int n) @ replicate n (x + 1) @ replicate n x"

lemma element_ok_between: "element_ok ty x \<Longrightarrow> element_ok ty y \<Longrightarrow> x \<le> z \<Longrightarrow> z \<le> y \<Longrightarrow> element_ok ty z"
  by (cases ty) (auto simp: element_ok_def)

lemma moving_average_feed_rise:
  assumes n: "2 \<le> n" "n < 128" and x: "element_ok ty x" "element_ok ty (x + int n)"
  shows "element_ok ty a \<Longrightarrow> element_ok ty (a + int (k * n)) \<Longrightarrow>
    moving_average_feed ty (constant_window n x) a (concat (replicate k (rise_and_fall n x)))
    = Some (a + int (k * n), constant_window n x)"
proof (induction k arbitrary: a)
  case (Suc k)
  note small = element_ok_small and feed = moving_average_feed_constant
  let ?n = "int n"
  have x1: "element_ok ty (x + 1)" using element_ok_between [OF x] n by auto
  have id: "element_ok ty (a + int j)" if "j \<le> Suc k * n" for j
    using element_ok_between [OF Suc.prems, of "a + int j"] that by (simp del: mult_Suc of_nat_mult)
  then have an: "element_ok ty (a + ?n)" "element_ok ty (a + ?n + int (k * n))"
    using id [of n] id [of "Suc k * n"] by (simp_all add: add.assoc)
  have up: "moving_average_feed ty (constant_window n x) a (replicate n (x + ?n)) = Some (a + ?n, constant_window n (x + ?n))"
    using feed [of n ty "x + ?n" x 1 a] n x id small [of ?n] by (simp add: signed_divide_int_def sgn_if)
  have down: "moving_average_feed ty (constant_window n (x + ?n)) (a + ?n) (replicate n (x + 1))
      = Some (a + ?n, constant_window n (x + 1))"
    using feed [of n ty "x + 1" "x + ?n" 0 "a + ?n"] n x1 an small [of "1 - ?n"] sdiv_small [of "1 - ?n" ?n] by simp
  have base: "moving_average_feed ty (constant_window n (x + 1)) (a + ?n) (replicate n x)
      = Some (a + ?n, constant_window n x)"
    using feed [of n ty x "x + 1" 0 "a + ?n"] n x an small [of "- 1"] sdiv_small [of "- 1" ?n] by simp
  from Suc.IH [OF an] up down base show ?case
    by (simp add: rise_and_fall_def moving_average_feed_append algebra_simps)
qed simp

section \<open>Properties\<close>

text \<open>
  Until the window has been filled once, the average of samples that lie in a range lies
  in that range, for both element types the program uses, and every sample is stored inside
  the window.
\<close>

lemma moving_average_within_samples:
  assumes "vs \<noteq> []" "length vs \<le> n" "\<And>v. v \<in> set vs \<Longrightarrow> lo \<le> v \<and> v \<le> hi"
    and "element_ok ty lo" "element_ok ty hi" "\<bar>lo\<bar> * int n < 2 ^ 31" "\<bar>hi\<bar> * int n < 2 ^ 31"
  shows "\<exists>a s. moving_average_feed ty (snd (moving_average_init n)) (fst (moving_average_init n)) vs
      = Some (a, s) \<and> ma_inv s \<and> lo \<le> a \<and> a \<le> hi"
proof -
  from assms(1,2) have n: "0 < n" by (cases vs) auto
  show ?thesis
    by (rule moving_average_feed_between [OF ma_inv_init [OF n] _ _ assms(1,3) _ assms(4,5)])
      (use assms(2,6,7) in \<open>auto simp: moving_average_init_def element_ok_small\<close>)
qed

text \<open>
  C35: Once its window of fewer than 128 samples is full, the average does not follow the
  samples, for both element types of the program: integer division by the size of the window
  drops every smaller change. First, as long as all samples, old and new, lie in a range
  narrower than that size, the average never changes, however far it is from them and however
  many samples follow. Second, a window that holds one value, fed a rise by its size and a fall
  back in two smaller steps, \<open>k\<close> times, ends with the same window and an average that is
  higher by \<open>k\<close> times the size, as long as that is a value of the type.
\<close>

theorem moving_average_drifts:
  assumes n: "2 \<le> n" "n < 128"
  shows "(\<forall>s a lo vs. ma_inv s \<and> ma_buffer_full s \<and> ma_buffer_size s = n \<and> element_ok ty a
        \<and> (\<forall>v \<in> set (ma_buffer s) \<union> set vs. element_ok ty v \<and> lo \<le> v \<and> v < lo + int n)
      \<longrightarrow> (\<exists>s'. moving_average_feed ty s a vs = Some (a, s')))
    \<and> (\<forall>x a k. element_ok ty x \<and> element_ok ty (x + int n) \<and> element_ok ty a \<and> element_ok ty (a + int (k * n))
      \<longrightarrow> moving_average_feed ty (constant_window n x) a (concat (replicate k (rise_and_fall n x)))
          = Some (a + int (k * n), constant_window n x))"
proof (intro conjI allI impI; elim conjE)
  fix s :: moving_average and a lo vs
  assume s: "ma_inv s" "ma_buffer_full s" "ma_buffer_size s = n" "element_ok ty a"
    and "\<forall>v \<in> set (ma_buffer s) \<union> set vs. element_ok ty v \<and> lo \<le> v \<and> v < lo + int n"
  then show "\<exists>s'. moving_average_feed ty s a vs = Some (a, s')"
    using n(2) by (intro moving_average_feed_stuck [OF s(1,2) _ s(4), of vs lo]) auto
next
  fix x a :: int and k
  assume x: "element_ok ty x" "element_ok ty (x + int n)" and "element_ok ty a" "element_ok ty (a + int (k * n))"
  then show "moving_average_feed ty (constant_window n x) a (concat (replicate k (rise_and_fall n x)))
      = Some (a + int (k * n), constant_window n x)"
    by (intro moving_average_feed_rise [OF n x]) auto
qed

text \<open>
  Samples of a peer's signal strength that all lie between -90 and -58 drive the average up to
  -26, and there it stays while the samples are -90.
\<close>

theorem moving_average_drifts_witness:
  "\<exists>s'. moving_average_feed Signed_Char (snd (moving_average_init 32)) (fst (moving_average_init 32))
      (replicate 32 (- 90) @ concat (replicate 2 (rise_and_fall 32 (- 90))) @ replicate 1000 (- 90)) = Some (- 26, s')"
proof -
  have fill: "moving_average_feed Signed_Char (snd (moving_average_init 32)) (fst (moving_average_init 32)) (replicate 32 (- 90))
      = Some (- 90, constant_window 32 (- 90))"
    by (simp add: moving_average_init_def moving_average_add_def c_schar_id eval_nat_numeral signed_divide_int_def
        constant_window_def)
  note drift = moving_average_drifts [of 32 Signed_Char, simplified]
  have rise: "moving_average_feed Signed_Char (constant_window 32 (- 90)) (- 90) (concat (replicate 2 (rise_and_fall 32 (- 90))))
      = Some (- 26, constant_window 32 (- 90))"
    using drift [THEN conjunct2, rule_format, of "- 90" "- 90" 2] by (simp add: element_ok_def)
  have "\<exists>s'. moving_average_feed Signed_Char (constant_window 32 (- 90)) (- 26) (replicate 1000 (- 90)) = Some (- 26, s')"
    using drift [THEN conjunct1, rule_format, of "constant_window 32 (- 90)" "- 26" "replicate 1000 (- 90)" "- 90"]
    by (simp add: element_ok_def constant_window_def ma_inv_def)
  then show ?thesis by (simp only: moving_average_feed_append fill rise Option.bind.simps prod.case)
qed

end
