(* ===== verification/Nan_Timer.thy ===== *)
theory Nan_Timer
  imports Nan_Utils Nan_Moving_Average
begin

text \<open>
  The clock of \<^verbatim>\<open>src/src/timer.c\<close>: the time base synchronised with the cluster, the grid of
  discovery windows (16 of every 512 time units), and the warm-up, scan and beacon timers.
  All arithmetic is on 64-bit words and wraps as in C; \<^verbatim>\<open>slot\<close> is the position of an instant
  on the grid.
\<close>

section \<open>State and operations\<close>

abbreviation (input) NAN_DW_LENGTH_TU :: u64 where "NAN_DW_LENGTH_TU \<equiv> 16"
abbreviation (input) NAN_DW_INTERVAL_TU :: u64 where "NAN_DW_INTERVAL_TU \<equiv> 512"
abbreviation (input) NAN_DISCOVERY_BEACON_INTERVAL_TU :: u64
  where "NAN_DISCOVERY_BEACON_INTERVAL_TU \<equiv> 100"
abbreviation (input) NAN_WARMUP_TIMER_SEC :: u64 where "NAN_WARMUP_TIMER_SEC \<equiv> 120"
abbreviation (input) NAN_INITIAL_SCAN_TIMER_USEC :: u64
  where "NAN_INITIAL_SCAN_TIMER_USEC \<equiv> 1000000"

record nan_timer_state =
  tm_now_usec :: u64
  base_time_usec :: u64
  last_discovery_beacon_usec :: u64
  warmup_done :: bool
  initial_scan_done :: bool
  average_error :: int
  average_error_state :: moving_average

definition nan_timer_state_init :: "nan_timer_state \<Rightarrow> u64 \<Rightarrow> nan_timer_state" where
  "nan_timer_state_init state now_usec =
     (let state = state\<lparr>tm_now_usec := now_usec, base_time_usec := now_usec,
                        last_discovery_beacon_usec := 0, warmup_done := False,
                        initial_scan_done := True\<rparr>;
          (a, m) = moving_average_init 32
      in state\<lparr>average_error := a, average_error_state := m\<rparr>)"

definition nan_timer_set_now_usec :: "nan_timer_state \<Rightarrow> u64 \<Rightarrow> nan_timer_state" where
  "nan_timer_set_now_usec state now_usec = state\<lparr>tm_now_usec := now_usec\<rparr>"

definition nan_timer_get_synced_time_usec :: "nan_timer_state \<Rightarrow> u64 \<Rightarrow> u64" where
  "nan_timer_get_synced_time_usec state now_usec = now_usec - base_time_usec state"

definition nan_timer_get_synced_time_tu :: "nan_timer_state \<Rightarrow> u64 \<Rightarrow> u64" where
  "nan_timer_get_synced_time_tu state now_usec =
     USEC_TO_TU (nan_timer_get_synced_time_usec state now_usec)"

definition nan_timer_get_fixed_time_usec :: "nan_timer_state \<Rightarrow> u64 \<Rightarrow> u64" where
  "nan_timer_get_fixed_time_usec state now_usec =
     now_usec - base_time_usec state - word_of_int (average_error state)"

definition nan_timer_get_fixed_time_tu :: "nan_timer_state \<Rightarrow> u64 \<Rightarrow> u64" where
  "nan_timer_get_fixed_time_tu state now_usec =
     USEC_TO_TU (nan_timer_get_fixed_time_usec state now_usec)"

text \<open>
  The difference is a \<^verbatim>\<open>long\<close>; adding it to the unsigned base adds the same bits. The
  message about a high difference takes \<^verbatim>\<open>abs\<close> of it in time units, cut to an \<^verbatim>\<open>int\<close>;
  \<^verbatim>\<open>abs(INT_MIN)\<close> is undefined.
\<close>

definition nan_timer_sync_time :: "nan_timer_state \<Rightarrow> u64 \<Rightarrow> u64 \<Rightarrow> nan_timer_state option" where
  "nan_timer_sync_time state now_usec timestamp =
     (let diff_usec = nan_timer_get_synced_time_usec state now_usec - timestamp;
          diff_tu = c_int (sint diff_usec sdiv 1024) in
      if diff_tu = - (2 ^ 31) then None
      else Some (state\<lparr>base_time_usec := base_time_usec state + diff_usec\<rparr>))"

definition nan_timer_sync_error :: "nan_timer_state \<Rightarrow> u64 \<Rightarrow> u64 \<Rightarrow> nan_timer_state option" where
  "nan_timer_sync_error state now_usec timestamp =
     (let synced = c_int (uint (nan_timer_get_synced_time_usec state now_usec));
          error_usec = c_int (uint (word_of_int synced - timestamp)) in
      if error_usec = - (2 ^ 31) then None
      else if \<bar>error_usec\<bar> > 512 * 1024 then Some state
      else do { (a, m) \<leftarrow> moving_average_add Signed_Int (average_error_state state)
                             (average_error state) error_usec;
                Some (state\<lparr>average_error := a, average_error_state := m\<rparr>) })"

definition nan_time_difference_tu :: "u64 \<Rightarrow> u64 \<Rightarrow> u32" where
  "nan_time_difference_tu old_time new_time = ucast (USEC_TO_TU new_time - USEC_TO_TU old_time)"

definition nan_time_difference_dw :: "u64 \<Rightarrow> u64 \<Rightarrow> u32" where
  "nan_time_difference_dw old_time new_time = nan_time_difference_tu old_time new_time div 512"

definition nan_timer_in_dw :: "nan_timer_state \<Rightarrow> u64 \<Rightarrow> bool" where
  "nan_timer_in_dw state now_usec =
     (let synced_time_tu = nan_timer_get_fixed_time_tu state now_usec;
          interval_time_tu = synced_time_tu mod NAN_DW_INTERVAL_TU
      in interval_time_tu \<le> NAN_DW_LENGTH_TU)"

definition nan_timer_in_dw0 :: "nan_timer_state \<Rightarrow> u64 \<Rightarrow> bool" where
  "nan_timer_in_dw0 state now_usec =
     (if \<not> nan_timer_in_dw state now_usec then False
      else let synced_time_tu = nan_timer_get_fixed_time_tu state now_usec;
               interval_count = (ucast (synced_time_tu div NAN_DW_INTERVAL_TU) :: u32);
               dw_start_time = (ucast (interval_count * 512) :: u64)
           in (dw_start_time AND 0x7fffff) = 0)"

definition nan_timer_in_current_dw :: "nan_timer_state \<Rightarrow> u64 \<Rightarrow> u64 \<Rightarrow> bool" where
  "nan_timer_in_current_dw state now_usec target_usec \<longleftrightarrow>
     nan_timer_in_dw state target_usec \<and> nan_time_difference_tu target_usec now_usec < 512 - 16"

definition nan_timer_dw_start_offset_tu :: "nan_timer_state \<Rightarrow> u64 \<Rightarrow> int" where
  "nan_timer_dw_start_offset_tu state now_usec =
     (let synced_time_tu = nan_timer_get_fixed_time_tu state now_usec;
          interval_time_tu = synced_time_tu mod NAN_DW_INTERVAL_TU
      in if interval_time_tu > NAN_DW_INTERVAL_TU div 2 then uint interval_time_tu - 512
         else uint interval_time_tu)"

definition nan_timer_next_dw_usec :: "nan_timer_state \<Rightarrow> u64 \<Rightarrow> u64" where
  "nan_timer_next_dw_usec state now_usec =
     (let synced_time_tu = nan_timer_get_fixed_time_tu state now_usec;
          interval_tu = NAN_DW_INTERVAL_TU;
          next_dw_tu = interval_tu - (synced_time_tu mod interval_tu)
      in TU_TO_USEC next_dw_tu)"

definition nan_timer_dw_end_usec :: "nan_timer_state \<Rightarrow> u64 \<Rightarrow> u64" where
  "nan_timer_dw_end_usec state now_usec =
     (if nan_timer_in_dw state now_usec
      then nan_timer_next_dw_usec state (now_usec - TU_TO_USEC NAN_DW_LENGTH_TU)
      else nan_timer_next_dw_usec state now_usec + TU_TO_USEC NAN_DW_LENGTH_TU)"

definition nan_timer_warmup_expired :: "nan_timer_state \<Rightarrow> u64 \<Rightarrow> bool \<times> nan_timer_state" where
  "nan_timer_warmup_expired state now_usec =
     (if \<not> warmup_done state
         \<and> now_usec - base_time_usec state \<ge> SEC_TO_USEC NAN_WARMUP_TIMER_SEC
      then (True, state\<lparr>warmup_done := True\<rparr>)
      else (False, state))"

definition nan_timer_warmup_cancel :: "nan_timer_state \<Rightarrow> nan_timer_state" where
  "nan_timer_warmup_cancel state = state\<lparr>warmup_done := True\<rparr>"

definition nan_timer_initial_scan_done :: "nan_timer_state \<Rightarrow> u64 \<Rightarrow> bool" where
  "nan_timer_initial_scan_done state now_usec \<longleftrightarrow>
     initial_scan_done state \<or> now_usec - base_time_usec state > NAN_INITIAL_SCAN_TIMER_USEC"

definition nan_timer_initial_scan_cancel :: "nan_timer_state \<Rightarrow> nan_timer_state" where
  "nan_timer_initial_scan_cancel state = state\<lparr>initial_scan_done := True\<rparr>"

definition nan_timer_can_send_discovery_beacon :: "nan_timer_state \<Rightarrow> u64 \<Rightarrow> bool" where
  "nan_timer_can_send_discovery_beacon state now_usec \<longleftrightarrow>
     now_usec - last_discovery_beacon_usec state \<ge> TU_TO_USEC NAN_DISCOVERY_BEACON_INTERVAL_TU"

definition nan_timer_next_discovery_beacon_usec :: "nan_timer_state \<Rightarrow> u64 \<Rightarrow> u64" where
  "nan_timer_next_discovery_beacon_usec state now_usec =
     (if nan_timer_can_send_discovery_beacon state now_usec then 0
      else now_usec - last_discovery_beacon_usec state
             + TU_TO_USEC NAN_DISCOVERY_BEACON_INTERVAL_TU)"

definition nan_timer_set_last_discovery_beacon_usec :: "nan_timer_state \<Rightarrow> u64 \<Rightarrow> nan_timer_state" where
  "nan_timer_set_last_discovery_beacon_usec state time_usec =
     state\<lparr>last_discovery_beacon_usec := time_usec\<rparr>"

section \<open>The grid of discovery windows\<close>

text \<open>The time unit within the 512-unit interval, and the number of that interval.\<close>

definition slot :: "nan_timer_state \<Rightarrow> u64 \<Rightarrow> nat" where
  "slot state now_usec = unat (nan_timer_get_fixed_time_usec state now_usec) div 1024 mod 512"

lemma unat_fixed_tu:
  "unat (nan_timer_get_fixed_time_tu state now_usec)
   = unat (nan_timer_get_fixed_time_usec state now_usec) div 1024"
  by (simp add: nan_timer_get_fixed_time_tu_def USEC_TO_TU_def unat_div)

lemma unat_slot: "unat (nan_timer_get_fixed_time_tu state now_usec mod 512) = slot state now_usec"
  by (simp add: slot_def unat_mod unat_fixed_tu)

lemma slot_less: "slot state now_usec < 512"
  by (simp add: slot_def)

lemma in_dw_slot: "nan_timer_in_dw state now_usec \<longleftrightarrow> slot state now_usec \<le> 16"
  by (simp add: nan_timer_in_dw_def Let_def word_le_nat_alt unat_slot)

lemma fixed_time_add:
  "nan_timer_get_fixed_time_usec state (now_usec + d) = nan_timer_get_fixed_time_usec state now_usec + d"
  by (simp add: nan_timer_get_fixed_time_usec_def)

text \<open>The length of the grid divides the range of the clock, so the grid survives its wrap.\<close>

lemma div_mod_wrap: "(x mod 2 ^ 64) div 1024 mod 512 = x div 1024 mod (512 :: nat)"
proof -
  have div_mod: "y mod (1024 * 512) div 1024 = y div 1024 mod 512" for y :: nat
    unfolding mod_mult2_eq by simp
  have "(x mod 2 ^ 64) mod (1024 * 512) = x mod (1024 * 512)"
    by (rule mod_mod_cancel) simp
  then show ?thesis by (simp only: div_mod [symmetric])
qed

lemma slot_add:
  "slot state (now_usec + d)
   = (unat (nan_timer_get_fixed_time_usec state now_usec) + unat d) div 1024 mod 512"
  by (simp add: slot_def fixed_time_add unat_add_mod div_mod_wrap [simplified])

lemma slot_add_tu:
  assumes "k < 2 ^ 54"
  shows "slot state (now_usec + TU_TO_USEC (of_nat k)) = (slot state now_usec + k) mod 512"
proof -
  have "unat (TU_TO_USEC (of_nat k)) = k * 1024"
    using assms by (simp add: TU_TO_USEC_def unat_mult_mod unat_of_nat_mod)
  then show ?thesis by (simp add: slot_add) (simp add: slot_def mod_simps add.commute)
qed

lemma next_dw_eq: "nan_timer_next_dw_usec state now_usec = TU_TO_USEC (of_nat (512 - slot state now_usec))"
proof -
  let ?x = "nan_timer_get_fixed_time_tu state now_usec mod 512"
  have x: "?x = of_nat (slot state now_usec)" unfolding unat_slot [symmetric] by simp
  have "(of_nat (512 - slot state now_usec) :: u64) = of_nat 512 - of_nat (slot state now_usec)"
    using slot_less [of state now_usec] by (intro of_nat_diff) simp
  then have "512 - ?x = of_nat (512 - slot state now_usec)" unfolding x by simp
  then show ?thesis by (simp add: nan_timer_next_dw_usec_def Let_def)
qed

lemma unat_TU_TO_USEC: "k < 2 ^ 54 \<Longrightarrow> unat (TU_TO_USEC (of_nat k)) = k * 1024"
  by (simp add: TU_TO_USEC_def unat_mult_mod unat_of_nat_mod)

lemma mod_512_shift: "s = (t + 16) mod 512 \<Longrightarrow> t < 512 \<Longrightarrow> t = (s + 496) mod (512 :: nat)"
  by (cases "t + 16 < 512") (auto simp: mod_if)

lemma slot_sub_dw:
  "slot state (now_usec - TU_TO_USEC NAN_DW_LENGTH_TU) = (slot state now_usec + 496) mod 512"
proof -
  define q where "q = now_usec - TU_TO_USEC 16"
  have "slot state (q + TU_TO_USEC (of_nat 16)) = (slot state q + 16) mod 512"
    by (rule slot_add_tu) simp
  moreover have "q + TU_TO_USEC (of_nat 16) = now_usec" by (simp add: q_def)
  ultimately have "slot state now_usec = (slot state q + 16) mod 512" by (simp only:)
  moreover have "slot state q < 512" by (rule slot_less)
  ultimately have "slot state q = (slot state now_usec + 496) mod 512" by (rule mod_512_shift)
  then show ?thesis by (simp only: q_def)
qed

section \<open>Properties\<close>

text \<open>
  After \<^verbatim>\<open>nan_timer_sync_time\<close> with a received timestamp, the synchronised time is that
  timestamp and advances with the clock from there, whatever it was before.
\<close>

lemma nan_timer_sync_adopts_timestamp:
  assumes "nan_timer_sync_time state now_usec timestamp = Some state'"
  shows "nan_timer_get_synced_time_usec state' (now_usec + d) = timestamp + d"
  using assms by (auto simp: nan_timer_get_synced_time_usec_def nan_timer_sync_time_def Let_def split: if_splits)

text \<open>
  C32: The delay \<^verbatim>\<open>nan_timer_next_dw_usec\<close> yields reaches the first time unit of a discovery
  window, is positive, and is at most one interval; even when the 64-bit clock wraps.
\<close>

theorem nan_timer_next_dw_reaches_dw:
  "slot state (now_usec + nan_timer_next_dw_usec state now_usec) = 0
   \<and> nan_timer_in_dw state (now_usec + nan_timer_next_dw_usec state now_usec)
   \<and> unat (nan_timer_next_dw_usec state now_usec) = (512 - slot state now_usec) * 1024"
proof -
  have "slot state (now_usec + nan_timer_next_dw_usec state now_usec) = 0"
    using slot_less [of state now_usec] unfolding next_dw_eq by (subst slot_add_tu) auto
  moreover have "unat (nan_timer_next_dw_usec state now_usec) = (512 - slot state now_usec) * 1024"
    unfolding next_dw_eq by (rule unat_TU_TO_USEC) simp
  ultimately show ?thesis by (simp add: in_dw_slot)
qed

text \<open>
  The delay \<^verbatim>\<open>nan_timer_dw_end_usec\<close> yields always reaches the last time unit of a
  discovery window. Before that unit it is the end of the current window, but in the last unit
  itself, which still counts as inside the window, it is the end of the next one, a whole
  interval later.
\<close>

lemma nan_timer_dw_end_reaches_end:
  "unat (nan_timer_dw_end_usec state now_usec) = 1024 *
     (if slot state now_usec < 16 then 16 - slot state now_usec
      else if slot state now_usec = 16 then 512 else 528 - slot state now_usec)
   \<and> slot state (now_usec + nan_timer_dw_end_usec state now_usec) = 16"
proof -
  let ?s = "slot state now_usec"
  define k where "k = (if ?s < 16 then 16 - ?s else if ?s = 16 then 512 else 528 - ?s)"
  have s: "?s < 512" by (rule slot_less)
  have "nan_timer_dw_end_usec state now_usec = TU_TO_USEC (of_nat k)"
  proof (cases "?s \<le> 16")
    case True
    then have "512 - (?s + 496) mod 512 = k" unfolding k_def using s by (auto simp: mod_if)
    then show ?thesis
      using True by (simp add: nan_timer_dw_end_usec_def in_dw_slot next_dw_eq slot_sub_dw)
  next
    case False
    then have "k = (512 - ?s) + 16" using s by (simp add: k_def)
    then show ?thesis
      using False by (simp add: nan_timer_dw_end_usec_def in_dw_slot next_dw_eq TU_TO_USEC_def
          distrib_right)
  qed
  moreover have "k < 2 ^ 54" "(?s + k) mod 512 = 16" using s by (auto simp: k_def)
  ultimately show ?thesis
    by (simp add: unat_TU_TO_USEC slot_add_tu flip: k_def)
qed

text \<open>
  Although the number of the interval is truncated to 32 bits and multiplied in 32 bits,
  \<^verbatim>\<open>nan_timer_in_dw0\<close> holds exactly in the discovery windows of every 16384th interval.
\<close>

lemma nan_timer_in_dw0_exact:
  "nan_timer_in_dw0 state now_usec \<longleftrightarrow> slot state now_usec \<le> 16
     \<and> unat (nan_timer_get_fixed_time_usec state now_usec) div (1024 * 512) mod 2 ^ 14 = 0"
proof -
  let ?n = "unat (nan_timer_get_fixed_time_usec state now_usec) div (1024 * 512)"
  let ?c = "ucast (nan_timer_get_fixed_time_tu state now_usec div 512) :: u32"
  have c: "unat ?c = ?n mod 2 ^ 32"
    unfolding div_mult2_eq by (simp add: unat_ucast_mod unat_div unat_fixed_tu)
  have "unat (?c * 512) = (?n * 512) mod 2 ^ 32"
    by (simp add: unat_mult_mod c mod_simps)
  then have m: "unat (ucast (?c * 512) :: u64) = (?n * 512) mod 2 ^ 32"
    by (simp add: unat_ucast_up)
  have "(ucast (?c * 512) AND 0x7fffff :: u64) = take_bit 23 (ucast (?c * 512))"
    by (simp add: take_bit_eq_mask mask_eq_exp_minus_1)
  then have "(ucast (?c * 512) AND 0x7fffff :: u64) = 0 \<longleftrightarrow> unat (ucast (?c * 512) :: u64) mod 2 ^ 23 = 0"
    by (simp add: take_bit_eq_mod word_unat_eq_iff unat_mod)
  also have "unat (ucast (?c * 512) :: u64) mod 2 ^ 23 = (?n * 512) mod 2 ^ 23"
    unfolding m by (rule mod_mod_cancel) simp
  also have "(?n * 512) mod 2 ^ 23 = (?n mod 2 ^ 14) * 512"
    using mult_mod_left [of ?n "2 ^ 14" 512] by simp
  finally show ?thesis
    by (simp add: nan_timer_in_dw0_def Let_def in_dw_slot)
qed

text \<open>
  C36: When a discovery beacon may not be sent yet, \<^verbatim>\<open>nan_timer_next_discovery_beacon_usec\<close>
  yields the elapsed time plus the interval, where the remaining time is the interval minus the
  elapsed time: the beacon would be allowed that much earlier.
\<close>

theorem nan_timer_next_discovery_beacon_too_late:
  assumes "\<not> nan_timer_can_send_discovery_beacon state now_usec"
  shows "\<exists>remaining. unat (now_usec - last_discovery_beacon_usec state) + unat remaining = 100 * 1024
    \<and> nan_timer_can_send_discovery_beacon state (now_usec + remaining)
    \<and> unat (nan_timer_next_discovery_beacon_usec state now_usec)
        = unat remaining + 2 * unat (now_usec - last_discovery_beacon_usec state)"
proof -
  define e where "e = now_usec - last_discovery_beacon_usec state"
  have e: "unat e < 102400"
    using assms by (simp add: nan_timer_can_send_discovery_beacon_def TU_TO_USEC_def e_def
        word_le_nat_alt not_le)
  define r :: u64 where "r = of_nat (102400 - unat e)"
  have r: "unat r = 102400 - unat e" unfolding r_def by (rule unat_size_of_nat) simp
  have "now_usec + r - last_discovery_beacon_usec state = e + r" by (simp add: e_def)
  moreover have "unat (e + r) = 102400" using e r by (simp add: unat_add_mod)
  ultimately have "unat (now_usec + r - last_discovery_beacon_usec state) = 102400" by (simp only:)
  then have "nan_timer_can_send_discovery_beacon state (now_usec + r)"
    by (simp add: nan_timer_can_send_discovery_beacon_def TU_TO_USEC_def word_le_nat_alt)
  moreover have "unat (nan_timer_next_discovery_beacon_usec state now_usec) = unat r + 2 * unat e"
    using assms e r by (simp add: nan_timer_next_discovery_beacon_usec_def TU_TO_USEC_def
        unat_add_mod flip: e_def)
  ultimately show ?thesis using e r by (intro exI [of _ r]) (simp add: e_def)
qed

theorem nan_timer_next_discovery_beacon_too_late_witness:
  "\<exists>state remaining. unat (1000 - last_discovery_beacon_usec state) + unat remaining = 100 * 1024
    \<and> nan_timer_can_send_discovery_beacon state (1000 + remaining)
    \<and> unat (nan_timer_next_discovery_beacon_usec state 1000)
        = unat remaining + 2 * unat (1000 - last_discovery_beacon_usec state)"
proof -
  let ?s = "\<lparr>tm_now_usec = 0, base_time_usec = 0, last_discovery_beacon_usec = 400,
      warmup_done = False, initial_scan_done = True, average_error = 0,
      average_error_state = snd (moving_average_init 32)\<rparr>"
  have "\<not> nan_timer_can_send_discovery_beacon ?s 1000"
    by (simp add: nan_timer_can_send_discovery_beacon_def TU_TO_USEC_def)
  then show ?thesis by (intro exI [of _ ?s]) (rule nan_timer_next_discovery_beacon_too_late)
qed

end
