(* ===== verification/Nan_Lists.thy ===== *)
theory Nan_Lists
  imports Nan_Prelude
begin

text \<open>
  The singly linked list of \<^verbatim>\<open>src/src/list.c\<close>, twice.

  The first half is the code: nodes in a store, \<^verbatim>\<open>next\<close> pointers, loops that chase them.
  The second half is the sequence of data pointers that the clients (peers, services, event
  listeners) see, with the iteration macros of \<^verbatim>\<open>src/src/list.h\<close>. The locale
  \<open>list_adt\<close> states what a client relies on; its interpretation on the node-level functions
  is the refinement proof, and \<open>list_for_each_refines\<close> does the same for the macros.
\<close>

section \<open>The linked list of list.c\<close>

datatype list_status = LIST_OK | LIST_OMEM | LIST_NOT_FOUND

record list_entry =
  le_data :: ptr
  le_next :: ptr

type_synonym list_heap = "list_entry store"

definition list_entry_new :: "ptr \<Rightarrow> list_heap \<Rightarrow> ptr \<times> list_heap" where
  "list_entry_new item h = store_alloc \<lparr>le_data = item, le_next = NULL\<rparr> h"

text \<open>A list is its sentinel entry; the sentinel's own data is never used.\<close>

definition list_init :: "list_heap \<Rightarrow> ptr \<times> list_heap" where
  "list_init h = list_entry_new NULL h"

partial_function (option) list_free_loop ::
  "ptr \<Rightarrow> bool \<Rightarrow> ptr list \<Rightarrow> list_heap \<Rightarrow> (ptr list \<times> list_heap) option" where
  "list_free_loop current free_data freed h =
     (if current = NULL then Some (freed, h)
      else case cells h current of None \<Rightarrow> None
      | Some e \<Rightarrow>
          (case store_free current h of None \<Rightarrow> None
           | Some h' \<Rightarrow>
               list_free_loop (le_next e) free_data
                 (if free_data \<and> le_data e \<noteq> NULL then freed @ [le_data e] else freed) h'))"

text \<open>The data objects live in other stores; the result lists the pointers passed to \<^verbatim>\<open>free\<close>.\<close>

definition list_free :: "ptr \<Rightarrow> bool \<Rightarrow> list_heap \<Rightarrow> (ptr list \<times> list_heap) option" where
  "list_free l free_data h =
     do { e \<leftarrow> cells h l;
          (freed, h) \<leftarrow> list_free_loop (le_next e) free_data [] h;
          h \<leftarrow> store_free l h;
          Some (freed, h) }"

partial_function (option) list_len_loop :: "ptr \<Rightarrow> u32 \<Rightarrow> list_heap \<Rightarrow> u32 option" where
  "list_len_loop current len h =
     (if current = NULL then Some len
      else case cells h current of None \<Rightarrow> None
      | Some e \<Rightarrow> list_len_loop (le_next e) (len + 1) h)"

definition list_len :: "ptr \<Rightarrow> list_heap \<Rightarrow> u32 option" where
  "list_len l h = do { e \<leftarrow> cells h l; list_len_loop (le_next e) 0 h }"

partial_function (option) list_add_loop :: "ptr \<Rightarrow> list_heap \<Rightarrow> ptr option" where
  "list_add_loop current h =
     (case cells h current of None \<Rightarrow> None
      | Some e \<Rightarrow> if le_next e \<noteq> NULL then list_add_loop (le_next e) h else Some current)"

definition list_add :: "ptr \<Rightarrow> ptr \<Rightarrow> list_heap \<Rightarrow> (list_status \<times> list_heap) option" where
  "list_add l item h =
     do { current \<leftarrow> list_add_loop l h;
          (let (n, h) = list_entry_new item h in
           do { e \<leftarrow> cells h current;
                h \<leftarrow> store_put current (e\<lparr>le_next := n\<rparr>) h;
                Some (LIST_OK, h) }) }"

partial_function (option) list_remove_loop ::
  "ptr \<Rightarrow> ptr \<Rightarrow> ptr \<Rightarrow> list_heap \<Rightarrow> (list_status \<times> list_heap) option" where
  "list_remove_loop prev current item h =
     (if current = NULL then Some (LIST_NOT_FOUND, h)
      else case cells h current of None \<Rightarrow> None
      | Some e \<Rightarrow>
          if le_data e = item
          then do { p \<leftarrow> cells h prev;
                    h \<leftarrow> store_put prev (p\<lparr>le_next := le_next e\<rparr>) h;
                    h \<leftarrow> store_free current h;
                    Some (LIST_OK, h) }
          else list_remove_loop current (le_next e) item h)"

definition list_remove :: "ptr \<Rightarrow> ptr \<Rightarrow> list_heap \<Rightarrow> (list_status \<times> list_heap) option" where
  "list_remove l item h = do { e \<leftarrow> cells h l; list_remove_loop l (le_next e) item h }"

text \<open>An iterator is the entry it will yield next.\<close>

definition list_it_new :: "ptr \<Rightarrow> list_heap \<Rightarrow> ptr option" where
  "list_it_new l h = do { e \<leftarrow> cells h l; Some (le_next e) }"

definition list_it_next :: "ptr \<Rightarrow> list_heap \<Rightarrow> (list_status \<times> ptr \<times> ptr) option" where
  "list_it_next it h =
     (if it = NULL then Some (LIST_NOT_FOUND, NULL, it)
      else do { e \<leftarrow> cells h it; Some (LIST_OK, le_data e, le_next e) })"

text \<open>
  The loop of the macro \<^verbatim>\<open>LIST_FOR_EACH\<close>. The body works on a state that does not
  contain the nodes; it yields whether it left the loop by \<^verbatim>\<open>break\<close>, and the new state.
\<close>

partial_function (option) list_for_each ::
  "ptr \<Rightarrow> (ptr \<Rightarrow> 's \<Rightarrow> (bool \<times> 's) option) \<Rightarrow> list_heap \<Rightarrow> 's \<Rightarrow> 's option" where
  "list_for_each it body h s =
     (case list_it_next it h of None \<Rightarrow> None
      | Some (st, item, it') \<Rightarrow>
          (case st of
             LIST_OK \<Rightarrow>
               (case body item s of None \<Rightarrow> None
                | Some (broke, s') \<Rightarrow> if broke then Some s' else list_for_each it' body h s')
           | LIST_OMEM \<Rightarrow> Some s
           | LIST_NOT_FOUND \<Rightarrow> Some s))"

section \<open>The sequence a list holds\<close>

text \<open>
  \<open>lseg h p nx q\<close>: following \<^verbatim>\<open>next\<close> from \<open>p\<close> to \<open>q\<close> meets the entries and data
  pointers \<open>nx\<close>, in this order.
\<close>

fun lseg :: "list_heap \<Rightarrow> ptr \<Rightarrow> (ptr \<times> ptr) list \<Rightarrow> ptr \<Rightarrow> bool" where
  "lseg h p [] q \<longleftrightarrow> p = q"
| "lseg h p ((n, x) # nx) q \<longleftrightarrow>
     p = n \<and> n \<noteq> NULL \<and>
     (\<exists>e. cells h n = Some e \<and> le_data e = x \<and> lseg h (le_next e) nx q)"

definition list_rep :: "list_heap \<Rightarrow> ptr \<Rightarrow> (ptr \<times> ptr) list \<Rightarrow> bool" where
  "list_rep h l nx \<longleftrightarrow>
     wf_store h \<and> distinct (l # map fst nx) \<and>
     (\<exists>e. cells h l = Some e \<and> lseg h (le_next e) nx NULL)"

text \<open>The data pointers the list with sentinel \<open>l\<close> holds.\<close>

definition holds :: "list_heap \<Rightarrow> ptr \<Rightarrow> ptr list \<Rightarrow> bool" where
  "holds h l xs \<longleftrightarrow> (\<exists>nx. list_rep h l nx \<and> map snd nx = xs)"

lemma lseg_append: "lseg h p (nx @ ny) q \<longleftrightarrow> (\<exists>m. lseg h p nx m \<and> lseg h m ny q)"
proof (induction nx arbitrary: p)
  case Nil
  then show ?case by simp
next
  case (Cons a nx)
  then show ?case by (cases a) auto
qed

lemma lseg_cong:
  "(\<And>n. n \<in> fst ` set nx \<Longrightarrow> cells h' n = cells h n) \<Longrightarrow> lseg h' p nx q = lseg h p nx q"
proof (induction nx arbitrary: p)
  case Nil
  then show ?case by simp
next
  case (Cons a nx)
  then show ?case by (cases a) auto
qed

lemma lseg_NULL [simp]: "lseg h 0 nx 0 \<longleftrightarrow> nx = []"
  by (cases nx) auto

lemma lseg_nonNULL:
  assumes "p \<noteq> 0" "lseg h p nx 0"
  obtains x e nx' where "nx = (p, x) # nx'" "cells h p = Some e" "le_data e = x"
    "lseg h (le_next e) nx' 0"
proof (cases nx)
  case Nil
  with assms show ?thesis by simp
next
  case (Cons a nx')
  with assms that show ?thesis by (cases a) auto
qed

fun remove1_snd :: "ptr \<Rightarrow> (ptr \<times> ptr) list \<Rightarrow> (ptr \<times> ptr) list" where
  "remove1_snd item [] = []"
| "remove1_snd item ((n, x) # nx) = (if x = item then nx else (n, x) # remove1_snd item nx)"

lemma map_snd_remove1_snd: "map snd (remove1_snd item nx) = remove1 item (map snd nx)"
  by (induction item nx rule: remove1_snd.induct) auto

lemma fst_remove1_snd: "fst ` set (remove1_snd item nx) \<subseteq> fst ` set nx"
  by (induction item nx rule: remove1_snd.induct) auto

lemma distinct_remove1_snd:
  "distinct (map fst nx) \<Longrightarrow> distinct (map fst (remove1_snd item nx))"
proof (induction item nx rule: remove1_snd.induct)
  case (2 item n x nx)
  then show ?case using fst_remove1_snd [of item nx] by auto
qed simp

section \<open>The operations implement sequences\<close>

lemma list_init_holds:
  "wf_store h \<Longrightarrow> list_init h = (l, h') \<Longrightarrow> holds h' l []"
  by (auto simp: list_init_def list_entry_new_def holds_def list_rep_def store_alloc_def
      wf_store_def less_Suc_eq split: if_splits)

lemma list_len_loop_lseg:
  "lseg h p nx 0 \<Longrightarrow> list_len_loop p len h = Some (len + of_nat (length nx))"
proof (induction nx arbitrary: p len)
  case Nil
  then show ?case by (simp add: list_len_loop.simps)
next
  case (Cons a nx)
  obtain n x where [simp]: "a = (n, x)" by (cases a)
  from Cons.prems obtain e where "p = n" "n \<noteq> 0" "cells h n = Some e" "lseg h (le_next e) nx 0"
    by auto
  with Cons.IH [of "le_next e" "len + 1"] show ?case
    by (subst list_len_loop.simps) (simp add: add.assoc)
qed

lemma list_len_holds: "holds h l xs \<Longrightarrow> list_len l h = Some (of_nat (length xs))"
  by (auto simp: holds_def list_rep_def list_len_def list_len_loop_lseg)

lemma list_add_loop_lseg:
  "cells h p = Some e \<Longrightarrow> lseg h (le_next e) nx 0 \<Longrightarrow>
     list_add_loop p h = Some (last (p # map fst nx))"
proof (induction nx arbitrary: p e)
  case Nil
  then show ?case by (simp add: list_add_loop.simps)
next
  case (Cons a nx)
  obtain n x where [simp]: "a = (n, x)" by (cases a)
  from Cons.prems obtain e' where "le_next e = n" "n \<noteq> 0" "cells h n = Some e'"
    "lseg h (le_next e') nx 0"
    by auto
  with Cons.IH [of n e'] Cons.prems(1) show ?case
    by (subst list_add_loop.simps) simp
qed

lemma list_add_rep:
  assumes "list_rep h l nx"
  obtains n h' where "list_add l item h = Some (LIST_OK, h')" "list_rep h' l (nx @ [(n, item)])"
    "n = brk h" "\<And>q. q \<notin> set (l # map fst nx) \<Longrightarrow> q \<noteq> n \<Longrightarrow> cells h' q = cells h q"
proof -
  from assms obtain e where wf: "wf_store h" and d: "distinct (l # map fst nx)"
    and e: "cells h l = Some e" and seg: "lseg h (le_next e) nx 0"
    by (auto simp: list_rep_def)
  let ?all = "(l, le_data e) # nx"
  have l: "l \<noteq> 0" using wf e by (metis less_irrefl wf_store_def)
  have all: "lseg h l ?all 0" using e seg l by simp
  obtain pre c x where sp: "?all = pre @ [(c, x)]"
    by (metis list.distinct(1) rev_exhaust surj_pair)
  with all obtain ec where pre: "lseg h l pre c" and ec: "cells h c = Some ec" "le_data ec = x"
      "le_next ec = 0" and c0: "c \<noteq> 0"
    by (auto simp: lseg_append)
  have "l # map fst nx = map fst pre @ [c]"
    using arg_cong [OF sp, of "map fst"] by simp
  then have lst: "list_add_loop l h = Some c"
    using list_add_loop_lseg [OF e seg] by simp
  let ?n = "brk h"
  have fresh: "cells h ?n = None" by (rule wf_store_fresh [OF wf])
  have nc: "?n \<noteq> c" using fresh ec by auto
  define h' where "h' = h\<lparr>cells := (cells h)(?n \<mapsto> \<lparr>le_data = item, le_next = 0\<rparr>,
      c \<mapsto> ec\<lparr>le_next := ?n\<rparr>), brk := Suc ?n\<rparr>"
  have add: "list_add l item h = Some (LIST_OK, h')"
    using nc ec fresh
    by (simp add: list_add_def lst list_entry_new_def store_alloc_def store_put_def h'_def Let_def)
  have "store_put c (ec\<lparr>le_next := ?n\<rparr>) (snd (store_alloc \<lparr>le_data = item, le_next = 0\<rparr> h)) = Some h'"
    using nc ec by (simp add: store_put_def store_alloc_def h'_def)
  then have wf': "wf_store h'"
    by (metis prod.collapse wf wf_store_alloc wf_store_put)
  have live: "\<And>q. q \<in> fst ` set ?all \<Longrightarrow> cells h q \<noteq> None"
  proof -
    have "lseg h p ny q \<Longrightarrow> m \<in> fst ` set ny \<Longrightarrow> cells h m \<noteq> None" for p ny q m
    proof (induction ny arbitrary: p)
      case (Cons a ny)
      then show ?case by (cases a) auto
    qed simp
    with all show "\<And>q. q \<in> fst ` set ?all \<Longrightarrow> cells h q \<noteq> None" by blast
  qed
  have nfresh: "?n \<notin> fst ` set ?all" using live fresh by metis
  have dall: "distinct (map fst ?all)" using d by simp
  have cpre: "c \<notin> fst ` set pre" "?n \<notin> fst ` set pre"
    using dall nfresh unfolding sp by auto
  have pre': "lseg h' l pre c"
  proof -
    have "cells h' m = cells h m" if "m \<in> fst ` set pre" for m
    proof -
      from that cpre have "m \<noteq> c" "m \<noteq> ?n" by blast+
      then show ?thesis by (simp add: h'_def)
    qed
    with pre show ?thesis by (simp add: lseg_cong [of pre h' h])
  qed
  have "lseg h' l (?all @ [(?n, item)]) 0"
    unfolding sp using pre' c0 ec nc wf
    by (simp add: lseg_append) (auto simp: h'_def wf_store_def)
  then have "\<exists>e'. cells h' l = Some e' \<and> lseg h' (le_next e') (nx @ [(?n, item)]) 0"
    by auto
  moreover have "distinct (l # map fst (nx @ [(?n, item)]))"
    using d nfresh by auto
  ultimately have rep: "list_rep h' l (nx @ [(?n, item)])"
    using wf' by (simp add: list_rep_def)
  have "c \<in> fst ` set ?all" unfolding sp by simp
  then have frame: "\<And>q. q \<notin> set (l # map fst nx) \<Longrightarrow> q \<noteq> ?n \<Longrightarrow> cells h' q = cells h q"
    by (auto simp: h'_def)
  from that [OF add rep refl frame] show thesis .
qed

lemma list_remove_loop_lseg:
  "cells h prev = Some ep \<Longrightarrow> lseg h (le_next ep) nx 0 \<Longrightarrow> distinct (prev # map fst nx) \<Longrightarrow>
   wf_store h \<Longrightarrow>
   (if item \<in> snd ` set nx
    then \<exists>h' ep'. list_remove_loop prev (le_next ep) item h = Some (LIST_OK, h') \<and>
           cells h' prev = Some ep' \<and> le_data ep' = le_data ep \<and>
           lseg h' (le_next ep') (remove1_snd item nx) 0 \<and> wf_store h' \<and>
           (\<forall>q. q \<notin> set (prev # map fst nx) \<longrightarrow> cells h' q = cells h q)
    else list_remove_loop prev (le_next ep) item h = Some (LIST_NOT_FOUND, h))"
proof (induction nx arbitrary: prev ep)
  case Nil
  then show ?case by (simp add: list_remove_loop.simps)
next
  case (Cons a nx)
  obtain n x where a [simp]: "a = (n, x)" by (cases a)
  from Cons.prems obtain e where e: "le_next ep = n" "n \<noteq> 0" "cells h n = Some e" "le_data e = x"
    "lseg h (le_next e) nx 0" and np: "n \<noteq> prev" "n \<notin> set (map fst nx)" "prev \<notin> set (map fst nx)"
    by auto
  show ?case
  proof (cases "x = item")
    case True
    let ?h = "h\<lparr>cells := (cells h)(prev \<mapsto> ep\<lparr>le_next := le_next e\<rparr>, n := None)\<rparr>"
    have "list_remove_loop prev (le_next ep) item h = Some (LIST_OK, ?h)"
      using e np True Cons.prems(1)
      by (subst list_remove_loop.simps) (simp add: store_simps)
    moreover have "lseg ?h (le_next e) nx 0"
      using e(5) np by (subst lseg_cong [of nx ?h h]) auto
    moreover have "wf_store ?h"
      using Cons.prems(1,4) by (auto simp: wf_store_def split: if_splits)
    ultimately show ?thesis using True np by auto
  next
    case False
    have step: "list_remove_loop prev (le_next ep) item h = list_remove_loop n (le_next e) item h"
      using e False by (subst list_remove_loop.simps) simp
    have "distinct (n # map fst nx)" using Cons.prems(3) by simp
    from Cons.IH [OF e(3,5) this Cons.prems(4)]
    show ?thesis using step False e np Cons.prems(1)
      by (auto split: if_splits)
  qed
qed

lemma list_remove_rep:
  assumes "list_rep h l nx" "item \<in> set (map snd nx)"
  obtains h' where "list_remove l item h = Some (LIST_OK, h')"
    "list_rep h' l (remove1_snd item nx)"
    "\<And>q. q \<notin> set (l # map fst nx) \<Longrightarrow> cells h' q = cells h q"
proof -
  from assms obtain e where wf: "wf_store h" and d: "distinct (l # map fst nx)"
    and e: "cells h l = Some e" and seg: "lseg h (le_next e) nx 0"
    by (auto simp: list_rep_def)
  from list_remove_loop_lseg [OF e seg d wf, of item] assms(2)
  obtain h' e' where h': "list_remove_loop l (le_next e) item h = Some (LIST_OK, h')"
    "cells h' l = Some e'" "lseg h' (le_next e') (remove1_snd item nx) 0" "wf_store h'"
    "\<forall>q. q \<notin> set (l # map fst nx) \<longrightarrow> cells h' q = cells h q"
    by auto
  have "distinct (l # map fst (remove1_snd item nx))"
    using d distinct_remove1_snd [of nx item] fst_remove1_snd [of item nx] by auto
  with h' have "list_rep h' l (remove1_snd item nx)" by (simp add: list_rep_def)
  moreover have "list_remove l item h = Some (LIST_OK, h')"
    using e h'(1) by (simp add: list_remove_def)
  ultimately show thesis using that h'(5) by blast
qed

lemma list_remove_absent:
  assumes "list_rep h l nx" "item \<notin> set (map snd nx)"
  shows "list_remove l item h = Some (LIST_NOT_FOUND, h)"
proof -
  from assms obtain e where wf: "wf_store h" and d: "distinct (l # map fst nx)"
    and e: "cells h l = Some e" and seg: "lseg h (le_next e) nx 0"
    by (auto simp: list_rep_def)
  from list_remove_loop_lseg [OF e seg d wf, of item] assms(2) e show ?thesis
    by (auto simp: list_remove_def)
qed

section \<open>The interface its clients rely on\<close>

text \<open>Appending the items of a sequence one by one.\<close>

fun add_seq ::
  "('l \<Rightarrow> ptr \<Rightarrow> 'h \<Rightarrow> (list_status \<times> 'h) option) \<Rightarrow> 'l \<Rightarrow> ptr list \<Rightarrow> 'h \<Rightarrow> 'h option" where
  "add_seq add l [] h = Some h"
| "add_seq add l (x # xs) h =
     (case add l x h of None \<Rightarrow> None | Some (st, h') \<Rightarrow> add_seq add l xs h')"

text \<open>Any sequence of calls, and what it should do to the sequence held.\<close>

datatype list_cmd = Add ptr | Remove ptr | Len

datatype list_answer = Status list_status | Length u32

fun run_cmds ::
  "('l \<Rightarrow> ptr \<Rightarrow> 'h \<Rightarrow> (list_status \<times> 'h) option) \<Rightarrow> ('l \<Rightarrow> ptr \<Rightarrow> 'h \<Rightarrow> (list_status \<times> 'h) option)
   \<Rightarrow> ('l \<Rightarrow> 'h \<Rightarrow> u32 option) \<Rightarrow> 'l \<Rightarrow> list_cmd list \<Rightarrow> 'h \<Rightarrow> (list_answer list \<times> 'h) option" where
  "run_cmds add remove len l [] h = Some ([], h)"
| "run_cmds add remove len l (Add x # cs) h =
     (case add l x h of None \<Rightarrow> None
      | Some (st, h') \<Rightarrow> map_option (\<lambda>(as, h''). (Status st # as, h'')) (run_cmds add remove len l cs h'))"
| "run_cmds add remove len l (Remove x # cs) h =
     (case remove l x h of None \<Rightarrow> None
      | Some (st, h') \<Rightarrow> map_option (\<lambda>(as, h''). (Status st # as, h'')) (run_cmds add remove len l cs h'))"
| "run_cmds add remove len l (Len # cs) h =
     (case len l h of None \<Rightarrow> None
      | Some n \<Rightarrow> map_option (\<lambda>(as, h''). (Length n # as, h'')) (run_cmds add remove len l cs h))"

fun seq_cmds :: "list_cmd list \<Rightarrow> ptr list \<Rightarrow> list_answer list \<times> ptr list" where
  "seq_cmds [] xs = ([], xs)"
| "seq_cmds (Add x # cs) xs =
     (let (as, ys) = seq_cmds cs (xs @ [x]) in (Status LIST_OK # as, ys))"
| "seq_cmds (Remove x # cs) xs =
     (let (as, ys) = seq_cmds cs (remove1 x xs)
      in (Status (if x \<in> set xs then LIST_OK else LIST_NOT_FOUND) # as, ys))"
| "seq_cmds (Len # cs) xs =
     (let (as, ys) = seq_cmds cs xs in (Length (of_nat (length xs)) # as, ys))"

locale list_adt =
  fixes rep :: "'h \<Rightarrow> 'l \<Rightarrow> ptr list \<Rightarrow> bool"
    and add :: "'l \<Rightarrow> ptr \<Rightarrow> 'h \<Rightarrow> (list_status \<times> 'h) option"
    and remove :: "'l \<Rightarrow> ptr \<Rightarrow> 'h \<Rightarrow> (list_status \<times> 'h) option"
    and len :: "'l \<Rightarrow> 'h \<Rightarrow> u32 option"
  assumes add_law:
      "rep h l xs \<Longrightarrow> \<exists>h'. add l x h = Some (LIST_OK, h') \<and> rep h' l (xs @ [x])"
    and remove_law:
      "rep h l xs \<Longrightarrow> x \<in> set xs \<Longrightarrow>
         \<exists>h'. remove l x h = Some (LIST_OK, h') \<and> rep h' l (remove1 x xs)"
    and remove_absent: "rep h l xs \<Longrightarrow> x \<notin> set xs \<Longrightarrow> remove l x h = Some (LIST_NOT_FOUND, h)"
    and len_law: "rep h l xs \<Longrightarrow> len l h = Some (of_nat (length xs))"
begin

lemma add_seq_rep:
  "rep h l xs \<Longrightarrow> \<exists>h'. add_seq add l ys h = Some h' \<and> rep h' l (xs @ ys)"
proof (induction ys arbitrary: h xs)
  case Nil
  then show ?case by simp
next
  case (Cons y ys)
  from add_law [OF Cons.prems] obtain h1
    where "add l y h = Some (LIST_OK, h1)" "rep h1 l (xs @ [y])" by blast
  moreover from Cons.IH [OF this(2)] obtain h2
    where "add_seq add l ys h1 = Some h2" "rep h2 l ((xs @ [y]) @ ys)" by blast
  ultimately show ?case by simp
qed

lemma add_seq_len:
  "rep h l xs \<Longrightarrow> \<exists>h'. add_seq add l ys h = Some h' \<and> len l h' = Some (of_nat (length xs + length ys))"
  using add_seq_rep [of h l xs ys] by (force dest: len_law)

lemma add_then_remove:
  "rep h l xs \<Longrightarrow> x \<notin> set xs \<Longrightarrow>
     \<exists>h1 h2. add l x h = Some (LIST_OK, h1) \<and> remove l x h1 = Some (LIST_OK, h2) \<and> rep h2 l xs"
proof -
  assume "rep h l xs" and new: "x \<notin> set xs"
  then obtain h1 where h1: "add l x h = Some (LIST_OK, h1)" "rep h1 l (xs @ [x])"
    using add_law by blast
  then obtain h2 where "remove l x h1 = Some (LIST_OK, h2)" "rep h2 l (remove1 x (xs @ [x]))"
    using remove_law [of h1 l "xs @ [x]" x] by auto
  with h1 new show ?thesis by (auto simp: remove1_append)
qed

text \<open>A list behaves like the sequence it holds under every sequence of calls.\<close>

lemma run_cmds_seq:
  "rep h l xs \<Longrightarrow> \<exists>h'. run_cmds add remove len l cs h = Some (fst (seq_cmds cs xs), h')
     \<and> rep h' l (snd (seq_cmds cs xs))"
proof (induction cs arbitrary: h xs)
  case Nil
  then show ?case by simp
next
  case (Cons c cs)
  show ?case
  proof (cases c)
    case (Add x)
    from add_law [OF Cons.prems, of x] obtain h1
      where "add l x h = Some (LIST_OK, h1)" "rep h1 l (xs @ [x])" by blast
    with Cons.IH [of h1 "xs @ [x]"] Add show ?thesis by (auto simp: case_prod_beta Let_def)
  next
    case (Remove x)
    have "\<exists>h1. remove l x h = Some (if x \<in> set xs then LIST_OK else LIST_NOT_FOUND, h1)
        \<and> rep h1 l (remove1 x xs)"
      using remove_law [OF Cons.prems, of x] remove_absent [OF Cons.prems, of x] Cons.prems
      by (cases "x \<in> set xs") (auto simp: remove1_idem)
    then obtain h1 where "remove l x h = Some (if x \<in> set xs then LIST_OK else LIST_NOT_FOUND, h1)"
      "rep h1 l (remove1 x xs)" by blast
    with Cons.IH [of h1 "remove1 x xs"] Remove show ?thesis by (auto simp: case_prod_beta Let_def)
  next
    case Len
    with Cons.IH [OF Cons.prems] len_law [OF Cons.prems] show ?thesis
      by (auto simp: case_prod_beta Let_def)
  qed
qed

end

interpretation nan_list: list_adt holds list_add list_remove list_len
proof
  fix h l xs x
  assume "holds h l xs"
  then show "\<exists>h'. list_add l x h = Some (LIST_OK, h') \<and> holds h' l (xs @ [x])"
    unfolding holds_def by (metis list_add_rep map_append list.simps(8,9) snd_conv)
next
  fix h l xs x
  assume "holds h l xs" and "x \<in> set xs"
  then show "\<exists>h'. list_remove l x h = Some (LIST_OK, h') \<and> holds h' l (remove1 x xs)"
    unfolding holds_def by (metis list_remove_rep map_snd_remove1_snd)
next
  fix h l xs x
  assume "holds h l xs" and "x \<notin> set xs"
  then show "list_remove l x h = Some (LIST_NOT_FOUND, h)"
    unfolding holds_def by (metis list_remove_absent)
next
  fix h l xs
  assume "holds h l xs"
  then show "list_len l h = Some (of_nat (length xs))"
    by (rule list_len_holds)
qed

section \<open>The iteration macros over the sequence\<close>

text \<open>
  \<^verbatim>\<open>LIST_FOR_EACH\<close> over the sequence of data pointers; a body yields whether it left
  the loop by \<^verbatim>\<open>break\<close>. \<open>list_for_each_refines\<close> justifies it for a body that does not
  change the list it walks.
\<close>

fun LIST_LOOP :: "(ptr \<Rightarrow> 's \<Rightarrow> (bool \<times> 's) option) \<Rightarrow> ptr list \<Rightarrow> 's \<Rightarrow> 's option" where
  "LIST_LOOP body [] s = Some s"
| "LIST_LOOP body (x # xs) s =
     (case body x s of None \<Rightarrow> None
      | Some (broke, s') \<Rightarrow> if broke then Some s' else LIST_LOOP body xs s')"

definition LIST_FOR_EACH :: "(ptr \<Rightarrow> 's \<Rightarrow> 's option) \<Rightarrow> ptr list \<Rightarrow> 's \<Rightarrow> 's option" where
  "LIST_FOR_EACH f xs s = LIST_LOOP (\<lambda>x s. map_option (Pair False) (f x s)) xs s"

definition LIST_FILTER_FOR_EACH ::
  "(ptr \<Rightarrow> 's \<Rightarrow> bool option) \<Rightarrow> (ptr \<Rightarrow> 's \<Rightarrow> 's option) \<Rightarrow> ptr list \<Rightarrow> 's \<Rightarrow> 's option" where
  "LIST_FILTER_FOR_EACH c f xs s =
     LIST_FOR_EACH (\<lambda>x s. case c x s of None \<Rightarrow> None | Some b \<Rightarrow> if b then f x s else Some s) xs s"

text \<open>\<^verbatim>\<open>LIST_FIND\<close> leaves the first item that satisfies the condition, or \<^const>\<open>NULL\<close>.\<close>

definition LIST_FIND :: "(ptr \<Rightarrow> bool option) \<Rightarrow> ptr list \<Rightarrow> ptr option" where
  "LIST_FIND c xs =
     map_option (\<lambda>(found, item). if found then item else NULL)
       (LIST_LOOP (\<lambda>x _. map_option (\<lambda>b. (b, (b, x))) (c x)) xs (False, NULL))"

text \<open>\<^verbatim>\<open>LIST_REMOVE\<close>: the item found, and the list without it.\<close>

definition LIST_REMOVE :: "(ptr \<Rightarrow> bool option) \<Rightarrow> ptr list \<Rightarrow> (ptr \<times> ptr list) option" where
  "LIST_REMOVE c xs =
     (case LIST_FIND c xs of None \<Rightarrow> None
      | Some item \<Rightarrow> Some (item, if item \<noteq> NULL then remove1 item xs else xs))"

lemma LIST_FOR_EACH_simps [simp]:
  "LIST_FOR_EACH f [] s = Some s"
  "LIST_FOR_EACH f (x # xs) s =
     (case f x s of None \<Rightarrow> None | Some s' \<Rightarrow> LIST_FOR_EACH f xs s')"
  by (simp_all add: LIST_FOR_EACH_def split: option.splits)

lemma LIST_FILTER_FOR_EACH_simps [simp]:
  "LIST_FILTER_FOR_EACH c f [] s = Some s"
  "LIST_FILTER_FOR_EACH c f (x # xs) s =
     (case c x s of None \<Rightarrow> None
      | Some b \<Rightarrow> (case (if b then f x s else Some s) of None \<Rightarrow> None
                  | Some s' \<Rightarrow> LIST_FILTER_FOR_EACH c f xs s'))"
  by (auto simp: LIST_FILTER_FOR_EACH_def split: option.splits)

lemma LIST_FOR_EACH_append:
  "LIST_FOR_EACH f (xs @ ys) s =
     (case LIST_FOR_EACH f xs s of None \<Rightarrow> None | Some s' \<Rightarrow> LIST_FOR_EACH f ys s')"
  by (induction xs arbitrary: s) (auto split: option.splits)

text \<open>A loop keeps what its body keeps.\<close>

lemma LIST_FOR_EACH_invariant:
  "LIST_FOR_EACH f xs s = Some s' \<Longrightarrow> P s \<Longrightarrow>
   (\<And>x s s'. x \<in> set xs \<Longrightarrow> P s \<Longrightarrow> f x s = Some s' \<Longrightarrow> P s') \<Longrightarrow> P s'"
proof (induction xs arbitrary: s)
  case Nil
  then show ?case by simp
next
  case (Cons x xs)
  from Cons.prems(1) obtain s1 where s1: "f x s = Some s1" "LIST_FOR_EACH f xs s1 = Some s'"
    by (auto split: option.splits)
  show ?case
  proof (rule Cons.IH [OF s1(2)])
    show "P s1" using Cons.prems(2,3) s1(1) by (meson list.set_intros(1))
  qed (use Cons.prems(3) in \<open>meson list.set_intros(2)\<close>)
qed

lemma LIST_FOR_EACH_total:
  "P s \<Longrightarrow> (\<And>x s. x \<in> set xs \<Longrightarrow> P s \<Longrightarrow> \<exists>s'. f x s = Some s' \<and> P s') \<Longrightarrow>
   \<exists>s'. LIST_FOR_EACH f xs s = Some s' \<and> P s'"
proof (induction xs arbitrary: s)
  case Nil
  then show ?case by simp
next
  case (Cons x xs)
  then obtain s1 where "f x s = Some s1" "P s1" by (meson list.set_intros(1))
  with Cons show ?case by (metis LIST_FOR_EACH_simps(2) list.set_intros(2) option.simps(5))
qed

lemma LIST_FIND_Nil [simp]: "LIST_FIND c [] = Some NULL"
  by (simp add: LIST_FIND_def)

lemma LIST_FIND_Cons [simp]:
  "LIST_FIND c (x # xs) =
     (case c x of None \<Rightarrow> None | Some b \<Rightarrow> if b then Some x else LIST_FIND c xs)"
proof -
  have gen: "xs \<noteq> [] \<or> \<not> fst a \<Longrightarrow>
     map_option (\<lambda>(found, item). if found then item else 0)
       (LIST_LOOP (\<lambda>x _. map_option (\<lambda>b. (b, (b, x))) (c x)) xs a) = LIST_FIND c xs" for a
    unfolding LIST_FIND_def
    by (cases xs; cases a) (auto split: option.splits)
  show ?thesis
    using gen [of "(False, x)"] by (auto simp: LIST_FIND_def split: option.splits)
qed

text \<open>When every condition is defined, the macro is the library's search.\<close>

lemma LIST_FIND_find:
  "(\<And>x. x \<in> set xs \<Longrightarrow> c x = Some (P x)) \<Longrightarrow>
     LIST_FIND c xs = Some (case find P xs of None \<Rightarrow> NULL | Some x \<Rightarrow> x)"
  by (induction xs) auto

lemma list_for_each_lseg:
  "lseg h it nx 0 \<Longrightarrow> list_for_each it body h s = LIST_LOOP body (map snd nx) s"
proof (induction nx arbitrary: it s)
  case Nil
  then show ?case by (subst list_for_each.simps) (simp add: list_it_next_def)
next
  case (Cons a nx)
  obtain n x where [simp]: "a = (n, x)" by (cases a)
  from Cons.prems obtain e where "it = n" "n \<noteq> 0" "cells h n = Some e" "le_data e = x"
    "lseg h (le_next e) nx 0" by auto
  with Cons.IH [of "le_next e"] show ?case
    by (subst list_for_each.simps) (auto simp: list_it_next_def split: option.splits)
qed

lemma list_for_each_refines:
  assumes "holds h l xs"
  shows "\<exists>it. list_it_new l h = Some it \<and> list_for_each it body h s = LIST_LOOP body xs s"
  using assms by (auto simp: holds_def list_rep_def list_it_new_def list_for_each_lseg)

lemma list_free_loop_lseg:
  "lseg h p nx 0 \<Longrightarrow> distinct (map fst nx) \<Longrightarrow>
     \<exists>h'. list_free_loop p b fr h =
            Some (fr @ (if b then filter (\<lambda>x. x \<noteq> 0) (map snd nx) else []), h')
        \<and> (\<forall>q. cells h' q = (if q \<in> fst ` set nx then None else cells h q))"
proof (induction nx arbitrary: p fr h)
  case Nil
  then show ?case by (simp add: list_free_loop.simps)
next
  case (Cons a nx)
  obtain n x where [simp]: "a = (n, x)" by (cases a)
  from Cons.prems obtain e where e: "p = n" "n \<noteq> 0" "cells h n = Some e" "le_data e = x"
    "lseg h (le_next e) nx 0" "n \<notin> fst ` set nx" "distinct (map fst nx)" by auto
  let ?h = "h\<lparr>cells := (cells h)(n := None)\<rparr>"
  have "lseg ?h (le_next e) nx 0"
    using e(5,6) by (subst lseg_cong [of nx ?h h]) auto
  from Cons.IH [OF this e(7), of "if b \<and> x \<noteq> 0 then fr @ [x] else fr"] e
  show ?case
    by (subst list_free_loop.simps) (auto simp: store_simps)
qed

text \<open>Freeing a list releases every entry once and hands each data pointer to \<^verbatim>\<open>free\<close>.\<close>

lemma list_free_rep:
  assumes "list_rep h l nx"
  shows "\<exists>h'. list_free l b h = Some (if b then filter (\<lambda>x. x \<noteq> 0) (map snd nx) else [], h')
      \<and> (\<forall>q. cells h' q = (if q \<in> set (l # map fst nx) then None else cells h q))"
proof -
  from assms obtain e where d: "distinct (l # map fst nx)"
    and e: "cells h l = Some e" and seg: "lseg h (le_next e) nx 0"
    by (auto simp: list_rep_def)
  from list_free_loop_lseg [OF seg, of b "[]"] d obtain h1 where
    h1: "list_free_loop (le_next e) b [] h
          = Some (if b then filter (\<lambda>x. x \<noteq> 0) (map snd nx) else [], h1)"
      "\<forall>q. cells h1 q = (if q \<in> fst ` set nx then None else cells h q)"
    by auto
  have "cells h1 l = Some e" using h1(2) d e by auto
  with h1 e show ?thesis
    by (auto simp: list_free_def store_simps)
qed

section \<open>Properties\<close>

text \<open>
  C20: The linked list is a refinement of the sequence. Starting from \<^verbatim>\<open>list_init\<close>, every
  sequence of \<^verbatim>\<open>list_add\<close>, \<^verbatim>\<open>list_remove\<close> and \<^verbatim>\<open>list_len\<close> calls runs without an
  invalid access, returns what the sequence operations return, and an iteration over the final
  list visits exactly the elements of the final sequence, in order.
\<close>

theorem list_refines_sequence:
  assumes "wf_store h" "list_init h = (l, h0)"
  shows "\<exists>h' it. run_cmds list_add list_remove list_len l cs h0 = Some (fst (seq_cmds cs []), h')
    \<and> list_it_new l h' = Some it
    \<and> list_for_each it body h' s = LIST_LOOP body (snd (seq_cmds cs [])) s"
proof -
  from nan_list.run_cmds_seq [OF list_init_holds [OF assms], of cs] obtain h'
    where "run_cmds list_add list_remove list_len l cs h0 = Some (fst (seq_cmds cs []), h')"
      "holds h' l (snd (seq_cmds cs []))" by blast
  with list_for_each_refines [of h' l "snd (seq_cmds cs [])" body s] show ?thesis by blast
qed

theorem list_refines_sequence_witness:
  "\<exists>l h0 h' it. list_init store_empty = (l, h0)
    \<and> run_cmds list_add list_remove list_len l [Add 7, Add 8, Remove 7, Remove 5, Len] h0
        = Some ([Status LIST_OK, Status LIST_OK, Status LIST_OK, Status LIST_NOT_FOUND, Length 1], h')
    \<and> list_it_new l h' = Some it
    \<and> list_for_each it (\<lambda>x s. Some (False, s + x)) h' 0 = Some (8 :: nat)"
proof -
  obtain l h0 where init: "list_init store_empty = (l, h0)" by fastforce
  from list_refines_sequence [OF wf_store_empty init,
      of "[Add 7, Add 8, Remove 7, Remove 5, Len]" "\<lambda>x s. Some (False, s + x)" "0 :: nat"]
  show ?thesis using init by auto
qed

text \<open>
  \<^verbatim>\<open>list_free\<close> on a list frees its sentinel and every entry exactly once, touches
  nothing else, and hands each data pointer that is not null to \<^verbatim>\<open>free\<close> in order when
  asked to.
\<close>

lemma list_free_releases:
  assumes "list_rep h l nx"
  shows "\<exists>h'. list_free l b h = Some (if b then filter (\<lambda>x. x \<noteq> NULL) (map snd nx) else [], h')
      \<and> (\<forall>q. cells h' q = (if q \<in> set (l # map fst nx) then None else cells h q))"
  using assms by (rule list_free_rep)

end
