(* ===== verification/Nan_Peer.thy ===== *)
theory Nan_Peer
  imports Nan_Lists Nan_Utils Nan_Moving_Average
begin

text \<open>
  The table of known peers (\<^verbatim>\<open>src/src/peer.c\<close>): peer records in a store, their addresses in
  the list of the state, and the callbacks for added and removed peers, whose calls are
  recorded in order. The invariant \<open>peers_ok\<close> makes the table a map from addresses to peers.
\<close>

section \<open>State\<close>

abbreviation (input) PEER_DEFAULT_TIMEOUT_USEC :: u64 where "PEER_DEFAULT_TIMEOUT_USEC \<equiv> 5242880"
abbreviation (input) PEER_DEFAULT_CLEAN_INTERVAL_USEC :: u64
  where "PEER_DEFAULT_CLEAN_INTERVAL_USEC \<equiv> 1048576"

record nan_peer =
  pe_cluster_id :: ether_addr
  pe_addr :: ether_addr
  pe_ipv6_addr :: "u8 list"
  pe_last_update :: u64
  pe_last_timestamp :: u64
  pe_master_preference :: u8
  pe_last_master_preference :: u8
  pe_random_factor :: u8
  pe_anchor_master_rank :: u64
  pe_last_anchor_master_rank :: u64
  pe_ambtt :: u32
  pe_hop_count :: u8
  pe_master_candidate :: bool
  pe_rssi_average :: int
  pe_rssi_average_state :: moving_average
  pe_availability_all_slots :: bool
  pe_availability_entries :: ptr

datatype peer_status = PEER_ADD | PEER_UPDATE | PEER_OK | PEER_MISSING | PEER_INTERNAL

record nan_peer_state =
  peers :: "ptr list"
  timeout_usec :: u64
  clean_interval_usec :: u64
  peer_add_callback :: ptr
  peer_add_callback_data :: ptr
  peer_remove_callback :: ptr
  peer_remove_callback_data :: ptr

type_synonym peer_heap = "nan_peer store"

text \<open>A call of a callback: the function, the peer and the data.\<close>

type_synonym peer_call = "ptr \<times> ptr \<times> ptr"

section \<open>Operations\<close>

definition nan_peer_state_init :: "nan_peer_state \<Rightarrow> nan_peer_state" where
  "nan_peer_state_init state =
     state\<lparr>peers := [], timeout_usec := PEER_DEFAULT_TIMEOUT_USEC,
       clean_interval_usec := PEER_DEFAULT_CLEAN_INTERVAL_USEC,
       peer_add_callback := NULL, peer_add_callback_data := NULL,
       peer_remove_callback := NULL, peer_remove_callback_data := NULL\<rparr>"

definition nan_peer_set_callbacks ::
  "nan_peer_state \<Rightarrow> ptr \<Rightarrow> ptr \<Rightarrow> ptr \<Rightarrow> ptr \<Rightarrow> nan_peer_state" where
  "nan_peer_set_callbacks state add_callback add_data remove_callback remove_data =
     state\<lparr>peer_add_callback := add_callback, peer_add_callback_data := add_data,
       peer_remove_callback := remove_callback, peer_remove_callback_data := remove_data\<rparr>"

text \<open>\<open>junk\<close> is what \<^verbatim>\<open>malloc\<close> returned; three fields are left as they are.\<close>

definition nan_peer_new :: "nan_peer \<Rightarrow> ether_addr \<Rightarrow> ether_addr \<Rightarrow> nan_peer" where
  "nan_peer_new junk addr cluster =
     (let (average, m) = moving_average_init 32
      in junk\<lparr>pe_addr := addr, pe_cluster_id := cluster,
           pe_ipv6_addr := ether_addr_to_ipv6_addr addr,
           pe_last_update := 0, pe_last_timestamp := 0,
           pe_master_preference := 0, pe_last_master_preference := 0, pe_random_factor := 0,
           pe_anchor_master_rank := 0, pe_ambtt := 0, pe_hop_count := 0,
           pe_master_candidate := False,
           pe_rssi_average := average, pe_rssi_average_state := m\<rparr>)"

definition nan_peer_get ::
  "nan_peer_state \<Rightarrow> peer_heap \<Rightarrow> ether_addr \<Rightarrow> (peer_status \<times> ptr) option" where
  "nan_peer_get state h addr =
     do { peer \<leftarrow> LIST_FIND (\<lambda>p. do { v \<leftarrow> cells h p; Some (ether_addr_equal (pe_addr v) addr) })
                     (peers state);
          Some (if peer \<noteq> NULL then (PEER_OK, peer) else (PEER_MISSING, peer)) }"

definition nan_peer_add ::
  "nan_peer \<Rightarrow> nan_peer_state \<Rightarrow> peer_heap \<Rightarrow> ether_addr \<Rightarrow> ether_addr \<Rightarrow> u64
   \<Rightarrow> (peer_status \<times> nan_peer_state \<times> peer_heap \<times> peer_call list) option" where
  "nan_peer_add junk state h addr cluster now_usec =
     do { (status, peer) \<leftarrow> nan_peer_get state h addr;
          (let (peer, h, calls) =
             (if status = PEER_MISSING
              then let (peer, h) = store_alloc (nan_peer_new junk addr cluster) h
                   in (peer, h, if peer_add_callback state \<noteq> NULL
                                then [(peer_add_callback state, peer, peer_add_callback_data state)]
                                else [])
              else (peer, h, []))
           in do { v \<leftarrow> cells h peer;
                   h \<leftarrow> store_put peer (v\<lparr>pe_last_update := now_usec\<rparr>) h;
                   if status = PEER_MISSING
                   then Some (PEER_ADD, state\<lparr>peers := peers state @ [peer]\<rparr>, h, calls)
                   else do { v \<leftarrow> cells h peer;
                             h \<leftarrow> (if \<not> ether_addr_equal (pe_cluster_id v) cluster
                                  then store_put peer (v\<lparr>pe_cluster_id := cluster\<rparr>) h
                                  else Some h);
                             Some (PEER_UPDATE, state, h, calls) } }) }"

definition nan_peer_set_master_indication :: "nan_peer \<Rightarrow> u8 \<Rightarrow> u8 \<Rightarrow> nan_peer" where
  "nan_peer_set_master_indication peer master_preference random_factor =
     (let peer = peer\<lparr>pe_last_master_preference := pe_master_preference peer\<rparr>
      in peer\<lparr>pe_master_preference := master_preference, pe_random_factor := random_factor\<rparr>)"

definition nan_peer_set_anchor_master_information ::
  "nan_peer \<Rightarrow> u64 \<Rightarrow> u32 \<Rightarrow> u8 \<Rightarrow> nan_peer" where
  "nan_peer_set_anchor_master_information peer anchor_master_rank ambtt hop_count =
     (let peer = peer\<lparr>pe_last_anchor_master_rank := pe_anchor_master_rank peer\<rparr>;
          peer = peer\<lparr>pe_anchor_master_rank := anchor_master_rank, pe_hop_count := hop_count\<rparr>
      in if hop_count = 0 then peer\<lparr>pe_ambtt := ucast (pe_last_timestamp peer)\<rparr>
         else peer\<lparr>pe_ambtt := ambtt\<rparr>)"

definition nan_peer_set_beacon_information :: "nan_peer \<Rightarrow> int \<Rightarrow> u64 \<Rightarrow> nan_peer option" where
  "nan_peer_set_beacon_information peer rssi timestamp =
     do { (a, m) \<leftarrow> moving_average_add Signed_Char (pe_rssi_average_state peer) (pe_rssi_average peer) rssi;
          Some (peer\<lparr>pe_rssi_average := a, pe_rssi_average_state := m,
                     pe_last_timestamp := timestamp\<rparr>) }"

text \<open>The callback is called without a test; a call through a null pointer is undefined.\<close>

definition nan_peer_remove ::
  "nan_peer_state \<Rightarrow> peer_heap \<Rightarrow> ptr \<Rightarrow> (nan_peer_state \<times> peer_heap \<times> peer_call list) option" where
  "nan_peer_remove state h peer =
     (let state = state\<lparr>peers := remove1 peer (peers state)\<rparr> in
      if peer_remove_callback state = NULL then None
      else do { h \<leftarrow> store_free peer h;
                Some (state, h, [(peer_remove_callback state, peer, peer_remove_callback_data state)]) })"

definition peer_stale :: "nan_peer_state \<Rightarrow> peer_heap \<Rightarrow> u64 \<Rightarrow> ptr \<Rightarrow> bool option" where
  "peer_stale state h now_usec peer =
     do { v \<leftarrow> cells h peer; Some (pe_last_update v < now_usec - timeout_usec state) }"

partial_function (option) nan_peers_clean_loop ::
  "nan_peer_state \<Rightarrow> peer_heap \<Rightarrow> u64 \<Rightarrow> peer_call list
   \<Rightarrow> (nan_peer_state \<times> peer_heap \<times> peer_call list) option" where
  "nan_peers_clean_loop state h now_usec calls =
     (case LIST_FIND (peer_stale state h now_usec) (peers state) of None \<Rightarrow> None
      | Some peer \<Rightarrow>
          if peer \<noteq> NULL
          then case nan_peer_remove state h peer of None \<Rightarrow> None
               | Some (state', h', c) \<Rightarrow> nan_peers_clean_loop state' h' now_usec (calls @ c)
          else Some (state, h, calls))"

definition nan_peers_clean ::
  "nan_peer_state \<Rightarrow> peer_heap \<Rightarrow> u64 \<Rightarrow> (nan_peer_state \<times> peer_heap \<times> peer_call list) option" where
  "nan_peers_clean state h now_usec = nan_peers_clean_loop state h now_usec []"

section \<open>The table as a map\<close>

definition peer_at :: "peer_heap \<Rightarrow> ptr \<Rightarrow> nan_peer" where
  "peer_at h p = the (cells h p)"

definition peers_ok :: "nan_peer_state \<Rightarrow> peer_heap \<Rightarrow> bool" where
  "peers_ok state h \<longleftrightarrow> wf_store h \<and> (\<forall>p \<in> set (peers state). cells h p \<noteq> None)
     \<and> distinct (map (pe_addr \<circ> peer_at h) (peers state))"

lemma peers_ok_init: "wf_store h \<Longrightarrow> peers_ok (nan_peer_state_init state) h"
  by (simp add: peers_ok_def nan_peer_state_init_def)

lemma peers_ok_distinct: "peers_ok state h \<Longrightarrow> distinct (peers state)"
  by (simp add: peers_ok_def distinct_map)

lemma peers_ok_live: "peers_ok state h \<Longrightarrow> p \<in> set (peers state) \<Longrightarrow> cells h p = Some (peer_at h p)"
  by (auto simp: peers_ok_def peer_at_def)

lemma peers_ok_nonNULL: "peers_ok state h \<Longrightarrow> p \<in> set (peers state) \<Longrightarrow> p \<noteq> 0"
  by (metis option.distinct(1) peers_ok_def wf_store_NULL)

lemma peers_ok_fresh: "peers_ok state h \<Longrightarrow> brk h \<notin> set (peers state)"
  using wf_store_fresh [of h] by (auto simp: peers_ok_def)

text \<open>The peer of an address, when it is known.\<close>

definition lookup_peer :: "nan_peer_state \<Rightarrow> peer_heap \<Rightarrow> ether_addr \<Rightarrow> nan_peer option" where
  "lookup_peer state h addr =
     map_option (peer_at h) (find (\<lambda>p. pe_addr (peer_at h p) = addr) (peers state))"

lemma find_NoneD: "find P xs = None \<Longrightarrow> x \<in> set xs \<Longrightarrow> \<not> P x"
  by (auto simp: find_None_iff)

lemma find_append:
  "find P (xs @ ys) = (case find P xs of None \<Rightarrow> find P ys | Some x \<Rightarrow> Some x)"
  by (induction xs) auto

lemma find_SomeD: "find P xs = Some x \<Longrightarrow> x \<in> set xs"
  by (auto simp: find_Some_iff)

lemma nan_peer_get_find:
  assumes "peers_ok state h"
  shows "nan_peer_get state h addr =
    Some (case find (\<lambda>p. pe_addr (peer_at h p) = addr) (peers state) of
            None \<Rightarrow> (PEER_MISSING, NULL) | Some p \<Rightarrow> (PEER_OK, p))"
proof -
  have "LIST_FIND (\<lambda>p. do { v \<leftarrow> cells h p; Some (ether_addr_equal (pe_addr v) addr) }) (peers state)
      = Some (case find (\<lambda>p. pe_addr (peer_at h p) = addr) (peers state) of None \<Rightarrow> NULL | Some p \<Rightarrow> p)"
    using assms by (intro LIST_FIND_find) (simp add: peers_ok_live)
  moreover have "p \<noteq> 0" if "find (\<lambda>p. pe_addr (peer_at h p) = addr) (peers state) = Some p" for p
    using peers_ok_nonNULL [OF assms find_SomeD [OF that]] .
  ultimately show ?thesis by (auto simp: nan_peer_get_def split: option.splits)
qed

lemma find_peer_iff:
  assumes "peers_ok state h"
  shows "find (\<lambda>p. pe_addr (peer_at h p) = a) (peers state) = Some p
    \<longleftrightarrow> p \<in> set (peers state) \<and> pe_addr (peer_at h p) = a"
proof -
  have "inj_on (pe_addr \<circ> peer_at h) (set (peers state))"
    using assms by (simp add: peers_ok_def distinct_map)
  then have inj: "p \<in> set (peers state) \<Longrightarrow> q \<in> set (peers state) \<Longrightarrow>
      pe_addr (peer_at h p) = pe_addr (peer_at h q) \<Longrightarrow> p = q" for p q
    by (simp add: inj_on_def)
  show ?thesis
  proof
    assume "find (\<lambda>p. pe_addr (peer_at h p) = a) (peers state) = Some p"
    then show "p \<in> set (peers state) \<and> pe_addr (peer_at h p) = a"
      by (auto simp: find_Some_iff)
  next
    assume p: "p \<in> set (peers state) \<and> pe_addr (peer_at h p) = a"
    then obtain q where q: "find (\<lambda>p. pe_addr (peer_at h p) = a) (peers state) = Some q"
      by (cases "find (\<lambda>p. pe_addr (peer_at h p) = a) (peers state)") (auto simp: find_None_iff)
    then have "q \<in> set (peers state)" "pe_addr (peer_at h q) = a" by (auto simp: find_Some_iff)
    with inj [of p q] p q show "find (\<lambda>p. pe_addr (peer_at h p) = a) (peers state) = Some p" by simp
  qed
qed

lemma lookup_peer_Some:
  "peers_ok state h \<Longrightarrow> lookup_peer state h a = Some v
     \<longleftrightarrow> (\<exists>p \<in> set (peers state). peer_at h p = v \<and> pe_addr v = a)"
  by (auto simp: lookup_peer_def find_peer_iff)

text \<open>Writing a known peer without changing its address.\<close>

lemma peer_at_put: "peer_at (h\<lparr>cells := (cells h)(p \<mapsto> v)\<rparr>) q = (if q = p then v else peer_at h q)"
  by (simp add: peer_at_def)

lemma peers_ok_put:
  assumes ok: "peers_ok state h" and p: "p \<in> set (peers state)"
    and v: "pe_addr v = pe_addr (peer_at h p)" and h': "h' = h\<lparr>cells := (cells h)(p \<mapsto> v)\<rparr>"
  shows "peers_ok state h'"
    and "lookup_peer state h' = (lookup_peer state h)(pe_addr v \<mapsto> v)"
proof -
  have addr: "pe_addr (peer_at h' q) = pe_addr (peer_at h q)" for q
    using v by (simp add: h' peer_at_put)
  then have same: "map (pe_addr \<circ> peer_at h') (peers state) = map (pe_addr \<circ> peer_at h) (peers state)"
    by simp
  have "store_put p v h = Some h'"
    using peers_ok_live [OF ok p] by (simp add: store_put_def h')
  with ok have "wf_store h'" unfolding peers_ok_def by (blast intro: wf_store_put)
  moreover have "\<forall>q \<in> set (peers state). cells h' q \<noteq> None"
    using ok by (auto simp: peers_ok_def h')
  ultimately show ok': "peers_ok state h'"
    using ok by (simp only: peers_ok_def same)
  show "lookup_peer state h' = (lookup_peer state h)(pe_addr v \<mapsto> v)"
  proof
    fix a
    show "lookup_peer state h' a = ((lookup_peer state h)(pe_addr v \<mapsto> v)) a"
    proof (cases "a = pe_addr v")
      case True
      with v have "find (\<lambda>q. pe_addr (peer_at h q) = a) (peers state) = Some p"
        using find_peer_iff [OF ok] p by simp
      then show ?thesis using True by (simp add: lookup_peer_def addr) (simp add: h' peer_at_put)
    next
      case False
      show ?thesis
      proof (cases "find (\<lambda>q. pe_addr (peer_at h q) = a) (peers state)")
        case None
        then show ?thesis using False by (simp add: lookup_peer_def addr)
      next
        case (Some q)
        then have "pe_addr (peer_at h q) = a" using find_peer_iff [OF ok] by simp
        with False v have "q \<noteq> p" by auto
        with Some False show ?thesis by (simp add: lookup_peer_def addr) (simp add: h' peer_at_put)
      qed
    qed
  qed
qed

text \<open>Appending a new peer.\<close>

lemma peers_ok_append:
  assumes ok: "peers_ok state h" and new: "lookup_peer state h (pe_addr v) = None"
    and alloc: "store_alloc v h = (p, h')"
  shows "peers_ok (state\<lparr>peers := peers state @ [p]\<rparr>) h'"
    and "lookup_peer (state\<lparr>peers := peers state @ [p]\<rparr>) h' = (lookup_peer state h)(pe_addr v \<mapsto> v)"
    and "p \<notin> set (peers state)" and "peer_at h' p = v" and "cells h' p = Some v"
proof -
  show np: "p \<notin> set (peers state)"
    using peers_ok_fresh [OF ok] alloc by (simp add: store_alloc_def)
  have at: "peer_at h' q = (if q = p then v else peer_at h q)" for q
    using alloc by (auto simp: store_alloc_def peer_at_def)
  then show "peer_at h' p = v" by simp
  show "cells h' p = Some v" using alloc by (auto simp: store_alloc_def)
  have fresh: "pe_addr v \<notin> pe_addr ` peer_at h ` set (peers state)"
    using new by (auto simp: lookup_peer_def find_None_iff)
  have same: "map (pe_addr \<circ> peer_at h') (peers state) = map (pe_addr \<circ> peer_at h) (peers state)"
    using np at by auto
  have live: "\<forall>q \<in> set (peers state). cells h' q \<noteq> None"
    using ok alloc by (auto simp: store_alloc_def peers_ok_def)
  have "distinct (map (pe_addr \<circ> peer_at h') (peers state @ [p]))"
    using ok fresh at unfolding map_append same by (simp add: peers_ok_def image_comp)
  moreover have "wf_store h'" using ok wf_store_alloc [OF _ alloc] by (simp add: peers_ok_def)
  moreover have "cells h' p \<noteq> None" using alloc by (auto simp: store_alloc_def)
  ultimately show ok': "peers_ok (state\<lparr>peers := peers state @ [p]\<rparr>) h'"
    using live by (simp add: peers_ok_def)
  show "lookup_peer (state\<lparr>peers := peers state @ [p]\<rparr>) h' = (lookup_peer state h)(pe_addr v \<mapsto> v)"
  proof
    fix a
    have "find (\<lambda>q. pe_addr (peer_at h' q) = a) (peers state)
        = find (\<lambda>q. pe_addr (peer_at h q) = a) (peers state)"
      using np at by (intro find_cong) auto
    moreover have "find (\<lambda>q. pe_addr (peer_at h q) = a) (peers state) = None" if "a = pe_addr v"
      using fresh that by (fastforce simp: find_None_iff image_iff)
    ultimately show "lookup_peer (state\<lparr>peers := peers state @ [p]\<rparr>) h' a
        = ((lookup_peer state h)(pe_addr v \<mapsto> v)) a"
      using np at find_peer_iff [OF ok, of a]
      by (cases "find (\<lambda>q. pe_addr (peer_at h q) = a) (peers state)")
        (auto simp: lookup_peer_def find_append)
  qed
qed

lemma pe_addr_new [simp]: "pe_addr (nan_peer_new junk addr cluster) = addr"
  by (simp add: nan_peer_new_def moving_average_init_def)

text \<open>What adding makes of the table.\<close>

definition added_peer :: "nan_peer \<Rightarrow> nan_peer option \<Rightarrow> ether_addr \<Rightarrow> ether_addr \<Rightarrow> u64 \<Rightarrow> nan_peer" where
  "added_peer junk old addr cluster now_usec =
     (case old of None \<Rightarrow> (nan_peer_new junk addr cluster)\<lparr>pe_last_update := now_usec\<rparr>
      | Some v \<Rightarrow> v\<lparr>pe_last_update := now_usec, pe_cluster_id := cluster\<rparr>)"

lemma nan_peer_add_missing:
  assumes ok: "peers_ok state h" and new: "lookup_peer state h addr = None"
  shows "\<exists>state' h' calls. nan_peer_add junk state h addr cluster now_usec
      = Some (PEER_ADD, state', h', calls) \<and> peers_ok state' h'
    \<and> lookup_peer state' h' = (lookup_peer state h)(addr \<mapsto> added_peer junk None addr cluster now_usec)
    \<and> state' = state\<lparr>peers := peers state @ [brk h]\<rparr>
    \<and> calls = (if peer_add_callback state \<noteq> NULL
               then [(peer_add_callback state, brk h, peer_add_callback_data state)] else [])"
proof -
  let ?v = "nan_peer_new junk addr cluster"
  obtain p h1 where alloc: "store_alloc ?v h = (p, h1)" by fastforce
  then have p: "p = brk h" by (simp add: store_alloc_def)
  note app = peers_ok_append [OF ok _ alloc] 
  have new': "lookup_peer state h (pe_addr ?v) = None" using new by simp
  let ?s = "state\<lparr>peers := peers state @ [p]\<rparr>"
  let ?h = "h1\<lparr>cells := (cells h1)(p \<mapsto> ?v\<lparr>pe_last_update := now_usec\<rparr>)\<rparr>"
  have ps: "p \<in> set (peers ?s)" by simp
  note put = peers_ok_put [OF app(1) [OF new'] ps, of "?v\<lparr>pe_last_update := now_usec\<rparr>" ?h]
  have get: "nan_peer_get state h addr = Some (PEER_MISSING, NULL)"
    using new by (simp add: nan_peer_get_find [OF ok] lookup_peer_def)
  have "nan_peer_add junk state h addr cluster now_usec = Some (PEER_ADD, ?s, ?h,
      if peer_add_callback state \<noteq> NULL
      then [(peer_add_callback state, p, peer_add_callback_data state)] else [])"
    using app(5) [OF new'] by (simp add: nan_peer_add_def get alloc store_put_def)
  moreover have "peers_ok ?s ?h" using put(1) app(4) [OF new'] by simp
  moreover have "lookup_peer ?s ?h = (lookup_peer state h)(addr \<mapsto> ?v\<lparr>pe_last_update := now_usec\<rparr>)"
    using put(2) app(2,4) [OF new'] by simp
  ultimately show ?thesis by (auto simp: added_peer_def p)
qed

lemma nan_peer_add_known:
  assumes ok: "peers_ok state h" and old: "lookup_peer state h addr = Some v"
  shows "\<exists>h'. nan_peer_add junk state h addr cluster now_usec = Some (PEER_UPDATE, state, h', [])
    \<and> peers_ok state h'
    \<and> lookup_peer state h' = (lookup_peer state h)(addr \<mapsto> added_peer junk (Some v) addr cluster now_usec)"
proof -
  from old obtain p where fnd: "find (\<lambda>p. pe_addr (peer_at h p) = addr) (peers state) = Some p"
    and v: "v = peer_at h p" by (auto simp: lookup_peer_def)
  then have p: "p \<in> set (peers state)" "pe_addr v = addr" by (auto simp: find_peer_iff [OF ok])
  have get: "nan_peer_get state h addr = Some (PEER_OK, p)"
    by (simp add: nan_peer_get_find [OF ok] fnd)
  let ?v1 = "v\<lparr>pe_last_update := now_usec\<rparr>"
  let ?v2 = "v\<lparr>pe_last_update := now_usec, pe_cluster_id := cluster\<rparr>"
  let ?h2 = "h\<lparr>cells := (cells h)(p \<mapsto> ?v2)\<rparr>"
  have add: "nan_peer_add junk state h addr cluster now_usec = Some (PEER_UPDATE, state, ?h2, [])"
  proof (cases "pe_cluster_id v = cluster")
    case True
    then have "?v2 = ?v1" by (cases v) simp
    moreover have "nan_peer_add junk state h addr cluster now_usec
        = Some (PEER_UPDATE, state, h\<lparr>cells := (cells h)(p \<mapsto> ?v1)\<rparr>, [])"
      using True peers_ok_live [OF ok p(1)]
      by (simp add: nan_peer_add_def get store_put_def flip: v)
    ultimately show ?thesis by (simp only:)
  next
    case False
    then show ?thesis using peers_ok_live [OF ok p(1)]
      by (simp add: nan_peer_add_def get store_put_def flip: v)
  qed
  have "pe_addr ?v2 = pe_addr (peer_at h p)" by (simp add: v)
  from peers_ok_put [OF ok p(1) this refl] add p(2) show ?thesis by (simp add: added_peer_def)
qed

section \<open>Cleaning\<close>

definition stale :: "nan_peer_state \<Rightarrow> peer_heap \<Rightarrow> u64 \<Rightarrow> ptr \<Rightarrow> bool" where
  "stale state h now_usec p \<longleftrightarrow> pe_last_update (peer_at h p) < now_usec - timeout_usec state"

lemma find_stale:
  assumes "peers_ok state h"
  shows "LIST_FIND (peer_stale state h now_usec) (peers state)
    = Some (case find (stale state h now_usec) (peers state) of None \<Rightarrow> NULL | Some p \<Rightarrow> p)"
  using assms by (intro LIST_FIND_find) (simp add: peer_stale_def peers_ok_live stale_def)

lemma nan_peer_remove_ok:
  assumes ok: "peers_ok state h" and cb: "peer_remove_callback state \<noteq> NULL" and p: "p \<in> set (peers state)"
  shows "nan_peer_remove state h p = Some (state\<lparr>peers := remove1 p (peers state)\<rparr>, h\<lparr>cells := (cells h)(p := None)\<rparr>,
      [(peer_remove_callback state, p, peer_remove_callback_data state)])"
    and "peers_ok (state\<lparr>peers := remove1 p (peers state)\<rparr>) (h\<lparr>cells := (cells h)(p := None)\<rparr>)"
proof -
  let ?h = "h\<lparr>cells := (cells h)(p := None)\<rparr>"
  show "nan_peer_remove state h p = Some (state\<lparr>peers := remove1 p (peers state)\<rparr>, ?h,
      [(peer_remove_callback state, p, peer_remove_callback_data state)])"
    using cb peers_ok_live [OF ok p] by (simp add: nan_peer_remove_def store_free_def)
  have notin: "p \<notin> set (remove1 p (peers state))" using peers_ok_distinct [OF ok] by simp
  then have same: "map (pe_addr \<circ> peer_at ?h) (remove1 p (peers state)) = map (pe_addr \<circ> peer_at h) (remove1 p (peers state))"
    by (auto simp: peer_at_def)
  have "distinct (map (pe_addr \<circ> peer_at h) (remove1 p (peers state)))"
    using ok by (auto simp: peers_ok_def distinct_map intro: inj_on_subset dest: notin_set_remove1)
  moreover have view: "peers (state\<lparr>peers := ps\<rparr>) = ps" for ps by simp
  moreover have "wf_store ?h" using ok by (auto simp: peers_ok_def wf_store_def)
  moreover have "\<forall>q \<in> set (remove1 p (peers state)). cells ?h q \<noteq> None"
    using ok notin by (auto simp: peers_ok_def dest: notin_set_remove1)
  ultimately show "peers_ok (state\<lparr>peers := remove1 p (peers state)\<rparr>) ?h"
    unfolding peers_ok_def view same by blast
qed

lemma nan_peers_clean_loop_spec:
  "peers_ok state h \<Longrightarrow> peer_remove_callback state \<noteq> NULL \<Longrightarrow>
   \<exists>h'. nan_peers_clean_loop state h now_usec calls =
     Some (state\<lparr>peers := filter (\<lambda>p. \<not> stale state h now_usec p) (peers state)\<rparr>, h',
           calls @ map (\<lambda>p. (peer_remove_callback state, p, peer_remove_callback_data state))
             (filter (stale state h now_usec) (peers state)))
     \<and> peers_ok (state\<lparr>peers := filter (\<lambda>p. \<not> stale state h now_usec p) (peers state)\<rparr>) h'
     \<and> (\<forall>q. cells h' q = (if q \<in> set (peers state) \<and> stale state h now_usec q then None else cells h q))"
proof (induction "length (peers state)" arbitrary: state h calls rule: less_induct)
  case less
  note ok = less.prems(1)
  show ?case
  proof (cases "find (stale state h now_usec) (peers state)")
    case None
    then have none: "\<not> stale state h now_usec p" if "p \<in> set (peers state)" for p
      using that by (simp add: find_None_iff)
    then have f: "filter (\<lambda>p. \<not> stale state h now_usec p) (peers state) = peers state"
      "filter (stale state h now_usec) (peers state) = []"
      by (simp_all add: filter_id_conv filter_empty_conv)
    then show ?thesis
      using ok none None find_stale [OF ok, of now_usec]
      by (subst nan_peers_clean_loop.simps) auto
  next
    case (Some p)
    then obtain us vs where sp: "peers state = us @ p # vs" "stale state h now_usec p"
      "\<forall>q \<in> set us. \<not> stale state h now_usec q"
      unfolding find_Some_iff
      by (metis id_take_nth_drop in_set_conv_nth length_take min_less_iff_conj nth_take)
    have p: "p \<in> set (peers state)" "p \<noteq> 0" using sp(1) peers_ok_nonNULL [OF ok] by auto
    have d: "p \<notin> set us" "p \<notin> set vs" using peers_ok_distinct [OF ok] sp(1) by auto
    define s1 where "s1 = state\<lparr>peers := us @ vs\<rparr>"
    define h1 where "h1 = h\<lparr>cells := (cells h)(p := None)\<rparr>"
    have "remove1 p (peers state) = us @ vs" using d sp(1) by (simp add: remove1_append)
    note rm = nan_peer_remove_ok [OF ok less.prems(2) p(1), unfolded this, folded s1_def h1_def]
    note ok1 = rm(2)
    have at: "q \<noteq> p \<Longrightarrow> peer_at h1 q = peer_at h q" for q by (simp add: h1_def peer_at_def)
    have ps1: "peers s1 = us @ vs" by (simp add: s1_def)
    have st: "q \<noteq> p \<Longrightarrow> stale s1 h1 now_usec q = stale state h now_usec q" for q
      by (simp add: stale_def s1_def at)
    have "length (peers s1) < length (peers state)" "peer_remove_callback s1 \<noteq> 0"
      using sp(1) less.prems(2) by (simp_all add: s1_def)
    from less.hyps [OF this(1) ok1 this(2)] obtain h2 where h2:
      "nan_peers_clean_loop s1 h1 now_usec (calls @ [(peer_remove_callback state, p,
          peer_remove_callback_data state)]) =
       Some (s1\<lparr>peers := filter (\<lambda>q. \<not> stale s1 h1 now_usec q) (peers s1)\<rparr>, h2,
           (calls @ [(peer_remove_callback state, p, peer_remove_callback_data state)])
           @ map (\<lambda>p. (peer_remove_callback s1, p, peer_remove_callback_data s1))
             (filter (stale s1 h1 now_usec) (peers s1)))"
      "peers_ok (s1\<lparr>peers := filter (\<lambda>p. \<not> stale s1 h1 now_usec p) (peers s1)\<rparr>) h2"
      "\<forall>q. cells h2 q = (if q \<in> set (peers s1) \<and> stale s1 h1 now_usec q then None else cells h1 q)"
      by blast
    have f: "filter (\<lambda>q. \<not> stale s1 h1 now_usec q) (peers s1)
        = filter (\<lambda>q. \<not> stale state h now_usec q) (peers state)"
      "filter (stale s1 h1 now_usec) (peers s1)
        = filter (stale state h now_usec) vs"
    proof -
      have eq: "stale s1 h1 now_usec q = stale state h now_usec q" if "q \<in> set (us @ vs)" for q
      proof -
        from that d have "q \<noteq> p" by auto
        then show ?thesis by (rule st)
      qed
      then have "filter (\<lambda>q. \<not> stale s1 h1 now_usec q) (us @ vs)
          = filter (\<lambda>q. \<not> stale state h now_usec q) (us @ vs)"
        by (intro filter_cong) auto
      then show "filter (\<lambda>q. \<not> stale s1 h1 now_usec q) (peers s1)
          = filter (\<lambda>q. \<not> stale state h now_usec q) (peers state)"
        using sp ps1 by simp
      have "filter (stale s1 h1 now_usec) (us @ vs) = filter (stale state h now_usec) (us @ vs)"
        using eq by (intro filter_cong) auto
      also have "\<dots> = filter (stale state h now_usec) vs" using sp(3) by simp
      finally show "filter (stale s1 h1 now_usec) (peers s1) = filter (stale state h now_usec) vs"
        by (simp only: ps1)
    qed
    have "filter (stale state h now_usec) (peers state) = p # filter (stale state h now_usec) vs"
      using sp by simp
    moreover have "\<forall>q. cells h2 q = (if q \<in> set (peers state) \<and> stale state h now_usec q then None
        else cells h q)"
      using h2(3) st sp d by (auto simp: s1_def h1_def)
    moreover have fields: "s1\<lparr>peers := X\<rparr> = state\<lparr>peers := X\<rparr>"
      "peer_remove_callback s1 = peer_remove_callback state"
      "peer_remove_callback_data s1 = peer_remove_callback_data state" for X
      by (simp_all add: s1_def)
    ultimately show ?thesis
      using h2(1,2) [unfolded f fields] Some p(2) rm find_stale [OF ok, of now_usec]
      by (subst nan_peers_clean_loop.simps) simp
  qed
qed

section \<open>Properties\<close>

text \<open>
  C18: Adding a peer makes the table, seen as a map from addresses to peers, hold the peer
  with the time of the update and its cluster, whether it was known or not, and changes no
  other entry; it keeps the addresses unique, and calls the callback once for a new peer and
  not otherwise.
\<close>

theorem nan_peer_add_updates_map:
  assumes "peers_ok state h"
  shows "\<exists>status state' h' calls.
    nan_peer_add junk state h addr cluster now_usec = Some (status, state', h', calls)
    \<and> peers_ok state' h'
    \<and> lookup_peer state' h' = (lookup_peer state h)
        (addr \<mapsto> added_peer junk (lookup_peer state h addr) addr cluster now_usec)
    \<and> status = (if lookup_peer state h addr = None then PEER_ADD else PEER_UPDATE)
    \<and> length calls = (if lookup_peer state h addr = None \<and> peer_add_callback state \<noteq> NULL then 1 else 0)"
proof (cases "lookup_peer state h addr")
  case None
  from nan_peer_add_missing [OF assms None, of junk cluster now_usec] None show ?thesis by fastforce
next
  case (Some v)
  from nan_peer_add_known [OF assms Some, of junk cluster now_usec] Some show ?thesis by fastforce
qed

theorem nan_peer_add_updates_map_witness:
  "\<forall>junk s. \<exists>status state' h' calls. nan_peer_add junk (nan_peer_state_init s) store_empty
      (Ether_Addr 2 0 0 0 0 1) (Ether_Addr 0x50 0x6f 0x9a 1 0 0) 77 = Some (status, state', h', calls)
    \<and> peers_ok state' h'
    \<and> map_option pe_last_update (lookup_peer state' h' (Ether_Addr 2 0 0 0 0 1)) = Some 77"
proof (intro allI)
  fix junk s
  have none: "lookup_peer (nan_peer_state_init s) store_empty a = None" for a
    by (simp add: lookup_peer_def nan_peer_state_init_def)
  from nan_peer_add_updates_map [OF peers_ok_init [OF wf_store_empty], of junk s
      "Ether_Addr 2 0 0 0 0 1" "Ether_Addr 0x50 0x6f 0x9a 1 0 0" 77]
  show "\<exists>status state' h' calls. nan_peer_add junk (nan_peer_state_init s) store_empty
      (Ether_Addr 2 0 0 0 0 1) (Ether_Addr 0x50 0x6f 0x9a 1 0 0) 77 = Some (status, state', h', calls)
    \<and> peers_ok state' h'
    \<and> map_option pe_last_update (lookup_peer state' h' (Ether_Addr 2 0 0 0 0 1)) = Some 77"
    by (auto simp: none added_peer_def)
qed

text \<open>
  C19: With a remove callback, cleaning ends and removes exactly the peers whose last update
  is older than the timeout, calling the callback once for each of them in the order of the
  list and freeing it, and leaves the others as they were.
\<close>

theorem nan_peers_clean_removes_stale:
  assumes "peers_ok state h" "peer_remove_callback state \<noteq> NULL"
  shows "\<exists>h'. nan_peers_clean state h now_usec =
     Some (state\<lparr>peers := filter (\<lambda>p. \<not> stale state h now_usec p) (peers state)\<rparr>, h',
           map (\<lambda>p. (peer_remove_callback state, p, peer_remove_callback_data state))
             (filter (stale state h now_usec) (peers state)))
     \<and> peers_ok (state\<lparr>peers := filter (\<lambda>p. \<not> stale state h now_usec p) (peers state)\<rparr>) h'
     \<and> (\<forall>q. cells h' q = (if q \<in> set (peers state) \<and> stale state h now_usec q then None else cells h q))"
  using nan_peers_clean_loop_spec [OF assms, of now_usec "[]"] by (simp add: nan_peers_clean_def)

theorem nan_peers_clean_removes_stale_witness:
  "\<forall>s (v :: nan_peer) (w :: nan_peer). \<exists>h'. nan_peers_clean (nan_peer_set_callbacks (nan_peer_state_init s) 5 6 7 8\<lparr>peers := [1, 2]\<rparr>)
     \<lparr>cells = [1 \<mapsto> v\<lparr>pe_addr := Ether_Addr 2 0 0 0 0 1, pe_last_update := 7\<rparr>,
               2 \<mapsto> w\<lparr>pe_addr := Ether_Addr 2 0 0 0 0 2, pe_last_update := 6000000\<rparr>], brk = 3\<rparr> 9000000
     = Some (nan_peer_set_callbacks (nan_peer_state_init s) 5 6 7 8\<lparr>peers := [2]\<rparr>, h', [(7, 1, 8)])
     \<and> cells h' 1 = None \<and> cells h' 2 \<noteq> None"
proof (intro allI)
  fix s and v w :: nan_peer
  let ?s = "nan_peer_set_callbacks (nan_peer_state_init s) 5 6 7 8\<lparr>peers := [1, 2]\<rparr>"
  let ?h = "\<lparr>cells = [1 \<mapsto> v\<lparr>pe_addr := Ether_Addr 2 0 0 0 0 1, pe_last_update := 7\<rparr>,
               2 \<mapsto> w\<lparr>pe_addr := Ether_Addr 2 0 0 0 0 2, pe_last_update := 6000000\<rparr>], brk = 3\<rparr>"
  have s: "peers ?s = [1, 2]" "peer_remove_callback ?s = 7" "peer_remove_callback_data ?s = 8"
      "timeout_usec ?s = 5242880"
    by (simp_all add: nan_peer_set_callbacks_def nan_peer_state_init_def)
  have at: "peer_at ?h 1 = v\<lparr>pe_addr := Ether_Addr 2 0 0 0 0 1, pe_last_update := 7\<rparr>"
      "peer_at ?h 2 = w\<lparr>pe_addr := Ether_Addr 2 0 0 0 0 2, pe_last_update := 6000000\<rparr>"
    by (simp_all add: peer_at_def)
  have ok: "peers_ok ?s ?h" unfolding peers_ok_def by (simp add: s peer_at_def wf_store_def)
  have st: "stale ?s ?h 9000000 1" "\<not> stale ?s ?h 9000000 2" unfolding stale_def at s by simp_all
  show "\<exists>h'. nan_peers_clean ?s ?h 9000000
      = Some (nan_peer_set_callbacks (nan_peer_state_init s) 5 6 7 8\<lparr>peers := [2]\<rparr>, h', [(7, 1, 8)])
      \<and> cells h' 1 = None \<and> cells h' 2 \<noteq> None"
    using nan_peers_clean_removes_stale [OF ok, of 9000000] unfolding s by (auto simp: st [unfolded One_nat_def])
qed

text \<open>
  Without a remove callback, which is how the state is initialised, cleaning a table that
  has a stale peer calls through a null pointer.
\<close>

theorem nan_peers_clean_needs_callback:
  assumes "peers_ok state h" "peer_remove_callback state = NULL"
    and "p \<in> set (peers state)" "stale state h now_usec p"
  shows "nan_peers_clean state h now_usec = None"
proof -
  obtain q where "find (stale state h now_usec) (peers state) = Some q"
    using assms(3,4) by (cases "find (stale state h now_usec) (peers state)") (auto simp: find_None_iff)
  moreover from this have "q \<noteq> 0" using peers_ok_nonNULL [OF assms(1)] find_SomeD by metis
  ultimately show ?thesis
    using assms(2) find_stale [OF assms(1), of now_usec]
    by (simp add: nan_peers_clean_def nan_peers_clean_loop.simps nan_peer_remove_def)
qed

theorem nan_peers_clean_needs_callback_witness:
  "\<forall>s junk. nan_peers_clean (nan_peer_state_init s\<lparr>peers := [1]\<rparr>)
     \<lparr>cells = [1 \<mapsto> nan_peer_new junk (Ether_Addr 2 0 0 0 0 1) (Ether_Addr 2 0 0 0 0 1)], brk = 2\<rparr>
     5242881 = None"
proof (intro allI, rule nan_peers_clean_needs_callback [where p = 1])
  fix s junk
  let ?h = "\<lparr>cells = [1 \<mapsto> nan_peer_new junk (Ether_Addr 2 0 0 0 0 1) (Ether_Addr 2 0 0 0 0 1)], brk = 2\<rparr>"
  show "peers_ok (nan_peer_state_init s\<lparr>peers := [1]\<rparr>) ?h"
    by (simp add: peers_ok_def nan_peer_state_init_def wf_store_def)
  show "stale (nan_peer_state_init s\<lparr>peers := [1]\<rparr>) ?h 5242881 1"
    by (simp add: stale_def peer_at_def nan_peer_new_def nan_peer_state_init_def moving_average_init_def)
qed (simp_all add: nan_peer_state_init_def)

end
