(* ===== verification/Nan_Sync.thy ===== *)
theory Nan_Sync
  imports Nan_Peer Nan_Timer
begin

text \<open>
  Synchronisation and master election (\<^verbatim>\<open>src/src/sync.c\<close>): the master rank as the bytes of a
  union, the election of the device's role, the selection of the anchor master and its
  expiration. \<open>heard\<close> are the peers the election counts, and \<open>next_role\<close> its decision table.
\<close>

section \<open>Master ranks\<close>

text \<open>The union on a little-endian host: address, random factor, master preference.\<close>

definition nan_master_rank_bytes :: "u8 \<Rightarrow> u8 \<Rightarrow> ether_addr \<Rightarrow> u8 list" where
  "nan_master_rank_bytes master_preference random_factor address =
     ether_addr_octet address @ [random_factor, master_preference]"

definition nan_calculate_master_rank :: "u8 \<Rightarrow> u8 \<Rightarrow> ether_addr \<Rightarrow> u64" where
  "nan_calculate_master_rank master_preference random_factor address =
     of_le_bytes (nan_master_rank_bytes master_preference random_factor address)"

definition nan_get_address_from_master_rank :: "u64 \<Rightarrow> ether_addr" where
  "nan_get_address_from_master_rank master_rank = ether_addr_of (take 6 (le_bytes 8 master_rank))"

definition nan_is_master_rank_issuer :: "ether_addr \<Rightarrow> u64 \<Rightarrow> bool" where
  "nan_is_master_rank_issuer addr master_rank =
     ether_addr_equal addr (nan_get_address_from_master_rank master_rank)"

definition nan_is_same_master_rank_issuer :: "u64 \<Rightarrow> u64 \<Rightarrow> bool" where
  "nan_is_same_master_rank_issuer master_rank1 master_rank2 =
     nan_is_master_rank_issuer (nan_get_address_from_master_rank master_rank1) master_rank2"

definition nan_get_peer_master_rank :: "nan_peer \<Rightarrow> u64" where
  "nan_get_peer_master_rank peer =
     nan_calculate_master_rank (pe_master_preference peer) (pe_random_factor peer) (pe_addr peer)"

section \<open>State\<close>

datatype nan_role = NON_SYNC | SYNC | MASTER

record nan_sync_state =
  sy_role :: nan_role
  sy_master_rank :: u64
  sy_master_preference :: u8
  sy_random_factor :: u8
  sy_last_master_preference_update_usec :: u64
  sy_last_random_factor_update_usec :: u64
  sy_anchor_master_rank :: u64
  sy_ambtt :: u32
  sy_hop_count :: u8
  sy_last_anchor_master_rank :: u64
  sy_last_ambtt :: u32
  sy_last_hop_count :: u8
  sy_count_dws_without_ambtt_update :: u8
  sy_count_dws_without_hop_count_update :: u8

definition nan_is_anchor_master :: "nan_sync_state \<Rightarrow> ether_addr \<Rightarrow> bool" where
  "nan_is_anchor_master state addr = nan_is_master_rank_issuer addr (sy_anchor_master_rank state)"

definition nan_is_anchor_master_self :: "nan_sync_state \<Rightarrow> bool" where
  "nan_is_anchor_master_self state =
     nan_is_same_master_rank_issuer (sy_master_rank state) (sy_anchor_master_rank state)"

definition nan_get_anchor_master_address :: "nan_sync_state \<Rightarrow> ether_addr" where
  "nan_get_anchor_master_address state =
     nan_get_address_from_master_rank (sy_anchor_master_rank state)"

definition nan_sync_state_init :: "ether_addr \<Rightarrow> nan_sync_state" where
  "nan_sync_state_init interface_address =
     (let rank = nan_calculate_master_rank 0 0 interface_address
      in \<lparr>sy_role = MASTER, sy_master_rank = rank, sy_master_preference = 0, sy_random_factor = 0,
          sy_last_master_preference_update_usec = 0, sy_last_random_factor_update_usec = 0,
          sy_anchor_master_rank = rank, sy_ambtt = 0, sy_hop_count = 0,
          sy_last_anchor_master_rank = rank, sy_last_ambtt = 0, sy_last_hop_count = 0,
          sy_count_dws_without_ambtt_update = 0, sy_count_dws_without_hop_count_update = 0\<rparr>)"

definition nan_check_master_candidate :: "nan_sync_state \<Rightarrow> nan_peer \<Rightarrow> nan_peer" where
  "nan_check_master_candidate state peer =
     (let peer = peer\<lparr>pe_master_candidate := False\<rparr> in
      if pe_anchor_master_rank peer \<noteq> sy_anchor_master_rank state then peer
      else let peer = (if pe_hop_count peer < sy_hop_count state
                       then peer\<lparr>pe_master_candidate := True\<rparr> else peer)
           in if pe_hop_count peer = sy_hop_count state
                \<and> nan_get_peer_master_rank peer > sy_master_rank state
              then peer\<lparr>pe_master_candidate := True\<rparr> else peer)"

section \<open>Election\<close>

abbreviation (input) RSSI_CLOSE :: int where "RSSI_CLOSE \<equiv> - 60"
abbreviation (input) RSSI_MIDDLE :: int where "RSSI_MIDDLE \<equiv> - 75"

text \<open>The local counters of \<^verbatim>\<open>nan_master_election\<close>.\<close>

record election_counts =
  count_higher_mr :: nat
  count_rssi_close :: nat
  count_rssi_middle :: nat
  count_rssi_close_higher_mr :: nat
  count_rssi_close_master_candidate :: nat
  count_rssi_middle_higher_mr :: nat
  count_rssi_middle_master_candidate :: nat

definition no_counts :: election_counts where
  "no_counts = \<lparr>count_higher_mr = 0, count_rssi_close = 0, count_rssi_middle = 0,
     count_rssi_close_higher_mr = 0, count_rssi_close_master_candidate = 0,
     count_rssi_middle_higher_mr = 0, count_rssi_middle_master_candidate = 0\<rparr>"

text \<open>One round of the loop over the peers.\<close>

definition count_peer ::
  "nan_sync_state \<Rightarrow> u64 \<Rightarrow> nan_peer \<Rightarrow> election_counts \<Rightarrow> election_counts" where
  "count_peer state now_usec peer c =
     (let peer_master_rank = nan_get_peer_master_rank peer in
      if now_usec - pe_last_update peer > TU_TO_USEC (16 + 4) then c
      else
        let c = (if pe_rssi_average peer > RSSI_CLOSE then
                   let c = c\<lparr>count_rssi_close := count_rssi_close c + 1\<rparr>;
                       c = (if peer_master_rank > sy_master_rank state
                            then c\<lparr>count_rssi_close_higher_mr := count_rssi_close_higher_mr c + 1\<rparr>
                            else c)
                   in if pe_master_candidate peer
                      then c\<lparr>count_rssi_close_master_candidate :=
                               count_rssi_close_master_candidate c + 1\<rparr>
                      else c
                 else c);
            c = (if pe_rssi_average peer > RSSI_MIDDLE then
                   let c = c\<lparr>count_rssi_middle := count_rssi_middle c + 1\<rparr>;
                       c = (if peer_master_rank > sy_master_rank state
                            then c\<lparr>count_rssi_middle_higher_mr := count_rssi_middle_higher_mr c + 1\<rparr>
                            else c)
                   in if pe_master_candidate peer
                      then c\<lparr>count_rssi_middle_master_candidate :=
                               count_rssi_middle_master_candidate c + 1\<rparr>
                      else c
                 else c)
        in if peer_master_rank > sy_master_rank state
           then c\<lparr>count_higher_mr := count_higher_mr c + 1\<rparr> else c)"

definition election_transitions :: "nan_sync_state \<Rightarrow> election_counts \<Rightarrow> nan_sync_state" where
  "election_transitions state c =
     (let state =
            (if sy_role state = MASTER
             then if count_rssi_close_higher_mr c \<ge> 1 \<or> count_rssi_middle_higher_mr c \<ge> 3
                  then state\<lparr>sy_role := SYNC\<rparr> else state
             else if count_rssi_close c = 0 \<and> count_higher_mr c > 0
                  then state\<lparr>sy_role := MASTER\<rparr> else state)
      in if sy_role state = SYNC
         then if count_rssi_close_master_candidate c \<ge> 1
                \<or> count_rssi_middle_master_candidate c \<ge> 3
              then state\<lparr>sy_role := NON_SYNC\<rparr> else state
         else if count_rssi_close_master_candidate c = 0
                \<and> count_rssi_middle_master_candidate c < 3
              then state\<lparr>sy_role := SYNC\<rparr> else state)"

definition nan_master_election ::
  "nan_sync_state \<Rightarrow> ptr list \<Rightarrow> peer_heap \<Rightarrow> u64 \<Rightarrow> nan_sync_state option" where
  "nan_master_election state ps h now_usec =
     do { c \<leftarrow> LIST_FOR_EACH (\<lambda>p c. do { peer \<leftarrow> cells h p;
                                        Some (count_peer state now_usec peer c) }) ps no_counts;
          Some (election_transitions state c) }"

section \<open>Anchor master\<close>

definition nan_save_current_anchor_master :: "nan_sync_state \<Rightarrow> nan_sync_state" where
  "nan_save_current_anchor_master state =
     state\<lparr>sy_last_anchor_master_rank := sy_anchor_master_rank state,
           sy_last_ambtt := sy_ambtt state\<rparr>"

definition nan_set_anchor_master_other :: "nan_sync_state \<Rightarrow> nan_peer \<Rightarrow> nan_sync_state" where
  "nan_set_anchor_master_other state peer =
     (let state = nan_save_current_anchor_master state
      in state\<lparr>sy_anchor_master_rank := pe_anchor_master_rank peer, sy_ambtt := pe_ambtt peer,
               sy_hop_count := pe_hop_count peer + 1\<rparr>)"

definition nan_set_anchor_master_self :: "nan_sync_state \<Rightarrow> nan_sync_state" where
  "nan_set_anchor_master_self state =
     (let state = nan_save_current_anchor_master state
      in state\<lparr>sy_anchor_master_rank := sy_master_rank state, sy_ambtt := 0, sy_hop_count := 0\<rparr>)"

text \<open>The part after the device is known not to be the anchor master itself.\<close>

definition anchor_master_selection_other ::
  "nan_sync_state \<Rightarrow> nan_peer \<Rightarrow> nan_sync_state" where
  "anchor_master_selection_other state peer =
     (if sy_anchor_master_rank state < pe_anchor_master_rank peer then
        if sy_last_anchor_master_rank state = pe_anchor_master_rank peer
          \<and> sy_last_ambtt state \<ge> pe_ambtt peer
        then state
        else nan_set_anchor_master_other state peer
      else if sy_anchor_master_rank state > pe_anchor_master_rank peer then
        if \<not> nan_is_same_master_rank_issuer (sy_anchor_master_rank state) (pe_anchor_master_rank peer)
        then state
        else if sy_master_rank state > pe_anchor_master_rank peer
        then nan_set_anchor_master_self state
        else nan_set_anchor_master_other state peer
      else
        let state = (if sy_ambtt state < pe_ambtt peer
                     then state\<lparr>sy_ambtt := pe_ambtt peer\<rparr> else state)
        in if uint (sy_hop_count state) > uint (pe_hop_count peer) + 1
           then state\<lparr>sy_hop_count := pe_hop_count peer\<rparr> else state)"

definition nan_anchor_master_selection ::
  "nan_sync_state \<Rightarrow> nan_peer \<Rightarrow> u64 \<Rightarrow> nan_sync_state" where
  "nan_anchor_master_selection state peer synced_time_tu =
     (if sy_anchor_master_rank state = pe_anchor_master_rank peer
        \<and> ucast (pe_ambtt peer) \<le> synced_time_tu * 16 * 512
      then state
      else if nan_is_anchor_master_self state then
        if sy_master_rank state \<ge> pe_anchor_master_rank peer then state
        else if nan_is_same_master_rank_issuer (sy_master_rank state) (pe_anchor_master_rank peer)
        then state
        else anchor_master_selection_other (nan_set_anchor_master_other state peer) peer
      else anchor_master_selection_other state peer)"

definition nan_check_anchor_master_expiration :: "nan_sync_state \<Rightarrow> nan_sync_state" where
  "nan_check_anchor_master_expiration state =
     (if nan_is_anchor_master_self state
      then state\<lparr>sy_count_dws_without_ambtt_update := 0,
                 sy_count_dws_without_hop_count_update := 0\<rparr>
      else
        let state = (if sy_hop_count state = sy_last_hop_count state
              then state\<lparr>sy_count_dws_without_hop_count_update :=
                           sy_count_dws_without_hop_count_update state + 1\<rparr>
              else state\<lparr>sy_count_dws_without_hop_count_update := 0\<rparr>);
            state = (if sy_ambtt state = sy_last_ambtt state
              then state\<lparr>sy_count_dws_without_ambtt_update :=
                           sy_count_dws_without_ambtt_update state + 1\<rparr>
              else state\<lparr>sy_count_dws_without_ambtt_update := 0\<rparr>)
        in if sy_count_dws_without_ambtt_update state \<ge> 3 then nan_set_anchor_master_self state
           else if sy_count_dws_without_hop_count_update state \<ge> 3
           then state\<lparr>sy_hop_count := 255\<rparr>
           else state)"

section \<open>Updates of the own rank\<close>

text \<open>\<open>interface_address\<close> is \<^const>\<open>None\<close> for a null pointer.\<close>

definition nan_update_master_rank ::
  "nan_sync_state \<Rightarrow> ether_addr option \<Rightarrow> bool \<times> nan_sync_state" where
  "nan_update_master_rank state interface_address =
     (let address = (case interface_address of
                       None \<Rightarrow> nan_get_address_from_master_rank (sy_master_rank state)
                     | Some a \<Rightarrow> a);
          new_master_rank = nan_calculate_master_rank (sy_master_preference state)
                              (sy_random_factor state) address in
      if new_master_rank = sy_master_rank state then (False, state)
      else
        let state = state\<lparr>sy_master_rank := new_master_rank\<rparr>;
            state = (if nan_is_anchor_master_self state
                     then state\<lparr>sy_last_anchor_master_rank := sy_anchor_master_rank state,
                                sy_anchor_master_rank := sy_master_rank state\<rparr>
                     else if sy_master_rank state > sy_anchor_master_rank state
                     then nan_set_anchor_master_self state
                     else state)
        in (True, state))"

abbreviation (input) NAN_MASTER_PREFERENCE :: u8 where "NAN_MASTER_PREFERENCE \<equiv> 200"

definition nan_update_master_preference ::
  "nan_sync_state \<Rightarrow> nan_peer \<Rightarrow> u64 \<Rightarrow> rng \<Rightarrow> (bool \<times> nan_sync_state \<times> rng) option" where
  "nan_update_master_preference state peer now_usec r =
     (if pe_master_preference peer = pe_last_master_preference peer then Some (False, state, r)
      else
        let elapsed_dws =
              nan_time_difference_dw (sy_last_master_preference_update_usec state) now_usec
        in do { (updated, state, r) \<leftarrow>
                  (if elapsed_dws > 120
                   then do { (v, r) \<leftarrow> get_rand_num 0 255 r;
                             Some (True, state\<lparr>sy_random_factor := v,
                                               sy_last_random_factor_update_usec := now_usec\<rparr>, r) }
                   else Some (False, state, r));
                (let (updated, state) =
                   (if elapsed_dws > 240
                    then (True, state\<lparr>sy_master_preference := NAN_MASTER_PREFERENCE,
                                      sy_last_master_preference_update_usec := now_usec\<rparr>)
                    else (updated, state))
                 in if updated
                    then let (changed, state) = nan_update_master_rank state None
                         in Some (changed, state, r)
                    else Some (False, state, r)) })"

definition nan_role_to_string :: "nan_role \<Rightarrow> string" where
  "nan_role_to_string role =
     (case role of MASTER \<Rightarrow> ''MASTER'' | SYNC \<Rightarrow> ''NON MASTER SYNC''
      | NON_SYNC \<Rightarrow> ''NON MASTER NON SYNC'')"

section \<open>The rank as a number\<close>

fun le_value :: "u8 list \<Rightarrow> nat" where
  "le_value [] = 0"
| "le_value (b # bs) = unat b + 256 * le_value bs"

lemma le_value_bound: "le_value bs < 256 ^ length bs"
proof (induction bs)
  case Nil
  then show ?case by simp
next
  case (Cons b bs)
  have "unat b < 256" using unat_bound [of b] by simp
  with Cons show ?case by simp
qed

lemma unat_of_le_bytes:
  "8 * length bs \<le> LENGTH('a) \<Longrightarrow> unat (of_le_bytes bs :: 'a::len word) = le_value bs"
proof (induction bs)
  case Nil
  then show ?case by simp
next
  case (Cons b bs)
  let ?w = "of_le_bytes bs :: 'a word"
  have IH: "unat ?w = le_value bs" using Cons by simp
  have "\<not> bit (ucast b :: 'a word) n \<or> \<not> bit (push_bit 8 ?w) n" for n
    by (auto simp: bit_simps dest: bit_imp_le_length)
  then have or: "(ucast b OR push_bit 8 ?w :: 'a word) = ucast b + push_bit 8 ?w"
    by (simp add: disjunctive_add)
  have push: "push_bit 8 ?w = of_nat (256 * le_value bs)"
    by (simp add: push_bit_eq_mult flip: IH)
  have cast: "(ucast b :: 'a word) = of_nat (unat b)" by simp
  have eq: "of_le_bytes (b # bs) = (of_nat (le_value (b # bs)) :: 'a word)"
    unfolding of_le_bytes.simps or unfolding push cast by simp
  have "le_value (b # bs) < 256 ^ length (b # bs)" by (rule le_value_bound)
  also have "(256 :: nat) ^ length (b # bs) = 2 ^ (8 * length (b # bs))"
    by (simp only: power_mult) simp
  also have "\<dots> \<le> 2 ^ LENGTH('a)" using Cons.prems by (intro power_increasing) auto
  finally show ?case unfolding eq by (simp only: unat_of_nat_mod mod_less)
qed

lemma le_value_append: "le_value (as @ bs) = le_value as + 256 ^ length as * le_value bs"
  by (induction as) (simp_all add: algebra_simps)

definition address_value :: "ether_addr \<Rightarrow> nat" where
  "address_value a = le_value (ether_addr_octet a)"

lemma address_value_bound: "address_value a < 2 ^ 48"
  using le_value_bound [of "ether_addr_octet a"] by (simp add: address_value_def)

lemma length_master_rank_bytes [simp]: "length (nan_master_rank_bytes mp rf a) = 8"
  by (simp add: nan_master_rank_bytes_def)

lemma unat_master_rank:
  "unat (nan_calculate_master_rank mp rf a) = (unat mp * 2 ^ 8 + unat rf) * 2 ^ 48 + address_value a"
  by (simp add: nan_calculate_master_rank_def unat_of_le_bytes nan_master_rank_bytes_def
      le_value_append address_value_def)

lemma address_of_master_rank [simp]:
  "nan_get_address_from_master_rank (nan_calculate_master_rank mp rf a) = a"
  using le_bytes_inverse [of "nan_master_rank_bytes mp rf a", where 'a = 64]
  by (simp add: nan_get_address_from_master_rank_def nan_calculate_master_rank_def
      nan_master_rank_bytes_def del: le_bytes_numeral)

lemma same_issuer_refl [simp]: "nan_is_same_master_rank_issuer r r"
  by (simp add: nan_is_same_master_rank_issuer_def nan_is_master_rank_issuer_def)

lemma digits_less_iff:
  "x < K \<Longrightarrow> y < K \<Longrightarrow> a * K + x < b * K + y \<longleftrightarrow> a < b \<or> a = b \<and> x < (y :: nat)"
proof (cases a b rule: linorder_cases)
  case less
  assume x: "x < K"
  from less have "Suc a * K \<le> b * K" by (intro mult_right_mono) auto
  with x less show ?thesis by simp
next
  case greater
  assume y: "y < K"
  from greater have "Suc b * K \<le> a * K" by (intro mult_right_mono) auto
  with y greater show ?thesis by simp
qed simp

lemma digits_eq_iff:
  "x < K \<Longrightarrow> y < K \<Longrightarrow> a * K + x = b * K + y \<longleftrightarrow> a = b \<and> x = (y :: nat)"
  using digits_less_iff [of x K y a b] digits_less_iff [of y K x b a] by (metis nat_neq_iff)

section \<open>What the election counts\<close>

definition heard :: "u64 \<Rightarrow> nan_peer \<Rightarrow> bool" where
  "heard now_usec peer \<longleftrightarrow> now_usec - pe_last_update peer \<le> TU_TO_USEC 20"

definition higher :: "nan_sync_state \<Rightarrow> nan_peer \<Rightarrow> bool" where
  "higher state peer \<longleftrightarrow> nan_get_peer_master_rank peer > sy_master_rank state"

abbreviation (input) close_by :: "nan_peer \<Rightarrow> bool" where
  "close_by peer \<equiv> pe_rssi_average peer > RSSI_CLOSE"

abbreviation (input) in_middle :: "nan_peer \<Rightarrow> bool" where
  "in_middle peer \<equiv> pe_rssi_average peer > RSSI_MIDDLE"

definition count_in :: "(nan_peer \<Rightarrow> bool) \<Rightarrow> nan_peer list \<Rightarrow> nat" where
  "count_in P vs = length (filter P vs)"

lemma count_in_simps [simp]:
  "count_in P [] = 0" "count_in P (v # vs) = (if P v then Suc (count_in P vs) else count_in P vs)"
  by (simp_all add: count_in_def)

definition counts_of :: "nan_sync_state \<Rightarrow> nan_peer list \<Rightarrow> election_counts \<Rightarrow> election_counts" where
  "counts_of state vs c =
     \<lparr>count_higher_mr = count_higher_mr c + count_in (higher state) vs,
      count_rssi_close = count_rssi_close c + count_in close_by vs,
      count_rssi_middle = count_rssi_middle c + count_in in_middle vs,
      count_rssi_close_higher_mr = count_rssi_close_higher_mr c
        + count_in (\<lambda>v. close_by v \<and> higher state v) vs,
      count_rssi_close_master_candidate = count_rssi_close_master_candidate c
        + count_in (\<lambda>v. close_by v \<and> pe_master_candidate v) vs,
      count_rssi_middle_higher_mr = count_rssi_middle_higher_mr c
        + count_in (\<lambda>v. in_middle v \<and> higher state v) vs,
      count_rssi_middle_master_candidate = count_rssi_middle_master_candidate c
        + count_in (\<lambda>v. in_middle v \<and> pe_master_candidate v) vs\<rparr>"

lemma count_peer_heard:
  "count_peer state now_usec v c = (if heard now_usec v then counts_of state [v] c else c)"
  by (cases c) (auto simp: count_peer_def counts_of_def heard_def higher_def Let_def not_le)

lemma counts_of_Cons: "counts_of state vs (counts_of state [v] c) = counts_of state (v # vs) c"
  by (simp add: counts_of_def)

lemma election_loop:
  "(\<forall>p \<in> set ps. cells h p \<noteq> None) \<Longrightarrow>
   LIST_FOR_EACH (\<lambda>p c. do { peer \<leftarrow> cells h p; Some (count_peer state now_usec peer c) }) ps c
   = Some (counts_of state (filter (heard now_usec) (map (peer_at h) ps)) c)"
proof (induction ps arbitrary: c)
  case Nil
  then show ?case by (simp add: counts_of_def)
next
  case (Cons p ps)
  then show ?case by (auto simp: count_peer_heard peer_at_def counts_of_Cons)
qed

text \<open>The peers an election takes into account.\<close>

definition heard_peers :: "ptr list \<Rightarrow> peer_heap \<Rightarrow> u64 \<Rightarrow> nan_peer list" where
  "heard_peers ps h now_usec = filter (heard now_usec) (map (peer_at h) ps)"

text \<open>The conditions of the protocol, and the role they lead to.\<close>

definition candidates_near :: "nan_peer list \<Rightarrow> bool" where
  "candidates_near vs \<longleftrightarrow> count_in (\<lambda>v. close_by v \<and> pe_master_candidate v) vs \<ge> 1
     \<or> count_in (\<lambda>v. in_middle v \<and> pe_master_candidate v) vs \<ge> 3"

definition higher_near :: "nan_sync_state \<Rightarrow> nan_peer list \<Rightarrow> bool" where
  "higher_near state vs \<longleftrightarrow> count_in (\<lambda>v. close_by v \<and> higher state v) vs \<ge> 1
     \<or> count_in (\<lambda>v. in_middle v \<and> higher state v) vs \<ge> 3"

definition higher_far :: "nan_sync_state \<Rightarrow> nan_peer list \<Rightarrow> bool" where
  "higher_far state vs \<longleftrightarrow> count_in close_by vs = 0 \<and> count_in (higher state) vs > 0"

definition next_role :: "nan_sync_state \<Rightarrow> nan_peer list \<Rightarrow> nan_role" where
  "next_role state vs =
     (if \<not> candidates_near vs then SYNC
      else if sy_role state = MASTER then (if higher_near state vs then NON_SYNC else MASTER)
      else (if higher_far state vs then MASTER else NON_SYNC))"

lemma nan_master_election_next_role:
  assumes "\<forall>p \<in> set ps. cells h p \<noteq> None"
  shows "nan_master_election state ps h now_usec
    = Some (state\<lparr>sy_role := next_role state (heard_peers ps h now_usec)\<rparr>)"
proof -
  let ?c = "counts_of state (heard_peers ps h now_usec) no_counts"
  have "nan_master_election state ps h now_usec = Some (election_transitions state ?c)"
    using election_loop [OF assms] by (simp add: nan_master_election_def heard_peers_def)
  moreover have "election_transitions state ?c
      = state\<lparr>sy_role := next_role state (heard_peers ps h now_usec)\<rparr>"
    by (cases state; cases "sy_role state")
      (auto simp: election_transitions_def next_role_def candidates_near_def higher_near_def
        higher_far_def counts_of_def no_counts_def Let_def)
  ultimately show ?thesis by simp
qed

section \<open>Steps of the synchronisation\<close>

text \<open>Everything that changes the synchronisation state, in any order and with any input.\<close>

inductive sync_step :: "nan_sync_state \<Rightarrow> nan_sync_state \<Rightarrow> bool" where
  elect: "nan_master_election s ps h now_usec = Some s' \<Longrightarrow> sync_step s s'"
| select: "sync_step s (nan_anchor_master_selection s peer synced_time_tu)"
| expire: "sync_step s (nan_check_anchor_master_expiration s)"
| update_rank: "sync_step s (snd (nan_update_master_rank s address))"
| update_preference:
    "nan_update_master_preference s peer now_usec r = Some (b, s', r') \<Longrightarrow> sync_step s s'"

inductive_cases sync_stepE: "sync_step s s'"

inductive sync_reachable :: "nan_sync_state \<Rightarrow> bool" where
  init: "sync_reachable (nan_sync_state_init address)"
| step: "sync_reachable s \<Longrightarrow> sync_step s s' \<Longrightarrow> sync_reachable s'"

text \<open>
  The anchor master's rank is never below the device's own, and the own rank is always built
  from the current preference and random factor.
\<close>

definition sync_inv :: "nan_sync_state \<Rightarrow> bool" where
  "sync_inv s \<longleftrightarrow> sy_master_rank s \<le> sy_anchor_master_rank s
     \<and> sy_master_rank s = nan_calculate_master_rank (sy_master_preference s) (sy_random_factor s)
          (nan_get_address_from_master_rank (sy_master_rank s))"

lemmas anchor_defs = nan_set_anchor_master_other_def nan_set_anchor_master_self_def
  nan_save_current_anchor_master_def Let_def

text \<open>The own identity: rank, preference and random factor.\<close>

definition same_identity :: "nan_sync_state \<Rightarrow> nan_sync_state \<Rightarrow> bool" where
  "same_identity s s' \<longleftrightarrow> sy_master_rank s' = sy_master_rank s
     \<and> sy_master_preference s' = sy_master_preference s \<and> sy_random_factor s' = sy_random_factor s"

lemma sync_inv_same_identity:
  "sync_inv s \<Longrightarrow> same_identity s s' \<Longrightarrow> sy_master_rank s \<le> sy_anchor_master_rank s' \<Longrightarrow> sync_inv s'"
  by (simp add: sync_inv_def same_identity_def)

lemma selection_other_identity: "same_identity s (anchor_master_selection_other s peer)"
  by (auto simp: same_identity_def anchor_master_selection_other_def anchor_defs)

lemma selection_identity: "same_identity s (nan_anchor_master_selection s peer t)"
  using selection_other_identity [of "nan_set_anchor_master_other s peer" peer]
    selection_other_identity [of s peer]
  by (auto simp: nan_anchor_master_selection_def)
    (auto simp: same_identity_def anchor_defs)

lemma selection_other_rank:
  "sy_master_rank s \<le> sy_anchor_master_rank s \<Longrightarrow>
     sy_master_rank s \<le> sy_anchor_master_rank (anchor_master_selection_other s peer)"
  by (auto simp: anchor_master_selection_other_def anchor_defs not_less)

lemma selection_rank:
  "sy_master_rank s \<le> sy_anchor_master_rank s \<Longrightarrow>
     sy_master_rank s \<le> sy_anchor_master_rank (nan_anchor_master_selection s peer t)"
  using selection_other_rank [of s peer]
    selection_other_rank [of "nan_set_anchor_master_other s peer" peer]
  by (auto simp: nan_anchor_master_selection_def)
    (auto simp: anchor_defs not_le)

lemma expiration_identity: "same_identity s (nan_check_anchor_master_expiration s)"
  by (simp add: same_identity_def nan_check_anchor_master_expiration_def anchor_defs)

lemma expiration_rank:
  "sy_master_rank s \<le> sy_anchor_master_rank s \<Longrightarrow>
     sy_master_rank s \<le> sy_anchor_master_rank (nan_check_anchor_master_expiration s)"
  by (simp add: nan_check_anchor_master_expiration_def anchor_defs)

lemma election_transitions_role:
  "election_transitions s c = s\<lparr>sy_role := sy_role (election_transitions s c)\<rparr>"
  by (cases s) (simp add: election_transitions_def Let_def)

lemma election_inv:
  "sync_inv s \<Longrightarrow> nan_master_election s ps h now_usec = Some s' \<Longrightarrow> sync_inv s'"
  by (auto simp: nan_master_election_def bind_eq_Some_conv sync_inv_def)
    (subst election_transitions_role, simp)+

text \<open>An update of the rank builds it afresh.\<close>

lemma update_rank_inv:
  assumes "sy_master_rank s \<le> sy_anchor_master_rank s"
  shows "sync_inv (snd (nan_update_master_rank s address))"
proof -
  define a where "a = (case address of None \<Rightarrow> nan_get_address_from_master_rank (sy_master_rank s)
      | Some a \<Rightarrow> a)"
  define n where "n = nan_calculate_master_rank (sy_master_preference s) (sy_random_factor s) a"
  have n: "nan_calculate_master_rank (sy_master_preference s) (sy_random_factor s)
      (nan_get_address_from_master_rank n) = n" by (simp add: n_def)
  show ?thesis
  proof (cases "n = sy_master_rank s")
    case True
    then have "nan_update_master_rank s address = (False, s)"
      by (simp add: nan_update_master_rank_def n_def a_def)
    with assms n True show ?thesis by (simp add: sync_inv_def)
  next
    case False
    define t where "t = snd (nan_update_master_rank s address)"
    have "sy_master_rank t = n \<and> sy_master_preference t = sy_master_preference s
        \<and> sy_random_factor t = sy_random_factor s \<and> n \<le> sy_anchor_master_rank t"
      using False by (auto simp: t_def nan_update_master_rank_def anchor_defs not_less
          simp flip: a_def n_def)
    with n show ?thesis by (simp add: sync_inv_def flip: t_def)
  qed
qed

lemma update_preference_cases:
  assumes "nan_update_master_preference s peer now_usec r = Some (b, s', r')"
  shows "s' = s \<or> (\<exists>t. sy_master_rank t = sy_master_rank s
    \<and> sy_anchor_master_rank t = sy_anchor_master_rank s \<and> s' = snd (nan_update_master_rank t None))"
proof (cases "pe_master_preference peer = pe_last_master_preference peer")
  case True
  with assms show ?thesis by (simp add: nan_update_master_preference_def)
next
  case False
  let ?e = "nan_time_difference_dw (sy_last_master_preference_update_usec s) now_usec"
  define t1 where "t1 = (\<lambda>v. s\<lparr>sy_random_factor := v, sy_last_random_factor_update_usec := now_usec\<rparr>)"
  define t2 where "t2 = (\<lambda>t :: nan_sync_state. t\<lparr>sy_master_preference := NAN_MASTER_PREFERENCE,
      sy_last_master_preference_update_usec := now_usec\<rparr>)"
  show ?thesis
  proof (cases "?e > 120")
    case early: False
    then have "\<not> ?e > 240" by (auto simp: word_less_nat_alt)
    with assms False early show ?thesis
      by (simp add: nan_update_master_preference_def Let_def)
  next
    case True
    with assms False obtain v r1 where "s' = snd (nan_update_master_rank
        (if ?e > 240 then t2 (t1 v) else t1 v) None)"
      by (cases "get_rand_num 0 255 r")
        (auto simp: nan_update_master_preference_def Let_def t1_def t2_def case_prod_beta
          split: if_splits)
    moreover have "sy_master_rank (if ?e > 240 then t2 (t1 v) else t1 v) = sy_master_rank s"
      "sy_anchor_master_rank (if ?e > 240 then t2 (t1 v) else t1 v) = sy_anchor_master_rank s"
      by (simp_all add: t1_def t2_def)
    ultimately show ?thesis by blast
  qed
qed

lemma update_preference_inv:
  assumes "sync_inv s" "nan_update_master_preference s peer now_usec r = Some (b, s', r')"
  shows "sync_inv s'"
proof -
  have "sy_master_rank s \<le> sy_anchor_master_rank s" using assms(1) unfolding sync_inv_def by blast
  then show ?thesis
    using update_preference_cases [OF assms(2)] assms(1) update_rank_inv by metis
qed

lemma sync_step_inv: "sync_step s s' \<Longrightarrow> sync_inv s \<Longrightarrow> sync_inv s'"
proof (induction rule: sync_step.induct)
  case (elect s ps h now_usec s')
  then show ?case using election_inv by blast
next
  case (select s peer t)
  then have "sy_master_rank s \<le> sy_anchor_master_rank s" unfolding sync_inv_def by blast
  then show ?case
    using sync_inv_same_identity [OF select selection_identity selection_rank] by blast
next
  case (expire s)
  then have "sy_master_rank s \<le> sy_anchor_master_rank s" unfolding sync_inv_def by blast
  then show ?case
    using sync_inv_same_identity [OF expire expiration_identity expiration_rank] by blast
next
  case (update_rank s address)
  then show ?case using update_rank_inv unfolding sync_inv_def by blast
next
  case (update_preference s peer now_usec r b s' r')
  then show ?case using update_preference_inv by blast
qed

lemma sync_reachable_inv: "sync_reachable s \<Longrightarrow> sync_inv s"
proof (induction rule: sync_reachable.induct)
  case (init address)
  show ?case by (simp add: sync_inv_def nan_sync_state_init_def Let_def)
next
  case (step s s')
  then show ?case using sync_step_inv by blast
qed

section \<open>Expiration\<close>

lemma not_self_expiration:
  "\<not> nan_is_anchor_master_self s \<Longrightarrow> sy_ambtt s \<noteq> sy_last_ambtt s \<Longrightarrow>
     (let s' = nan_check_anchor_master_expiration s in
      \<not> nan_is_anchor_master_self s' \<and> sy_ambtt s' \<noteq> sy_last_ambtt s'
      \<and> sy_anchor_master_rank s' = sy_anchor_master_rank s)"
  by (simp add: nan_check_anchor_master_expiration_def nan_is_anchor_master_self_def Let_def)

section \<open>Properties\<close>

text \<open>
  C31: The master rank orders devices by master preference, then random factor, then address,
  and the address of the issuer can be read back from it.
\<close>

theorem nan_master_rank_lexicographic:
  "(nan_calculate_master_rank mp rf a < nan_calculate_master_rank mp' rf' a' \<longleftrightarrow>
      mp < mp' \<or> mp = mp' \<and> (rf < rf' \<or> rf = rf' \<and> address_value a < address_value a'))
   \<and> nan_get_address_from_master_rank (nan_calculate_master_rank mp rf a) = a"
proof -
  have rf: "unat rf < 2 ^ 8" "unat rf' < 2 ^ 8" using unat_bound [of rf] unat_bound [of rf'] by simp_all
  have "nan_calculate_master_rank mp rf a < nan_calculate_master_rank mp' rf' a' \<longleftrightarrow>
      unat mp * 2 ^ 8 + unat rf < unat mp' * 2 ^ 8 + unat rf'
      \<or> unat mp * 2 ^ 8 + unat rf = unat mp' * 2 ^ 8 + unat rf' \<and> address_value a < address_value a'"
    unfolding word_less_nat_alt unat_master_rank
    by (rule digits_less_iff [OF address_value_bound address_value_bound])
  moreover have "unat mp * 2 ^ 8 + unat rf < unat mp' * 2 ^ 8 + unat rf' \<longleftrightarrow>
      unat mp < unat mp' \<or> unat mp = unat mp' \<and> unat rf < unat rf'"
    by (rule digits_less_iff [OF rf])
  moreover have "unat mp * 2 ^ 8 + unat rf = unat mp' * 2 ^ 8 + unat rf' \<longleftrightarrow>
      unat mp = unat mp' \<and> unat rf = unat rf'"
    by (rule digits_eq_iff [OF rf])
  ultimately have "nan_calculate_master_rank mp rf a < nan_calculate_master_rank mp' rf' a' \<longleftrightarrow>
      unat mp < unat mp' \<or> unat mp = unat mp' \<and> (unat rf < unat rf'
        \<or> unat rf = unat rf' \<and> address_value a < address_value a')"
    by blast
  then show ?thesis
    unfolding word_less_nat_alt [of mp] word_less_nat_alt [of rf] word_unat_eq_iff [of mp]
      word_unat_eq_iff [of rf] by (simp only: address_of_master_rank)
qed

text \<open>
  C10: The election decides by its table. It counts only peers heard within the last 20 time
  units; without a master candidate near by the role becomes SYNC whatever it was; with one, a
  master yields to a higher ranked peer near by, and a non-master becomes master only if no
  peer is close but a higher ranked one is heard.
\<close>

theorem nan_master_election_table:
  assumes "\<forall>p \<in> set ps. cells h p \<noteq> None"
  shows "nan_master_election state ps h now_usec
    = Some (state\<lparr>sy_role := next_role state (heard_peers ps h now_usec)\<rparr>)"
  using assms by (rule nan_master_election_next_role)

theorem nan_master_election_table_witness:
  "\<forall>(v :: nan_peer) (s :: nan_sync_state). nan_master_election (s\<lparr>sy_role := MASTER, sy_master_rank := 5\<rparr>) [1]
      \<lparr>cells = [1 \<mapsto> v\<lparr>pe_last_update := 80000, pe_rssi_average := - 50, pe_master_candidate := True,
         pe_master_preference := 128\<rparr>], brk = 2\<rparr> 90000
    = Some (s\<lparr>sy_role := NON_SYNC, sy_master_rank := 5\<rparr>)"
proof (intro allI)
  fix v :: nan_peer and s :: nan_sync_state
  let ?v = "v\<lparr>pe_last_update := 80000, pe_rssi_average := - 50, pe_master_candidate := True,
         pe_master_preference := 128\<rparr>"
  let ?s = "s\<lparr>sy_role := MASTER, sy_master_rank := 5\<rparr>"
  have rank: "higher ?s ?v"
    by (simp add: higher_def nan_get_peer_master_rank_def word_less_nat_alt unat_master_rank)
  have "heard_peers [1] \<lparr>cells = [1 \<mapsto> ?v], brk = 2\<rparr> 90000 = [?v]"
    by (simp add: heard_peers_def heard_def peer_at_def TU_TO_USEC_def)
  moreover have "next_role ?s [?v] = NON_SYNC"
    using rank by (simp add: next_role_def candidates_near_def higher_near_def count_in_def)
  ultimately show "nan_master_election ?s [1] \<lparr>cells = [1 \<mapsto> ?v], brk = 2\<rparr> 90000
      = Some (s\<lparr>sy_role := NON_SYNC, sy_master_rank := 5\<rparr>)"
    using nan_master_election_table [of "[1]" "\<lparr>cells = [1 \<mapsto> ?v], brk = 2\<rparr>" ?s 90000] by simp
qed

text \<open>
  C37: A device that hears no peer gives up the master role it starts with: the branch that
  turns a non-synchronising device into a synchronising one is also taken by a master.
\<close>

theorem nan_lone_master_is_demoted:
  assumes "\<forall>p \<in> set ps. cells h p \<noteq> None" "sy_role state = MASTER"
    and "\<forall>p \<in> set ps. \<not> heard now_usec (peer_at h p)"
  shows "map_option sy_role (nan_master_election state ps h now_usec) = Some SYNC"
proof -
  have "heard_peers ps h now_usec = []" using assms(3) by (auto simp: heard_peers_def filter_empty_conv)
  then show ?thesis
    by (simp add: nan_master_election_next_role [OF assms(1)] next_role_def candidates_near_def)
qed

theorem nan_lone_master_is_demoted_witness:
  "\<forall>a. map_option sy_role (nan_master_election (nan_sync_state_init a) [] store_empty 99) = Some SYNC"
  by (intro allI, rule nan_lone_master_is_demoted) (simp_all add: nan_sync_state_init_def Let_def)

text \<open>
  C9: In every state reachable from the initial one by elections, received beacons,
  expirations and updates of the own rank, in any order, the anchor master's rank is at least
  the device's own rank, and the own rank consists of the current preference, random factor
  and an address.
\<close>

theorem sync_reachable_anchor_not_below:
  "sync_reachable s \<Longrightarrow> sy_master_rank s \<le> sy_anchor_master_rank s
     \<and> (\<exists>a. sy_master_rank s = nan_calculate_master_rank (sy_master_preference s) (sy_random_factor s) a)"
  using sync_reachable_inv unfolding sync_inv_def by blast

theorem sync_reachable_anchor_not_below_witness:
  "\<forall>peer. sy_master_rank (nan_anchor_master_selection (nan_sync_state_init (Ether_Addr 2 0 0 0 0 1)) peer 7)
     \<le> sy_anchor_master_rank (nan_anchor_master_selection (nan_sync_state_init (Ether_Addr 2 0 0 0 0 1)) peer 7)"
proof
  fix peer
  have "sync_reachable (nan_anchor_master_selection (nan_sync_state_init (Ether_Addr 2 0 0 0 0 1)) peer 7)"
    by (rule sync_reachable.step [OF sync_reachable.init sync_step.select])
  from sync_reachable_anchor_not_below [OF this]
  show "sy_master_rank (nan_anchor_master_selection (nan_sync_state_init (Ether_Addr 2 0 0 0 0 1)) peer 7)
     \<le> sy_anchor_master_rank (nan_anchor_master_selection (nan_sync_state_init (Ether_Addr 2 0 0 0 0 1)) peer 7)"
    by blast
qed

lemma selection_other_lower:
  assumes "sy_anchor_master_rank (nan_anchor_master_selection s peer t) < sy_anchor_master_rank s"
    and "\<not> nan_is_anchor_master_self s"
  shows "nan_is_same_master_rank_issuer (sy_anchor_master_rank s) (pe_anchor_master_rank peer)
    \<and> pe_anchor_master_rank peer < sy_anchor_master_rank s
    \<and> sy_anchor_master_rank (nan_anchor_master_selection s peer t)
        = max (sy_master_rank s) (pe_anchor_master_rank peer)"
proof -
  let ?old = "sy_anchor_master_rank s" and ?new = "pe_anchor_master_rank peer"
  have sel: "nan_anchor_master_selection s peer t = anchor_master_selection_other s peer"
    using assms by (auto simp: nan_anchor_master_selection_def split: if_splits)
  consider "?old < ?new" | "?old > ?new" | "?old = ?new" by fastforce
  then show ?thesis
  proof cases
    case 1
    with assms(1) show ?thesis
      unfolding sel by (simp add: anchor_master_selection_other_def anchor_defs split: if_splits)
  next
    case 2
    then have nl: "\<not> ?old < ?new" by simp
    with 2 assms(1) have "nan_is_same_master_rank_issuer ?old ?new"
      unfolding sel by (simp add: anchor_master_selection_other_def split: if_splits)
    with 2 nl show ?thesis
      unfolding sel by (auto simp: anchor_master_selection_other_def anchor_defs max_def)
  next
    case 3
    with assms(1) show ?thesis
      unfolding sel by (simp add: anchor_master_selection_other_def Let_def split: if_splits)
  qed
qed

lemma selection_self_lower:
  assumes "sy_anchor_master_rank (nan_anchor_master_selection s peer t) < sy_anchor_master_rank s"
    and "nan_is_anchor_master_self s"
  shows "sy_master_rank s < pe_anchor_master_rank peer
    \<and> \<not> nan_is_same_master_rank_issuer (sy_master_rank s) (pe_anchor_master_rank peer)
    \<and> pe_anchor_master_rank peer < sy_anchor_master_rank s
    \<and> sy_anchor_master_rank (nan_anchor_master_selection s peer t) = pe_anchor_master_rank peer"
proof -
  have "\<not> sy_master_rank s \<ge> pe_anchor_master_rank peer"
    "\<not> nan_is_same_master_rank_issuer (sy_master_rank s) (pe_anchor_master_rank peer)"
    and sel: "nan_anchor_master_selection s peer t
      = anchor_master_selection_other (nan_set_anchor_master_other s peer) peer"
    using assms by (auto simp: nan_anchor_master_selection_def split: if_splits)
  moreover have "sy_anchor_master_rank (nan_anchor_master_selection s peer t) = pe_anchor_master_rank peer"
    unfolding sel by (simp add: anchor_master_selection_other_def anchor_defs Let_def)
  ultimately show ?thesis using assms(1) by simp
qed

text \<open>
  C11: The rank of the anchor master only goes down on a beacon with a lower rank, and then to
  that rank or to the own one, whichever is higher. While another device is the anchor master
  the beacon's rank must be one of that very device; when the device itself is, it must be
  above the own rank and of another device.
\<close>

theorem nan_anchor_master_selection_monotone:
  assumes "sy_anchor_master_rank (nan_anchor_master_selection s peer t) < sy_anchor_master_rank s"
  shows "pe_anchor_master_rank peer < sy_anchor_master_rank s
    \<and> sy_anchor_master_rank (nan_anchor_master_selection s peer t)
        = max (sy_master_rank s) (pe_anchor_master_rank peer)
    \<and> (if nan_is_anchor_master_self s
       then sy_master_rank s < pe_anchor_master_rank peer
         \<and> \<not> nan_is_same_master_rank_issuer (sy_master_rank s) (pe_anchor_master_rank peer)
       else nan_is_same_master_rank_issuer (sy_anchor_master_rank s) (pe_anchor_master_rank peer))"
proof (cases "nan_is_anchor_master_self s")
  case True
  with selection_self_lower [OF assms True] show ?thesis by (auto simp: max_def)
next
  case False
  with selection_other_lower [OF assms False] show ?thesis by simp
qed

theorem nan_anchor_master_selection_monotone_witness:
  "\<exists>s peer. nan_is_same_master_rank_issuer (sy_anchor_master_rank s) (pe_anchor_master_rank peer)
    \<and> pe_anchor_master_rank peer < sy_anchor_master_rank s
    \<and> sy_anchor_master_rank (nan_anchor_master_selection s peer 0)
        = max (sy_master_rank s) (pe_anchor_master_rank peer)"
proof -
  define a where "a = Ether_Addr 2 0 0 0 0 1"
  define b where "b = Ether_Addr 2 0 0 0 0 2"
  define s where "s = nan_sync_state_init a\<lparr>sy_anchor_master_rank := nan_calculate_master_rank 9 9 b\<rparr>"
  define peer where "peer = (undefined :: nan_peer)\<lparr>pe_anchor_master_rank := nan_calculate_master_rank 8 9 b\<rparr>"
  have lt: "nan_calculate_master_rank 8 9 b < nan_calculate_master_rank 9 9 b"
    and ge: "\<not> nan_calculate_master_rank 8 9 b < nan_calculate_master_rank 0 0 a"
    unfolding word_less_nat_alt unat_master_rank
    using address_value_bound [of a] by simp_all
  then have ne: "nan_calculate_master_rank 9 9 b \<noteq> nan_calculate_master_rank 8 9 b"
    "\<not> nan_calculate_master_rank 9 9 b < nan_calculate_master_rank 8 9 b" by auto
  have ns: "\<not> nan_is_anchor_master_self s"
    by (simp add: s_def nan_is_anchor_master_self_def nan_is_same_master_rank_issuer_def
        nan_is_master_rank_issuer_def nan_sync_state_init_def Let_def a_def b_def)
  have same: "nan_is_same_master_rank_issuer (nan_calculate_master_rank 9 9 b)
      (nan_calculate_master_rank 8 9 b)"
    by (simp add: nan_is_same_master_rank_issuer_def nan_is_master_rank_issuer_def)
  have less: "sy_anchor_master_rank (nan_anchor_master_selection s peer 0) < sy_anchor_master_rank s"
    using ns lt ge same ne
    by (auto simp: nan_anchor_master_selection_def anchor_master_selection_other_def anchor_defs
        s_def peer_def nan_sync_state_init_def)
  from nan_anchor_master_selection_monotone [OF less] ns show ?thesis by auto
qed

text \<open>
  C38: From a synchronised time of \<open>2\<^sup>1\<^sup>9\<close> units on (less than nine minutes), a beacon with the
  current anchor master rank is always taken for an outdated one: its transmission time has 32
  bits and is compared with the synchronised time multiplied, not reduced, by sixteen intervals.
\<close>

theorem nan_anchor_master_beacons_ignored:
  assumes "pe_anchor_master_rank peer = sy_anchor_master_rank s" "2 ^ 19 \<le> unat t" "unat t < 2 ^ 51"
  shows "nan_anchor_master_selection s peer t = s"
proof -
  have "unat (t * 16 * 512) = unat t * 8192"
    using assms(3) by (simp add: mult.assoc unat_mult_mod)
  moreover have "unat (pe_ambtt peer) < 2 ^ 32" using unat_bound [of "pe_ambtt peer"] by simp
  ultimately have "ucast (pe_ambtt peer) \<le> t * 16 * 512"
    using assms(2) by (simp add: word_le_nat_alt unat_ucast_up)
  then show ?thesis using assms(1) by (simp add: nan_anchor_master_selection_def)
qed

theorem nan_anchor_master_beacons_ignored_witness:
  "\<forall>a peer. nan_anchor_master_selection (nan_sync_state_init a)
     (peer\<lparr>pe_anchor_master_rank := nan_calculate_master_rank 0 0 a, pe_ambtt := 0xFFFFFFFF\<rparr>) 600000
   = nan_sync_state_init a"
  by (intro allI, rule nan_anchor_master_beacons_ignored) (simp_all add: nan_sync_state_init_def Let_def)

text \<open>
  C39: The anchor master of another device never expires once its last transmission time
  differs from the saved one, as it does after switching to it: the saved time is not updated
  at the end of a window, so the counter of windows without an update is reset every time.
\<close>

theorem nan_anchor_master_never_expires:
  assumes "\<not> nan_is_anchor_master_self s" "sy_ambtt s \<noteq> sy_last_ambtt s"
  shows "sy_anchor_master_rank ((nan_check_anchor_master_expiration ^^ n) s) = sy_anchor_master_rank s"
proof -
  have "\<not> nan_is_anchor_master_self ((nan_check_anchor_master_expiration ^^ n) s)
      \<and> sy_ambtt ((nan_check_anchor_master_expiration ^^ n) s)
          \<noteq> sy_last_ambtt ((nan_check_anchor_master_expiration ^^ n) s)
      \<and> sy_anchor_master_rank ((nan_check_anchor_master_expiration ^^ n) s) = sy_anchor_master_rank s"
  proof (induction n)
    case 0
    with assms show ?case by simp
  next
    case (Suc n)
    then show ?case
      using not_self_expiration [of "(nan_check_anchor_master_expiration ^^ n) s"]
      by (simp add: Let_def)
  qed
  then show ?thesis by blast
qed

theorem nan_anchor_master_never_expires_witness:
  "sy_anchor_master_rank ((nan_check_anchor_master_expiration ^^ 1000)
      (nan_sync_state_init (Ether_Addr 2 0 0 0 0 1)
        \<lparr>sy_anchor_master_rank := nan_calculate_master_rank 9 9 (Ether_Addr 2 0 0 0 0 2), sy_ambtt := 7\<rparr>))
   = nan_calculate_master_rank 9 9 (Ether_Addr 2 0 0 0 0 2)"
proof -
  let ?s = "nan_sync_state_init (Ether_Addr 2 0 0 0 0 1)
        \<lparr>sy_anchor_master_rank := nan_calculate_master_rank 9 9 (Ether_Addr 2 0 0 0 0 2), sy_ambtt := 7\<rparr>"
  have "\<not> nan_is_anchor_master_self ?s"
    by (simp add: nan_is_anchor_master_self_def nan_is_same_master_rank_issuer_def
        nan_is_master_rank_issuer_def nan_sync_state_init_def Let_def)
  moreover have "sy_ambtt ?s \<noteq> sy_last_ambtt ?s" by (simp add: nan_sync_state_init_def Let_def)
  ultimately have "sy_anchor_master_rank ((nan_check_anchor_master_expiration ^^ 1000) ?s)
      = sy_anchor_master_rank ?s"
    by (rule nan_anchor_master_never_expires)
  also have "sy_anchor_master_rank ?s = nan_calculate_master_rank 9 9 (Ether_Addr 2 0 0 0 0 2)"
    by simp
  finally show ?thesis .
qed

end
