(* ===== verification/Nan_Attributes.thy ===== *)
theory Nan_Attributes
  imports Nan_Frame
begin

text \<open>
  NAN attributes of \<^verbatim>\<open>src/src/attributes.h\<close> and \<^verbatim>\<open>src/src/attributes.c\<close>: the attribute types
  with their numbers and names, and the packed structures and bit fields that the reception
  (\<^verbatim>\<open>rx.c\<close>) and the transmission (\<^verbatim>\<open>tx.c\<close>) of frames use. A bit field is kept as the word it
  occupies, with one function for reading and one for assigning each member; the first member
  is in the lowest bits.
\<close>

section \<open>Attribute types\<close>

datatype nan_attribute_type =
    MASTER_INDICATION_ATTRIBUTE | CLUSTER_ATTRIBUTE | SERVICE_ID_LIST_ATTRIBUTE
    | SERVICE_DESCRIPTOR_ATTRIBUTE | NAN_CONNECTION_CAPABILITY_ATTRIBUTE
    | WLAN_INFRASTRUCTURE_ATTRIBUTE | P2P_OPERATION_ATTRIBUTE | IBSS_ATTRIBUTE | MESH_ATTRIBUTE
    | FURTHER_NAN_SERVICE_DISCOVERY_ATTRIBUTE | FURTHER_AVAILABILITY_MAP_ATTRIBUTE
    | COUNTRY_CODE_ATTRIBUTE | RANGING_ATTRIBUTE | CLUSTER_DISCOVERY_ATTRIBUTE
    | SERVICE_DESCRIPTOR_EXTENSION_ATTRIBUTE | DEVICE_CAPABILITY_ATTRIBUTE | NDP_ATTRIBUTE
    | NMSG_ATTRIBUTE | NAN_AVAILABILITY_ATTRIBUTE | NDC_ATTRIBUTE | NDL_ATTRIBUTE
    | NDL_QOS_ATTRIBUTE | MULTICAST_SCHEDULE_ATTRIBUTE | UNALIGNED_SCHEDULE_ATTRIBUTE
    | PAGING_UNICAST_ATTRIBUTE | PAGING_MULTICAST_ATTRIBUTE | RANGING_INFORMATION_ATTRIBUTE
    | RANGING_SETUP_ATTRIBUTE | FTM_RANGING_REPORT_ATTRIBUTE | ELEMENT_CONTAINER_ATTRIBUTE
    | EXTENDED_WLAN_INFRASTRUCTURE_ATTRIBUTE | EXTENDED_P2P_OPERATION_ATTRIBUTE
    | EXTENDED_IBSS_ATTRIBUTE | EXTENDED_MESH_ATTRIBUTE | CIPHER_SUITE_INFO_ATTRIBUTE
    | SECURITY_CONTEXT_INFO_ATTRIBUTE | SHARED_KEY_DESCRIPTOR_ATTRIBUTE
    | MULTICAST_SCHEDULE_CHANGE_ATTRIBUTE | MULTICAST_SCHEDULE_OWNER_CHANGE_ATTRIBUTE
    | PUBLIC_AVAILABILITY_ATTRIBUTE | SUBSCRIBE_SERVICE_ID_LIST_ATTRIBUTE
    | NDP_EXTENSION_ATTRIBUTE | VENDOR_SPECIFIC_ATTRIBUTE

primrec attribute_type_val :: "nan_attribute_type \<Rightarrow> u8" where
  "attribute_type_val MASTER_INDICATION_ATTRIBUTE = 0x00"
| "attribute_type_val CLUSTER_ATTRIBUTE = 0x01"
| "attribute_type_val SERVICE_ID_LIST_ATTRIBUTE = 0x02"
| "attribute_type_val SERVICE_DESCRIPTOR_ATTRIBUTE = 0x03"
| "attribute_type_val NAN_CONNECTION_CAPABILITY_ATTRIBUTE = 0x04"
| "attribute_type_val WLAN_INFRASTRUCTURE_ATTRIBUTE = 0x05"
| "attribute_type_val P2P_OPERATION_ATTRIBUTE = 0x06"
| "attribute_type_val IBSS_ATTRIBUTE = 0x07"
| "attribute_type_val MESH_ATTRIBUTE = 0x08"
| "attribute_type_val FURTHER_NAN_SERVICE_DISCOVERY_ATTRIBUTE = 0x09"
| "attribute_type_val FURTHER_AVAILABILITY_MAP_ATTRIBUTE = 0x0a"
| "attribute_type_val COUNTRY_CODE_ATTRIBUTE = 0x0b"
| "attribute_type_val RANGING_ATTRIBUTE = 0x0c"
| "attribute_type_val CLUSTER_DISCOVERY_ATTRIBUTE = 0x0d"
| "attribute_type_val SERVICE_DESCRIPTOR_EXTENSION_ATTRIBUTE = 0x0e"
| "attribute_type_val DEVICE_CAPABILITY_ATTRIBUTE = 0x0f"
| "attribute_type_val NDP_ATTRIBUTE = 0x10"
| "attribute_type_val NMSG_ATTRIBUTE = 0x11"
| "attribute_type_val NAN_AVAILABILITY_ATTRIBUTE = 0x12"
| "attribute_type_val NDC_ATTRIBUTE = 0x13"
| "attribute_type_val NDL_ATTRIBUTE = 0x14"
| "attribute_type_val NDL_QOS_ATTRIBUTE = 0x15"
| "attribute_type_val MULTICAST_SCHEDULE_ATTRIBUTE = 0x16"
| "attribute_type_val UNALIGNED_SCHEDULE_ATTRIBUTE = 0x17"
| "attribute_type_val PAGING_UNICAST_ATTRIBUTE = 0x18"
| "attribute_type_val PAGING_MULTICAST_ATTRIBUTE = 0x19"
| "attribute_type_val RANGING_INFORMATION_ATTRIBUTE = 0x1a"
| "attribute_type_val RANGING_SETUP_ATTRIBUTE = 0x1b"
| "attribute_type_val FTM_RANGING_REPORT_ATTRIBUTE = 0x1c"
| "attribute_type_val ELEMENT_CONTAINER_ATTRIBUTE = 0x1d"
| "attribute_type_val EXTENDED_WLAN_INFRASTRUCTURE_ATTRIBUTE = 0x1e"
| "attribute_type_val EXTENDED_P2P_OPERATION_ATTRIBUTE = 0x1f"
| "attribute_type_val EXTENDED_IBSS_ATTRIBUTE = 0x20"
| "attribute_type_val EXTENDED_MESH_ATTRIBUTE = 0x21"
| "attribute_type_val CIPHER_SUITE_INFO_ATTRIBUTE = 0x22"
| "attribute_type_val SECURITY_CONTEXT_INFO_ATTRIBUTE = 0x23"
| "attribute_type_val SHARED_KEY_DESCRIPTOR_ATTRIBUTE = 0x24"
| "attribute_type_val MULTICAST_SCHEDULE_CHANGE_ATTRIBUTE = 0x25"
| "attribute_type_val MULTICAST_SCHEDULE_OWNER_CHANGE_ATTRIBUTE = 0x26"
| "attribute_type_val PUBLIC_AVAILABILITY_ATTRIBUTE = 0x27"
| "attribute_type_val SUBSCRIBE_SERVICE_ID_LIST_ATTRIBUTE = 0x28"
| "attribute_type_val NDP_EXTENSION_ATTRIBUTE = 0x29"
| "attribute_type_val VENDOR_SPECIFIC_ATTRIBUTE = 0xdd"

primrec attribute_type_name :: "nan_attribute_type \<Rightarrow> string" where
  "attribute_type_name MASTER_INDICATION_ATTRIBUTE = ''MASTER_INDICATION_ATTRIBUTE''"
| "attribute_type_name CLUSTER_ATTRIBUTE = ''CLUSTER_ATTRIBUTE''"
| "attribute_type_name SERVICE_ID_LIST_ATTRIBUTE = ''SERVICE_ID_LIST_ATTRIBUTE''"
| "attribute_type_name SERVICE_DESCRIPTOR_ATTRIBUTE = ''SERVICE_DESCRIPTOR_ATTRIBUTE''"
| "attribute_type_name NAN_CONNECTION_CAPABILITY_ATTRIBUTE = ''NAN_CONNECTION_CAPABILITY_ATTRIBUTE''"
| "attribute_type_name WLAN_INFRASTRUCTURE_ATTRIBUTE = ''WLAN_INFRASTRUCTURE_ATTRIBUTE''"
| "attribute_type_name P2P_OPERATION_ATTRIBUTE = ''P2P_OPERATION_ATTRIBUTE''"
| "attribute_type_name IBSS_ATTRIBUTE = ''IBSS_ATTRIBUTE''"
| "attribute_type_name MESH_ATTRIBUTE = ''MESH_ATTRIBUTE''"
| "attribute_type_name FURTHER_NAN_SERVICE_DISCOVERY_ATTRIBUTE = ''FURTHER_NAN_SERVICE_DISCOVERY_ATTRIBUTE''"
| "attribute_type_name FURTHER_AVAILABILITY_MAP_ATTRIBUTE = ''FURTHER_AVAILABILITY_MAP_ATTRIBUTE''"
| "attribute_type_name COUNTRY_CODE_ATTRIBUTE = ''COUNTRY_CODE_ATTRIBUTE''"
| "attribute_type_name RANGING_ATTRIBUTE = ''RANGING_ATTRIBUTE''"
| "attribute_type_name CLUSTER_DISCOVERY_ATTRIBUTE = ''CLUSTER_DISCOVERY_ATTRIBUTE''"
| "attribute_type_name SERVICE_DESCRIPTOR_EXTENSION_ATTRIBUTE = ''SERVICE_DESCRIPTOR_EXTENSION_ATTRIBUTE''"
| "attribute_type_name DEVICE_CAPABILITY_ATTRIBUTE = ''DEVICE_CAPABILITY_ATTRIBUTE''"
| "attribute_type_name NDP_ATTRIBUTE = ''NDP_ATTRIBUTE''"
| "attribute_type_name NMSG_ATTRIBUTE = ''NMSG_ATTRIBUTE''"
| "attribute_type_name NAN_AVAILABILITY_ATTRIBUTE = ''NAN_AVAILABILITY_ATTRIBUTE''"
| "attribute_type_name NDC_ATTRIBUTE = ''NDC_ATTRIBUTE''"
| "attribute_type_name NDL_ATTRIBUTE = ''NDL_ATTRIBUTE''"
| "attribute_type_name NDL_QOS_ATTRIBUTE = ''NDL_QOS_ATTRIBUTE''"
| "attribute_type_name MULTICAST_SCHEDULE_ATTRIBUTE = ''MULTICAST_SCHEDULE_ATTRIBUTE''"
| "attribute_type_name UNALIGNED_SCHEDULE_ATTRIBUTE = ''UNALIGNED_SCHEDULE_ATTRIBUTE''"
| "attribute_type_name PAGING_UNICAST_ATTRIBUTE = ''PAGING_UNICAST_ATTRIBUTE''"
| "attribute_type_name PAGING_MULTICAST_ATTRIBUTE = ''PAGING_MULTICAST_ATTRIBUTE''"
| "attribute_type_name RANGING_INFORMATION_ATTRIBUTE = ''RANGING_INFORMATION_ATTRIBUTE''"
| "attribute_type_name RANGING_SETUP_ATTRIBUTE = ''RANGING_SETUP_ATTRIBUTE''"
| "attribute_type_name FTM_RANGING_REPORT_ATTRIBUTE = ''FTM_RANGING_REPORT_ATTRIBUTE''"
| "attribute_type_name ELEMENT_CONTAINER_ATTRIBUTE = ''ELEMENT_CONTAINER_ATTRIBUTE''"
| "attribute_type_name EXTENDED_WLAN_INFRASTRUCTURE_ATTRIBUTE = ''EXTENDED_WLAN_INFRASTRUCTURE_ATTRIBUTE''"
| "attribute_type_name EXTENDED_P2P_OPERATION_ATTRIBUTE = ''EXTENDED_P2P_OPERATION_ATTRIBUTE''"
| "attribute_type_name EXTENDED_IBSS_ATTRIBUTE = ''EXTENDED_IBSS_ATTRIBUTE''"
| "attribute_type_name EXTENDED_MESH_ATTRIBUTE = ''EXTENDED_MESH_ATTRIBUTE''"
| "attribute_type_name CIPHER_SUITE_INFO_ATTRIBUTE = ''CIPHER_SUITE_INFO_ATTRIBUTE''"
| "attribute_type_name SECURITY_CONTEXT_INFO_ATTRIBUTE = ''SECURITY_CONTEXT_INFO_ATTRIBUTE''"
| "attribute_type_name SHARED_KEY_DESCRIPTOR_ATTRIBUTE = ''SHARED_KEY_DESCRIPTOR_ATTRIBUTE''"
| "attribute_type_name MULTICAST_SCHEDULE_CHANGE_ATTRIBUTE = ''MULTICAST_SCHEDULE_CHANGE_ATTRIBUTE''"
| "attribute_type_name MULTICAST_SCHEDULE_OWNER_CHANGE_ATTRIBUTE = ''MULTICAST_SCHEDULE_OWNER_CHANGE_ATTRIBUTE''"
| "attribute_type_name PUBLIC_AVAILABILITY_ATTRIBUTE = ''PUBLIC_AVAILABILITY_ATTRIBUTE''"
| "attribute_type_name SUBSCRIBE_SERVICE_ID_LIST_ATTRIBUTE = ''SUBSCRIBE_SERVICE_ID_LIST_ATTRIBUTE''"
| "attribute_type_name NDP_EXTENSION_ATTRIBUTE = ''NDP_EXTENSION_ATTRIBUTE''"
| "attribute_type_name VENDOR_SPECIFIC_ATTRIBUTE = ''VENDOR_SPECIFIC_ATTRIBUTE''"

definition nan_attribute_types :: "nan_attribute_type list" where
  "nan_attribute_types =
    [MASTER_INDICATION_ATTRIBUTE, CLUSTER_ATTRIBUTE, SERVICE_ID_LIST_ATTRIBUTE,
     SERVICE_DESCRIPTOR_ATTRIBUTE, NAN_CONNECTION_CAPABILITY_ATTRIBUTE,
     WLAN_INFRASTRUCTURE_ATTRIBUTE, P2P_OPERATION_ATTRIBUTE, IBSS_ATTRIBUTE, MESH_ATTRIBUTE,
     FURTHER_NAN_SERVICE_DISCOVERY_ATTRIBUTE, FURTHER_AVAILABILITY_MAP_ATTRIBUTE,
     COUNTRY_CODE_ATTRIBUTE, RANGING_ATTRIBUTE, CLUSTER_DISCOVERY_ATTRIBUTE,
     SERVICE_DESCRIPTOR_EXTENSION_ATTRIBUTE, DEVICE_CAPABILITY_ATTRIBUTE, NDP_ATTRIBUTE,
     NMSG_ATTRIBUTE, NAN_AVAILABILITY_ATTRIBUTE, NDC_ATTRIBUTE, NDL_ATTRIBUTE,
     NDL_QOS_ATTRIBUTE, MULTICAST_SCHEDULE_ATTRIBUTE, UNALIGNED_SCHEDULE_ATTRIBUTE,
     PAGING_UNICAST_ATTRIBUTE, PAGING_MULTICAST_ATTRIBUTE, RANGING_INFORMATION_ATTRIBUTE,
     RANGING_SETUP_ATTRIBUTE, FTM_RANGING_REPORT_ATTRIBUTE, ELEMENT_CONTAINER_ATTRIBUTE,
     EXTENDED_WLAN_INFRASTRUCTURE_ATTRIBUTE, EXTENDED_P2P_OPERATION_ATTRIBUTE,
     EXTENDED_IBSS_ATTRIBUTE, EXTENDED_MESH_ATTRIBUTE, CIPHER_SUITE_INFO_ATTRIBUTE,
     SECURITY_CONTEXT_INFO_ATTRIBUTE, SHARED_KEY_DESCRIPTOR_ATTRIBUTE,
     MULTICAST_SCHEDULE_CHANGE_ATTRIBUTE, MULTICAST_SCHEDULE_OWNER_CHANGE_ATTRIBUTE,
     PUBLIC_AVAILABILITY_ATTRIBUTE, SUBSCRIBE_SERVICE_ID_LIST_ATTRIBUTE,
     NDP_EXTENSION_ATTRIBUTE, VENDOR_SPECIFIC_ATTRIBUTE]"

definition nan_attribute_type_as_string :: "u8 \<Rightarrow> string" where
  "nan_attribute_type_as_string attribute_type =
     (case List.find (\<lambda>t. attribute_type_val t = attribute_type) nan_attribute_types of
        Some t \<Rightarrow> attribute_type_name t | None \<Rightarrow> ''UNKNOWN_ATTRIBUTE'')"

section \<open>Service identifiers\<close>

abbreviation (input) NAN_SERVICE_ID_LENGTH :: nat where "NAN_SERVICE_ID_LENGTH \<equiv> 6"

text \<open>The six bytes, in order.\<close>

type_synonym nan_service_id = "u8 list"

section \<open>Attribute headers and bodies\<close>

definition nan_attribute_header_bytes :: "u8 \<Rightarrow> u16 \<Rightarrow> u8 list" where
  "nan_attribute_header_bytes attribute_id len = attribute_id # le_bytes 2 len"

record nan_master_indication_attribute =
  mi_id :: u8
  mi_length :: u16
  mi_master_preference :: u8
  mi_random_factor :: u8

definition nan_master_indication_attribute_bytes :: "nan_master_indication_attribute \<Rightarrow> u8 list" where
  "nan_master_indication_attribute_bytes a =
     nan_attribute_header_bytes (mi_id a) (mi_length a) @ [mi_master_preference a, mi_random_factor a]"

record nan_cluster_attribute =
  ca_id :: u8
  ca_length :: u16
  ca_anchor_master_rank :: u64
  ca_hop_count :: u8
  ca_anchor_master_beacon_transmission_time :: u32

definition nan_cluster_attribute_bytes :: "nan_cluster_attribute \<Rightarrow> u8 list" where
  "nan_cluster_attribute_bytes a =
     nan_attribute_header_bytes (ca_id a) (ca_length a) @ le_bytes 8 (ca_anchor_master_rank a)
     @ [ca_hop_count a] @ le_bytes 4 (ca_anchor_master_beacon_transmission_time a)"

section \<open>Bit fields\<close>

text \<open>A field of \<open>n\<close> bits from bit \<open>i\<close>, and its assignment, which keeps the low \<open>n\<close> bits.\<close>

definition field_get :: "nat \<Rightarrow> nat \<Rightarrow> 'a::len word \<Rightarrow> 'a word" where
  "field_get i n w = take_bit n (drop_bit i w)"

definition field_set :: "nat \<Rightarrow> nat \<Rightarrow> 'a::len word \<Rightarrow> 'a word \<Rightarrow> 'a word" where
  "field_set i n v w = (w AND NOT (push_bit i (mask n))) OR push_bit i (take_bit n v)"

lemma field_get_set:
  "i + n \<le> LENGTH('a) \<Longrightarrow> field_get i n (field_set i n v (w :: 'a::len word)) = take_bit n v"
  by (rule bit_word_eqI) (auto simp: field_get_def field_set_def bit_simps)

lemma field_get_set_other:
  "i + n \<le> j \<or> j + m \<le> i \<Longrightarrow> field_get j m (field_set i n v (w :: 'a::len word)) = field_get j m w"
  by (rule bit_word_eqI) (auto simp: field_get_def field_set_def bit_simps dest: bit_imp_le_length)

datatype nan_service_control_type = CONTROL_TYPE_PUBLISH | CONTROL_TYPE_SUBSCRIBE | CONTROL_TYPE_FOLLOW_UP

primrec service_control_type_val :: "nan_service_control_type \<Rightarrow> u8" where
  "service_control_type_val CONTROL_TYPE_PUBLISH = 0"
| "service_control_type_val CONTROL_TYPE_SUBSCRIBE = 1"
| "service_control_type_val CONTROL_TYPE_FOLLOW_UP = 2"

text \<open>\<^verbatim>\<open>struct nan_service_descriptor_control\<close>, one byte.\<close>

definition sdc_service_control_type :: "u8 \<Rightarrow> u8" where
  "sdc_service_control_type c = field_get 0 2 c"

definition sdc_matching_filter_present :: "u8 \<Rightarrow> bool" where
  "sdc_matching_filter_present c \<longleftrightarrow> field_get 2 1 c \<noteq> 0"

definition sdc_service_response_filter_present :: "u8 \<Rightarrow> bool" where
  "sdc_service_response_filter_present c \<longleftrightarrow> field_get 3 1 c \<noteq> 0"

definition sdc_service_info_present :: "u8 \<Rightarrow> bool" where
  "sdc_service_info_present c \<longleftrightarrow> field_get 4 1 c \<noteq> 0"

definition sdc_binding_bitmap_present :: "u8 \<Rightarrow> bool" where
  "sdc_binding_bitmap_present c \<longleftrightarrow> field_get 6 1 c \<noteq> 0"

definition sdc_set_service_control_type :: "u8 \<Rightarrow> u8 \<Rightarrow> u8" where
  "sdc_set_service_control_type t c = field_set 0 2 t c"

definition sdc_set_service_info_present :: "u8 \<Rightarrow> u8 \<Rightarrow> u8" where
  "sdc_set_service_info_present v c = field_set 4 1 v c"

text \<open>
  A parsed service descriptor: \<^verbatim>\<open>service_info\<close> is the memory the pointer refers to.
\<close>

record nan_service_descriptor_attribute =
  sda_service_id :: nan_service_id
  sda_instance_id :: u8
  sda_requestor_instance_id :: u8
  sda_control :: u8
  sda_service_info :: "u8 list"
  sda_service_info_length :: u8

text \<open>\<^verbatim>\<open>struct nan_service_descriptor_extension_control\<close>, two bytes.\<close>

definition sdec_range_limit_present :: "u16 \<Rightarrow> bool" where
  "sdec_range_limit_present c \<longleftrightarrow> field_get 8 1 c \<noteq> 0"

definition sdec_service_update_indicator_present :: "u16 \<Rightarrow> bool" where
  "sdec_service_update_indicator_present c \<longleftrightarrow> field_get 9 1 c \<noteq> 0"

definition sdec_set_service_update_indicator_present :: "u16 \<Rightarrow> u16 \<Rightarrow> u16" where
  "sdec_set_service_update_indicator_present v c = field_set 9 1 v c"

text \<open>\<^verbatim>\<open>service_specific_info\<close> points into the buffer; it is kept as an offset.\<close>

record nan_service_descriptor_extension_attribute =
  sdea_instance_id :: u8
  sdea_control :: u16
  sdea_range_limit :: u32
  sdea_service_update_indicator :: u8
  sdea_service_info_length :: u16
  sdea_oui :: "u8 list"
  sdea_service_protocol_type :: u8
  sdea_service_specific_info :: size_t
  sdea_service_specific_info_length :: size_t

text \<open>
  The bit fields of the device capability attribute that the code assigns, and the layout
  of its twelve bytes: the map id, the committed windows (16 bits), the bands, the operation
  mode, the antennas, the switch time (16 bits) and the capabilities.
\<close>

record nan_device_capability_attribute =
  dc_id :: u8
  dc_length :: u16
  dc_map_id :: u8
  dc_committed_dw_info :: u16
  dc_supported_bands :: u8
  dc_operation_mode :: u8
  dc_antennas :: u8
  dc_max_channel_switch_time :: u16
  dc_capabilities :: u8

definition nan_device_capability_attribute_bytes :: "nan_device_capability_attribute \<Rightarrow> u8 list" where
  "nan_device_capability_attribute_bytes a =
     nan_attribute_header_bytes (dc_id a) (dc_length a) @ [dc_map_id a] @ le_bytes 2 (dc_committed_dw_info a)
     @ [dc_supported_bands a, dc_operation_mode a, dc_antennas a]
     @ le_bytes 2 (dc_max_channel_switch_time a) @ [dc_capabilities a]"

definition dc_set_dw_2_4_ghz :: "u16 \<Rightarrow> u16 \<Rightarrow> u16" where
  "dc_set_dw_2_4_ghz v w = field_set 0 3 v w"

definition dc_set_band_2_4_ghz :: "u8 \<Rightarrow> u8 \<Rightarrow> u8" where
  "dc_set_band_2_4_ghz v w = field_set 2 1 v w"

text \<open>The control words of the availability attribute, each two bytes.\<close>

datatype nan_availability_type =
    AVAILABILITY_COMITTED | AVAILABILITY_POTENTIAL | AVAILABILITY_CONDITIONAL

primrec availability_type_val :: "nan_availability_type \<Rightarrow> u16" where
  "availability_type_val AVAILABILITY_COMITTED = 1"
| "availability_type_val AVAILABILITY_POTENTIAL = 2"
| "availability_type_val AVAILABILITY_CONDITIONAL = 4"

definition aac_set_map_id :: "u16 \<Rightarrow> u16 \<Rightarrow> u16" where
  "aac_set_map_id v w = field_set 0 4 v w"

definition aec_set_availability_type :: "u16 \<Rightarrow> u16 \<Rightarrow> u16" where
  "aec_set_availability_type v w = field_set 0 3 v w"

text \<open>The data path attribute: its fixed part of 14 bytes and its control byte.\<close>

datatype nan_data_path_attribute_type = REQUEST | RESPONSE | CONFIRM | SECURITY_INSTALL | TERMINATE

primrec data_path_attribute_type_val :: "nan_data_path_attribute_type \<Rightarrow> u8" where
  "data_path_attribute_type_val REQUEST = 0"
| "data_path_attribute_type_val RESPONSE = 1"
| "data_path_attribute_type_val CONFIRM = 2"
| "data_path_attribute_type_val SECURITY_INSTALL = 3"
| "data_path_attribute_type_val TERMINATE = 4"

datatype nan_data_path_attribute_status = CONTINUED | ACCEPTED | REJECTED

primrec data_path_attribute_status_val :: "nan_data_path_attribute_status \<Rightarrow> u8" where
  "data_path_attribute_status_val CONTINUED = 0"
| "data_path_attribute_status_val ACCEPTED = 1"
| "data_path_attribute_status_val REJECTED = 2"

text \<open>\<^verbatim>\<open>type\<close> and \<^verbatim>\<open>status\<close> share the byte \<open>dp_type_status\<close>.\<close>

record nan_data_path_attribute_fixed =
  dp_id :: u8
  dp_length :: u16
  dp_dialog_token :: u8
  dp_type_status :: u8
  dp_reason_code :: u8
  dp_initiator_address :: ether_addr
  dp_data_path_id :: u8
  dp_control :: u8

definition nan_data_path_attribute_fixed_bytes :: "nan_data_path_attribute_fixed \<Rightarrow> u8 list" where
  "nan_data_path_attribute_fixed_bytes a =
     nan_attribute_header_bytes (dp_id a) (dp_length a)
     @ [dp_dialog_token a, dp_type_status a, dp_reason_code a]
     @ ether_addr_octet (dp_initiator_address a) @ [dp_data_path_id a, dp_control a]"

definition dp_set_type :: "u8 \<Rightarrow> u8 \<Rightarrow> u8" where
  "dp_set_type v w = field_set 0 4 v w"

definition dp_set_status :: "u8 \<Rightarrow> u8 \<Rightarrow> u8" where
  "dp_set_status v w = field_set 4 4 v w"

definition dpc_set_publish_id_present :: "u8 \<Rightarrow> u8 \<Rightarrow> u8" where
  "dpc_set_publish_id_present v w = field_set 3 1 v w"

definition dpc_set_responder_interface_address_present :: "u8 \<Rightarrow> u8 \<Rightarrow> u8" where
  "dpc_set_responder_interface_address_present v w = field_set 4 1 v w"

definition dpc_set_data_path_specific_info_present :: "u8 \<Rightarrow> u8 \<Rightarrow> u8" where
  "dpc_set_data_path_specific_info_present v w = field_set 5 1 v w"

section \<open>Facts\<close>

lemma length_attribute_bytes [simp]:
  "length (nan_attribute_header_bytes i n) = 3"
  "length (nan_master_indication_attribute_bytes m) = 5"
  "length (nan_cluster_attribute_bytes c) = 16"
  "length (nan_device_capability_attribute_bytes d) = 12"
  "length (nan_data_path_attribute_fixed_bytes p) = 14"
  by (simp_all add: nan_attribute_header_bytes_def nan_master_indication_attribute_bytes_def
      nan_cluster_attribute_bytes_def nan_device_capability_attribute_bytes_def
      nan_data_path_attribute_fixed_bytes_def)

lemma nan_attribute_types_complete: "t \<in> set nan_attribute_types"
  by (cases t) (simp_all add: nan_attribute_types_def)

lemma nan_attribute_type_as_string_name:
  "nan_attribute_type_as_string (attribute_type_val t) = attribute_type_name t"
  by (cases t) (simp_all add: nan_attribute_type_as_string_def nan_attribute_types_def)

end
