(* ===== verification/Nan_Event.thy ===== *)
theory Nan_Event
  imports Nan_Lists
begin

text \<open>
  Event listeners of \<^verbatim>\<open>src/src/event.c\<close>. Listener functions are known only by their
  address; dispatching an event yields the sequence of calls it makes.
\<close>

datatype nan_event_type =
    EVENT_DISCOVERY_RESULT | EVENT_REPLIED | EVENT_PUBLISH_TERMINATED
  | EVENT_SUBSCRIBE_TERMINATED | EVENT_RECEIVE

record nan_event_listeners_item =
  li_event :: nan_event_type
  li_service_name :: "string option"
  li_listener :: ptr
  li_additional_data :: ptr

record nan_event_state =
  listeners :: "ptr list"

type_synonym listener_heap = "nan_event_listeners_item store"

definition nan_event_state_init :: "nan_event_state \<Rightarrow> nan_event_state" where
  "nan_event_state_init state = state\<lparr>listeners := []\<rparr>"

text \<open>The service name, when there is one, is copied.\<close>

definition nan_add_event_listener ::
  "nan_event_state \<Rightarrow> listener_heap \<Rightarrow> nan_event_type \<Rightarrow> string option \<Rightarrow> ptr \<Rightarrow> ptr
   \<Rightarrow> nan_event_state \<times> listener_heap" where
  "nan_add_event_listener state h event service_name listener additional_data =
     (let (item, h) = store_alloc \<lparr>li_event = event, li_service_name = service_name,
                        li_listener = listener, li_additional_data = additional_data\<rparr> h
      in (state\<lparr>listeners := listeners state @ [item]\<rparr>, h))"

definition nan_remove_event_listener ::
  "nan_event_state \<Rightarrow> listener_heap \<Rightarrow> ptr \<Rightarrow> nan_event_state option" where
  "nan_remove_event_listener state h listener =
     do { (item, xs) \<leftarrow> LIST_REMOVE (\<lambda>item. do { it \<leftarrow> cells h item;
                                              Some (li_listener it = listener) }) (listeners state);
          Some (state\<lparr>listeners := xs\<rparr>) }"

text \<open>
  \<^verbatim>\<open>strstr(s, t) == s\<close>: the first occurrence of \<open>t\<close> in \<open>s\<close> is at its start. A null
  \<open>service_name\<close> makes \<^verbatim>\<open>strstr\<close> undefined.
\<close>

fun starts_with :: "string \<Rightarrow> string \<Rightarrow> bool" where
  "starts_with s [] \<longleftrightarrow> True"
| "starts_with [] (c # t) \<longleftrightarrow> False"
| "starts_with (d # s) (c # t) \<longleftrightarrow> d = c \<and> starts_with s t"

definition matches_event ::
  "nan_event_listeners_item \<Rightarrow> nan_event_type \<Rightarrow> string option \<Rightarrow> bool option" where
  "matches_event item event service_name =
     (if li_event item \<noteq> event then Some False
      else case li_service_name item of
             Some n \<Rightarrow> (case service_name of None \<Rightarrow> None | Some s \<Rightarrow> Some (starts_with s n))
           | None \<Rightarrow> Some True)"

text \<open>A call of a listener: the function, the event, its data and the additional data.\<close>

type_synonym 'd listener_call = "ptr \<times> nan_event_type \<times> 'd \<times> ptr"

definition nan_dispatch_event ::
  "nan_event_state \<Rightarrow> listener_heap \<Rightarrow> nan_event_type \<Rightarrow> string option \<Rightarrow> 'd
   \<Rightarrow> 'd listener_call list option" where
  "nan_dispatch_event state h event service_name data =
     LIST_FILTER_FOR_EACH
       (\<lambda>item _. do { it \<leftarrow> cells h item; matches_event it event service_name })
       (\<lambda>item calls. do { it \<leftarrow> cells h item;
                          Some (calls @ [(li_listener it, event, data, li_additional_data it)]) })
       (listeners state) []"

definition nan_event_type_to_string :: "nan_event_type \<Rightarrow> string" where
  "nan_event_type_to_string t =
     (case t of
        EVENT_DISCOVERY_RESULT \<Rightarrow> ''DISCOVERY RESULT''
      | EVENT_RECEIVE \<Rightarrow> ''RECEIVE''
      | EVENT_REPLIED \<Rightarrow> ''REPLIED''
      | EVENT_PUBLISH_TERMINATED \<Rightarrow> ''PUBLISH TERMINATED''
      | EVENT_SUBSCRIBE_TERMINATED \<Rightarrow> ''SUBSCRIBE TERMINATED'')"

section \<open>What dispatching does\<close>

definition listeners_ok :: "nan_event_state \<Rightarrow> listener_heap \<Rightarrow> bool" where
  "listeners_ok state h \<longleftrightarrow> wf_store h \<and> distinct (listeners state)
     \<and> (\<forall>p \<in> set (listeners state). cells h p \<noteq> None)"

definition listener_items :: "nan_event_state \<Rightarrow> listener_heap \<Rightarrow> nan_event_listeners_item list" where
  "listener_items state h = map (\<lambda>p. the (cells h p)) (listeners state)"

lemma starts_with_prefix: "starts_with s t \<longleftrightarrow> take (length t) s = t"
  by (induction s t rule: starts_with.induct) auto

lemma nan_add_event_listener_ok:
  "listeners_ok state h \<Longrightarrow> nan_add_event_listener state h e n l d = (state', h') \<Longrightarrow>
     listeners_ok state' h' \<and> listener_items state' h' = listener_items state h @
       [\<lparr>li_event = e, li_service_name = n, li_listener = l, li_additional_data = d\<rparr>]"
proof -
  assume ok: "listeners_ok state h" and add: "nan_add_event_listener state h e n l d = (state', h')"
  have fresh: "brk h \<notin> set (listeners state)"
    using ok wf_store_fresh [of h] by (auto simp: listeners_ok_def)
  have "wf_store h'"
    using ok add wf_store_alloc by (fastforce simp: nan_add_event_listener_def listeners_ok_def split: prod.splits)
  with ok add fresh show ?thesis
    by (auto simp: nan_add_event_listener_def listeners_ok_def listener_items_def store_alloc_def)
qed

text \<open>Whether an item asks for an event of a named service.\<close>

definition wants :: "nan_event_type \<Rightarrow> string \<Rightarrow> nan_event_listeners_item \<Rightarrow> bool" where
  "wants event s item \<longleftrightarrow> li_event item = event
     \<and> (case li_service_name item of None \<Rightarrow> True | Some n \<Rightarrow> take (length n) s = n)"

lemma matches_event_wants: "matches_event item event (Some s) = Some (wants event s item)"
  by (auto simp: matches_event_def wants_def starts_with_prefix split: option.splits)

lemma dispatch_loop:
  "(\<forall>p \<in> set xs. cells h p \<noteq> None) \<Longrightarrow>
   LIST_FILTER_FOR_EACH
       (\<lambda>item _. do { it \<leftarrow> cells h item; matches_event it event (Some s) })
       (\<lambda>item calls. do { it \<leftarrow> cells h item;
                          Some (calls @ [(li_listener it, event, data, li_additional_data it)]) })
       xs cs
   = Some (cs @ map (\<lambda>it. (li_listener it, event, data, li_additional_data it))
                  (filter (wants event s) (map (\<lambda>p. the (cells h p)) xs)))"
  by (induction xs arbitrary: cs) (auto simp: matches_event_wants)

lemma nan_dispatch_event_ok:
  assumes "listeners_ok state h"
  shows "nan_dispatch_event state h event (Some s) data =
    Some (map (\<lambda>it. (li_listener it, event, data, li_additional_data it))
           (filter (wants event s) (listener_items state h)))"
  using assms dispatch_loop [of "listeners state" h event s data "[]"]
  by (simp add: nan_dispatch_event_def listener_items_def listeners_ok_def)

section \<open>Properties\<close>

text \<open>
  An event of a named service calls, in the order of registration, exactly the listeners
  for its type that are registered for every service or for a prefix of the service's name,
  each with its own data.
\<close>

lemma nan_dispatch_event_calls:
  assumes "listeners_ok state h"
  shows "nan_dispatch_event state h event (Some s) data =
    Some (map (\<lambda>it. (li_listener it, event, data, li_additional_data it))
           (filter (wants event s) (listener_items state h)))"
  using assms by (rule nan_dispatch_event_ok)

lemma nan_dispatch_event_calls_witness:
  "\<exists>state h. nan_dispatch_event state h EVENT_RECEIVE (Some ''printer2'') (7 :: nat)
     = Some [(11, EVENT_RECEIVE, 7, 21), (13, EVENT_RECEIVE, 7, 23)]"
proof -
  define add where "add = (\<lambda>e n l d (s, h). nan_add_event_listener s h e n l d)"
  define sh1 where "sh1 = add EVENT_RECEIVE (Some ''printer'') 11 21 (\<lparr>listeners = []\<rparr>, store_empty)"
  define sh2 where "sh2 = add EVENT_RECEIVE (Some ''scanner'') 12 22 sh1"
  define sh3 where "sh3 = add EVENT_RECEIVE None 13 23 sh2"
  obtain s1 h1 s2 h2 s3 h3 where sh: "sh1 = (s1, h1)" "sh2 = (s2, h2)" "sh3 = (s3, h3)"
    by (metis surj_pair)
  have ok0: "listeners_ok \<lparr>listeners = []\<rparr> store_empty" by (simp add: listeners_ok_def)
  note step = nan_add_event_listener_ok
  have s1: "listeners_ok s1 h1" "listener_items s1 h1 = listener_items \<lparr>listeners = []\<rparr> store_empty @
      [\<lparr>li_event = EVENT_RECEIVE, li_service_name = Some ''printer'', li_listener = 11,
        li_additional_data = 21\<rparr>]"
    using step [OF ok0] sh(1) unfolding sh1_def add_def by auto
  have s2: "listeners_ok s2 h2" "listener_items s2 h2 = listener_items s1 h1 @
      [\<lparr>li_event = EVENT_RECEIVE, li_service_name = Some ''scanner'', li_listener = 12,
        li_additional_data = 22\<rparr>]"
    using step [OF s1(1)] sh(2) unfolding sh2_def add_def sh(1) by auto
  have s3: "listeners_ok s3 h3" "listener_items s3 h3 = listener_items s2 h2 @
      [\<lparr>li_event = EVENT_RECEIVE, li_service_name = None, li_listener = 13,
        li_additional_data = 23\<rparr>]"
    using step [OF s2(1)] sh(3) unfolding sh3_def add_def sh(2) by auto
  have s0: "listener_items \<lparr>listeners = []\<rparr> store_empty = []" by (simp add: listener_items_def)
  from nan_dispatch_event_calls [OF s3(1), of EVENT_RECEIVE "''printer2''" "7 :: nat"]
  show ?thesis
    by (intro exI [of _ s3] exI [of _ h3]) (simp add: s0 s1(2) s2(2) s3(2) wants_def)
qed

end
