(* ===== verification/Nan_Service.thy ===== *)
theory Nan_Service
  imports Nan_Attributes Nan_Event Nan_Sha256
begin

text \<open>
  The service engine of \<^verbatim>\<open>src/src/service.c\<close>: services that are published or subscribed, the
  search for them, which of them are announced, and what a received service descriptor does
  to them. Services live in a typed store; strings are their characters without the final
  zero; the memory a pointer refers to is kept as its bytes, a null pointer as \<^const>\<open>None\<close>.
\<close>

section \<open>Services\<close>

datatype nan_service_type = PUBLISHED | SUBSCRIBED

datatype nan_publish_type = PUBLISH_UNSOLICITED | PUBLISH_SOLICITED | PUBLISH_BOTH

datatype nan_subscribe_type = SUBSCRIBE_PASSIVE | SUBSCRIBE_ACTIVE

primrec publish_type_val :: "nan_publish_type \<Rightarrow> u32" where
  "publish_type_val PUBLISH_UNSOLICITED = 0"
| "publish_type_val PUBLISH_SOLICITED = 1"
| "publish_type_val PUBLISH_BOTH = 2"

primrec subscribe_type_val :: "nan_subscribe_type \<Rightarrow> u32" where
  "subscribe_type_val SUBSCRIBE_PASSIVE = 0"
| "subscribe_type_val SUBSCRIBE_ACTIVE = 1"

text \<open>
  The two variants of the union \<^verbatim>\<open>parameters\<close> have the same layout, an enumeration and a
  \<^verbatim>\<open>bool\<close>, so both read and write the same two fields.
\<close>

record nan_service =
  sv_service_name :: string
  sv_type :: nan_service_type
  sv_instance_id :: u8
  sv_service_id :: nan_service_id
  sv_specific_info :: "u8 list option"
  sv_specific_info_length :: size_t
  sv_update_indicator :: u8
  sv_time_to_live :: int
  sv_parameters_type :: u32
  sv_parameters_flag :: bool

record nan_service_state =
  published_services :: "ptr list"
  subscribed_services :: "ptr list"
  last_instance_id :: u8

type_synonym service_heap = "nan_service store"

definition nan_service_state_init :: "nan_service_state \<Rightarrow> nan_service_state" where
  "nan_service_state_init state =
     state\<lparr>published_services := [], subscribed_services := [], last_instance_id := 0\<rparr>"

section \<open>Searching\<close>

text \<open>The argument \<^verbatim>\<open>type\<close> of the searches: one kind of service, or -1 for both.\<close>

definition find_service ::
  "(nan_service \<Rightarrow> bool) \<Rightarrow> nan_service_state \<Rightarrow> service_heap \<Rightarrow> nan_service_type option \<Rightarrow> ptr option" where
  "find_service c state h type =
     (let test = (\<lambda>p. do { v \<leftarrow> cells h p; Some (c v) }) in
      do { service \<leftarrow> (if type = Some SUBSCRIBED \<or> type = None
                      then LIST_FIND test (subscribed_services state) else Some NULL);
           if type = Some PUBLISHED \<or> type = None \<and> service = NULL
           then LIST_FIND test (published_services state) else Some service })"

definition nan_get_service_by_service_id ::
  "nan_service_state \<Rightarrow> service_heap \<Rightarrow> nan_service_id \<Rightarrow> nan_service_type option \<Rightarrow> ptr option" where
  "nan_get_service_by_service_id state h service_id type =
     find_service (\<lambda>v. service_id = sv_service_id v) state h type"

definition nan_get_service_by_instance_id ::
  "nan_service_state \<Rightarrow> service_heap \<Rightarrow> u8 \<Rightarrow> nan_service_type option \<Rightarrow> ptr option" where
  "nan_get_service_by_instance_id state h instance_id type =
     find_service (\<lambda>v. sv_instance_id v = instance_id) state h type"

definition nan_get_service_by_name ::
  "nan_service_state \<Rightarrow> service_heap \<Rightarrow> string \<Rightarrow> nan_service_type option \<Rightarrow> ptr option" where
  "nan_get_service_by_name state h service_name type =
     find_service (\<lambda>v. service_name = sv_service_name v) state h type"

section \<open>Identifiers\<close>

text \<open>
  \<^verbatim>\<open>tolower\<close> in the C locale. A \<^verbatim>\<open>char\<close> is signed: the octets from 128 on are negative
  arguments, for which it is undefined except for \<^verbatim>\<open>EOF\<close>, -1.
\<close>

definition tolower_ok :: "char \<Rightarrow> bool" where
  "tolower_ok c \<longleftrightarrow> (of_char c :: nat) < 128 \<or> (of_char c :: nat) = 255"

definition c_tolower :: "char \<Rightarrow> char" where
  "c_tolower c = (if 65 \<le> (of_char c :: nat) \<and> (of_char c :: nat) \<le> 90
     then char_of (of_char c + 32 :: nat) else c)"

definition nan_service_id_create :: "sha256_context \<Rightarrow> string \<Rightarrow> nan_service_id option" where
  "nan_service_id_create junk service_name =
     (let lower_case_name = map (\<lambda>c. of_char (c_tolower c)) service_name
      in if \<not> list_all tolower_ok service_name then None
         else do { hash \<leftarrow> sha256 junk lower_case_name; Some (take NAN_SERVICE_ID_LENGTH hash) })"

text \<open>The buffer is static: the text is what it holds after the call.\<close>

definition nan_service_id_to_string :: "nan_service_id \<Rightarrow> string" where
  "nan_service_id_to_string service_id = ether_addr_text (ether_addr_of service_id)"

section \<open>Publishing and subscribing\<close>

text \<open>
  \<open>junk\<close> is the service \<^verbatim>\<open>malloc\<close> returned and \<open>sj\<close> the context of the hash. Copying
  more bytes than \<open>info\<close> has is undefined. The field \<^verbatim>\<open>service_update_indicator\<close> is not set.
\<close>

definition nan_service_new ::
  "nan_service \<Rightarrow> sha256_context \<Rightarrow> nan_service_state \<Rightarrow> string \<Rightarrow> int \<Rightarrow> u8 list option \<Rightarrow> size_t
   \<Rightarrow> (nan_service \<times> nan_service_state) option" where
  "nan_service_new junk sj state service_name time_to_live info info_length =
     (let service = junk\<lparr>sv_time_to_live := time_to_live\<rparr>;
          (i, last) = increase_non_zero_id (last_instance_id state);
          state = state\<lparr>last_instance_id := last\<rparr>;
          service = service\<lparr>sv_instance_id := i, sv_service_name := service_name\<rparr>
      in do { sid \<leftarrow> nan_service_id_create sj service_name;
              let service = service\<lparr>sv_service_id := sid, sv_specific_info := None,
                              sv_specific_info_length := 0\<rparr>;
              service \<leftarrow> (case info of
                  Some bs \<Rightarrow>
                    if info_length > 0
                    then do { bs \<leftarrow> mem_load bs 0 (unat info_length);
                              Some (service\<lparr>sv_specific_info := Some bs,
                                      sv_specific_info_length := info_length\<rparr>) }
                    else Some service
                | None \<Rightarrow> Some service);
              Some (service, state) })"

definition nan_publish ::
  "nan_service \<Rightarrow> sha256_context \<Rightarrow> nan_service_state \<Rightarrow> service_heap \<Rightarrow> string \<Rightarrow> nan_publish_type \<Rightarrow> int
   \<Rightarrow> u8 list option \<Rightarrow> size_t \<Rightarrow> (u8 \<times> nan_service_state \<times> service_heap) option" where
  "nan_publish junk sj state h service_name type time_to_live info info_length =
     do { (service, state) \<leftarrow> nan_service_new junk sj state service_name time_to_live info info_length;
          let service = service\<lparr>sv_type := PUBLISHED, sv_parameters_type := publish_type_val type,
                          sv_parameters_flag := False\<rparr>;
          let (p, h) = store_alloc service h;
          Some (sv_instance_id service, state\<lparr>published_services := published_services state @ [p]\<rparr>, h) }"

text \<open>\<^verbatim>\<open>realloc\<close> to no bytes frees the block and returns a null pointer (glibc).\<close>

definition nan_update_publish ::
  "nan_service_state \<Rightarrow> service_heap \<Rightarrow> u8 \<Rightarrow> u8 list \<Rightarrow> size_t \<Rightarrow> (int \<times> service_heap) option" where
  "nan_update_publish state h publish_id info info_length =
     do { service \<leftarrow> LIST_FIND (\<lambda>p. do { v \<leftarrow> cells h p; Some (sv_instance_id v = publish_id) })
                       (published_services state);
          if service \<noteq> NULL
          then do { v \<leftarrow> cells h service;
                    bs \<leftarrow> mem_load info 0 (unat info_length);
                    h \<leftarrow> store_put service
                          (v\<lparr>sv_specific_info :=
                               (if info_length = 0 \<and> sv_specific_info v \<noteq> None then None else Some bs)\<rparr>) h;
                    Some (0, h) }
          else Some (- 1, h) }"

definition nan_cancel_publish ::
  "nan_service_state \<Rightarrow> service_heap \<Rightarrow> u8 \<Rightarrow> (int \<times> nan_service_state \<times> service_heap) option" where
  "nan_cancel_publish state h publish_id =
     do { (service, xs) \<leftarrow> LIST_REMOVE (\<lambda>p. do { v \<leftarrow> cells h p; Some (sv_instance_id v = publish_id) })
                            (published_services state);
          let state = state\<lparr>published_services := xs\<rparr>;
          if service \<noteq> NULL then do { h \<leftarrow> store_free service h; Some (0, state, h) }
          else Some (- 1, state, h) }"

definition nan_subscribe ::
  "nan_service \<Rightarrow> sha256_context \<Rightarrow> nan_service_state \<Rightarrow> service_heap \<Rightarrow> string \<Rightarrow> nan_subscribe_type \<Rightarrow> int
   \<Rightarrow> u8 list option \<Rightarrow> size_t \<Rightarrow> (u8 \<times> nan_service_state \<times> service_heap) option" where
  "nan_subscribe junk sj state h service_name type time_to_live info info_length =
     do { (service, state) \<leftarrow> nan_service_new junk sj state service_name time_to_live info info_length;
          let service = service\<lparr>sv_type := SUBSCRIBED, sv_parameters_type := subscribe_type_val type,
                          sv_parameters_flag := False\<rparr>;
          let (p, h) = store_alloc service h;
          Some (sv_instance_id service, state\<lparr>subscribed_services := subscribed_services state @ [p]\<rparr>, h) }"

definition nan_cancel_subscribe ::
  "nan_service_state \<Rightarrow> service_heap \<Rightarrow> u8 \<Rightarrow> (int \<times> nan_service_state \<times> service_heap) option" where
  "nan_cancel_subscribe state h subscribe_id =
     do { (service, xs) \<leftarrow> LIST_REMOVE (\<lambda>p. do { v \<leftarrow> cells h p; Some (sv_instance_id v = subscribe_id) })
                            (subscribed_services state);
          let state = state\<lparr>subscribed_services := xs\<rparr>;
          if service \<noteq> NULL then do { h \<leftarrow> store_free service h; Some (0, state, h) }
          else Some (- 1, state, h) }"

section \<open>Announcing\<close>

definition nan_should_announce_service :: "nan_service \<Rightarrow> bool" where
  "nan_should_announce_service service =
     (if sv_type service = PUBLISHED then
        if sv_time_to_live service = 0 then False
        else if sv_parameters_type service = publish_type_val PUBLISH_SOLICITED
                \<and> \<not> sv_parameters_flag service then False
        else True
      else if sv_type service = SUBSCRIBED then
        if sv_parameters_type service = subscribe_type_val SUBSCRIBE_PASSIVE then False
        else if sv_parameters_flag service then False
        else if sv_time_to_live service = 0 then False
        else True
      else False)"

definition should_announce :: "service_heap \<Rightarrow> ptr \<Rightarrow> bool option" where
  "should_announce h p = do { v \<leftarrow> cells h p; Some (nan_should_announce_service v) }"

definition nan_get_services_to_announce ::
  "nan_service_state \<Rightarrow> service_heap \<Rightarrow> ptr list \<Rightarrow> ptr list option" where
  "nan_get_services_to_announce state h announced_services =
     do { xs \<leftarrow> LIST_FILTER_FOR_EACH (\<lambda>p _. should_announce h p) (\<lambda>p xs. Some (xs @ [p]))
                 (published_services state) announced_services;
          LIST_FILTER_FOR_EACH (\<lambda>p _. should_announce h p) (\<lambda>p xs. Some (xs @ [p]))
                 (subscribed_services state) xs }"

definition update_announced_service :: "nan_service \<Rightarrow> nan_service" where
  "update_announced_service service =
     (let service = (if sv_time_to_live service > 0
                     then service\<lparr>sv_time_to_live := sv_time_to_live service - 1\<rparr> else service)
      in if sv_type service = PUBLISHED then service\<lparr>sv_parameters_flag := False\<rparr> else service)"

definition nan_update_announced_services :: "ptr list \<Rightarrow> service_heap \<Rightarrow> service_heap option" where
  "nan_update_announced_services announced_services h =
     LIST_FOR_EACH (\<lambda>p h. do { v \<leftarrow> cells h p; store_put p (update_announced_service v) h })
       announced_services h"

section \<open>Received service descriptors\<close>

record nan_event_discovery_result =
  dr_subscribe_id :: u8
  dr_service_specific_info :: "u8 list"
  dr_service_specific_info_length :: size_t
  dr_service_update_indicator :: u8
  dr_publish_id :: u8
  dr_address :: ether_addr

record nan_event_receive =
  er_instance_id :: u8
  er_peer_instance_id :: u8
  er_service_specific_info :: "u8 list"
  er_service_specific_info_length :: size_t
  er_address :: ether_addr

datatype nan_event_data =
  Discovery_Result nan_event_discovery_result | Receive nan_event_receive

definition nan_handle_received_service_discovery ::
  "nan_service_state \<Rightarrow> service_heap \<Rightarrow> nan_event_state \<Rightarrow> listener_heap \<Rightarrow> ether_addr \<Rightarrow> ether_addr \<Rightarrow> ether_addr
   \<Rightarrow> nan_service_descriptor_attribute \<Rightarrow> (service_heap \<times> nan_event_data listener_call list) option" where
  "nan_handle_received_service_discovery state h event_state lh self_address source_address
       destination_address service_descriptor =
     (let type = sdc_service_control_type (sda_control service_descriptor);
          service_id = sda_service_id service_descriptor
      in if type = service_control_type_val CONTROL_TYPE_PUBLISH then
           do { service \<leftarrow> nan_get_service_by_service_id state h service_id (Some SUBSCRIBED);
                if service = NULL then Some (h, [])
                else do { v \<leftarrow> cells h service;
                          let event_data = \<lparr>dr_subscribe_id = sv_instance_id v,
                                dr_service_specific_info = sda_service_info service_descriptor,
                                dr_service_specific_info_length = ucast (sda_service_info_length service_descriptor),
                                dr_service_update_indicator = sv_update_indicator v,
                                dr_publish_id = sda_instance_id service_descriptor,
                                dr_address = source_address\<rparr>;
                          calls \<leftarrow> nan_dispatch_event event_state lh EVENT_DISCOVERY_RESULT
                                     (Some (sv_service_name v)) (Discovery_Result event_data);
                          Some (h, calls) } }
         else if type = service_control_type_val CONTROL_TYPE_SUBSCRIBE then
           do { service \<leftarrow> nan_get_service_by_service_id state h service_id (Some PUBLISHED);
                if service = NULL then Some (h, [])
                else do { v \<leftarrow> cells h service;
                          h \<leftarrow> store_put service (v\<lparr>sv_parameters_flag := True\<rparr>) h;
                          Some (h, []) } }
         else if type = service_control_type_val CONTROL_TYPE_FOLLOW_UP then
           (if \<not> ether_addr_equal self_address destination_address then Some (h, [])
            else do { service \<leftarrow> nan_get_service_by_service_id state h service_id None;
                      if service = NULL then Some (h, [])
                      else do { v \<leftarrow> cells h service;
                                let event_data = \<lparr>er_instance_id = sv_instance_id v,
                                      er_peer_instance_id = sda_instance_id service_descriptor,
                                      er_service_specific_info = sda_service_info service_descriptor,
                                      er_service_specific_info_length =
                                        ucast (sda_service_info_length service_descriptor),
                                      er_address = source_address\<rparr>;
                                calls \<leftarrow> nan_dispatch_event event_state lh EVENT_RECEIVE
                                           (Some (sv_service_name v)) (Receive event_data);
                                Some (h, calls) } })
         else Some (h, []))"

definition nan_updated_replied_service :: "nan_service \<Rightarrow> nan_service" where
  "nan_updated_replied_service service = service\<lparr>sv_parameters_flag := True\<rparr>"

definition nan_publish_type_to_string :: "nan_publish_type \<Rightarrow> string" where
  "nan_publish_type_to_string type =
     (case type of
        PUBLISH_BOTH \<Rightarrow> ''BOTH''
      | PUBLISH_SOLICITED \<Rightarrow> ''SOLICITED''
      | PUBLISH_UNSOLICITED \<Rightarrow> ''UNSOLICITED'')"

definition nan_subscribe_type_to_string :: "nan_subscribe_type \<Rightarrow> string" where
  "nan_subscribe_type_to_string type =
     (case type of SUBSCRIBE_ACTIVE \<Rightarrow> ''ACTIVE'' | SUBSCRIBE_PASSIVE \<Rightarrow> ''PASSIVE'')"

section \<open>Well-formed tables\<close>

definition service_at :: "service_heap \<Rightarrow> ptr \<Rightarrow> nan_service" where
  "service_at h p = the (cells h p)"

text \<open>
  A service can be sent and printed: its identifier is complete, its information as long as it
  says, and that length an \<^verbatim>\<open>int\<close>.
\<close>

definition info_fits :: "u8 list option \<Rightarrow> size_t \<Rightarrow> bool" where
  "info_fits info n \<longleftrightarrow> (case info of None \<Rightarrow> True | Some bs \<Rightarrow> unat n \<le> length bs)"

definition service_sendable :: "nan_service \<Rightarrow> bool" where
  "service_sendable v \<longleftrightarrow> length (sv_service_id v) = NAN_SERVICE_ID_LENGTH
     \<and> info_fits (sv_specific_info v) (sv_specific_info_length v)
     \<and> unat (sv_specific_info_length v) < 2 ^ 31"

definition services_ok :: "nan_service_state \<Rightarrow> service_heap \<Rightarrow> bool" where
  "services_ok state h \<longleftrightarrow> wf_store h
     \<and> distinct (published_services state @ subscribed_services state)
     \<and> (\<forall>p \<in> set (published_services state). \<exists>v. cells h p = Some v \<and> sv_type v = PUBLISHED
           \<and> service_sendable v)
     \<and> (\<forall>p \<in> set (subscribed_services state). \<exists>v. cells h p = Some v \<and> sv_type v = SUBSCRIBED
           \<and> service_sendable v)"

text \<open>What the lists hold: the published and the subscribed services, in order.\<close>

definition published :: "nan_service_state \<Rightarrow> service_heap \<Rightarrow> nan_service list" where
  "published state h = map (service_at h) (published_services state)"

definition subscribed :: "nan_service_state \<Rightarrow> service_heap \<Rightarrow> nan_service list" where
  "subscribed state h = map (service_at h) (subscribed_services state)"

lemma services_ok_init: "wf_store h \<Longrightarrow> services_ok (nan_service_state_init state) h"
  by (simp add: services_ok_def nan_service_state_init_def)

lemma services_ok_live:
  "services_ok state h \<Longrightarrow> p \<in> set (published_services state) \<union> set (subscribed_services state) \<Longrightarrow>
     cells h p = Some (service_at h p)"
  by (auto simp: services_ok_def service_at_def)

lemma services_ok_sendable:
  "services_ok state h \<Longrightarrow> p \<in> set (published_services state) \<union> set (subscribed_services state) \<Longrightarrow>
     service_sendable (service_at h p)"
  by (auto simp: services_ok_def service_at_def)

lemma services_ok_nonNULL:
  "services_ok state h \<Longrightarrow> p \<in> set (published_services state) \<union> set (subscribed_services state) \<Longrightarrow> p \<noteq> 0"
  by (metis services_ok_live services_ok_def option.distinct(1) wf_store_NULL)

lemma services_ok_fresh:
  "services_ok state h \<Longrightarrow> brk h \<notin> set (published_services state) \<union> set (subscribed_services state)"
  using wf_store_fresh [of h] by (auto simp: services_ok_def)

text \<open>The searches of a well-formed table.\<close>

definition first_of :: "(nan_service \<Rightarrow> bool) \<Rightarrow> service_heap \<Rightarrow> ptr list \<Rightarrow> ptr" where
  "first_of c h ps = (case find (\<lambda>p. c (service_at h p)) ps of None \<Rightarrow> NULL | Some p \<Rightarrow> p)"

lemma LIST_FIND_services:
  assumes "services_ok state h" "set ps \<subseteq> set (published_services state) \<union> set (subscribed_services state)"
  shows "LIST_FIND (\<lambda>p. do { v \<leftarrow> cells h p; Some (c v) }) ps = Some (first_of c h ps)"
  unfolding first_of_def
  by (rule LIST_FIND_find) (use assms in \<open>auto simp: services_ok_live subset_iff\<close>)

lemma first_of_NULL:
  assumes "services_ok state h" "set ps \<subseteq> set (published_services state) \<union> set (subscribed_services state)"
  shows "first_of c h ps = 0 \<longleftrightarrow> (\<forall>p \<in> set ps. \<not> c (service_at h p))"
proof (cases "find (\<lambda>p. c (service_at h p)) ps")
  case None
  then have "\<forall>p \<in> set ps. \<not> c (service_at h p)" by (simp add: find_None_iff)
  with None show ?thesis by (simp add: first_of_def)
next
  case (Some q)
  then have "q \<in> set ps" "c (service_at h q)" by (auto simp: find_Some_iff)
  moreover have "q \<noteq> 0" using services_ok_nonNULL [OF assms(1)] assms(2) \<open>q \<in> set ps\<close> by blast
  ultimately show ?thesis using Some by (auto simp: first_of_def)
qed

lemma first_of_found:
  "first_of c h ps = p \<Longrightarrow> p \<noteq> 0 \<Longrightarrow> p \<in> set ps \<and> c (service_at h p)"
  by (auto simp: first_of_def find_Some_iff split: option.splits)

lemma find_service_ok:
  assumes "services_ok state h"
  shows "find_service c state h (Some PUBLISHED) = Some (first_of c h (published_services state))"
    and "find_service c state h (Some SUBSCRIBED) = Some (first_of c h (subscribed_services state))"
    and "find_service c state h None =
      Some (if first_of c h (subscribed_services state) \<noteq> 0 then first_of c h (subscribed_services state)
            else first_of c h (published_services state))"
  using assms by (simp_all add: find_service_def LIST_FIND_services)

section \<open>Adding and removing services\<close>

text \<open>What a new service holds.\<close>

definition lower_case_octets :: "string \<Rightarrow> u8 list" where
  "lower_case_octets s = map (\<lambda>c. of_char (c_tolower c)) s"

definition service_id_of :: "string \<Rightarrow> nan_service_id" where
  "service_id_of s = take 6 (sha256_std (lower_case_octets s))"

definition info_given :: "u8 list option \<Rightarrow> size_t \<Rightarrow> u8 list option" where
  "info_given info n = (case info of None \<Rightarrow> None
     | Some bs \<Rightarrow> if n = 0 then None else Some (take (unat n) bs))"

definition new_service ::
  "nan_service \<Rightarrow> nan_service_state \<Rightarrow> string \<Rightarrow> int \<Rightarrow> u8 list option \<Rightarrow> size_t \<Rightarrow> nan_service" where
  "new_service junk state s ttl info n = junk\<lparr>sv_service_name := s,
     sv_instance_id := fst (increase_non_zero_id (last_instance_id state)),
     sv_service_id := service_id_of s, sv_specific_info := info_given info n,
     sv_specific_info_length := (if info_given info n = None then 0 else n), sv_time_to_live := ttl\<rparr>"

lemma nan_service_id_create_ok:
  "length s < 2 ^ 61 \<Longrightarrow> list_all tolower_ok s \<Longrightarrow> length (sha_buf sj) = 64 \<Longrightarrow>
     nan_service_id_create sj s = Some (service_id_of s)"
  by (simp add: nan_service_id_create_def service_id_of_def lower_case_octets_def sha256_standard)

lemma nan_service_new_ok:
  assumes "length s < 2 ^ 61" "list_all tolower_ok s" "length (sha_buf sj) = 64" "info_fits info n"
  shows "nan_service_new junk sj state s ttl info n =
    Some (new_service junk state s ttl info n,
          state\<lparr>last_instance_id := fst (increase_non_zero_id (last_instance_id state))\<rparr>)"
proof (cases "info = None \<or> n = 0")
  case True
  then show ?thesis
    using nan_service_id_create_ok [OF assms(1-3)]
    by (cases info) (auto simp: nan_service_new_def new_service_def info_given_def
      increase_non_zero_id_def Let_def)
next
  case False
  then obtain bs where "info = Some bs" "n \<noteq> 0" by auto
  moreover from this assms(4) have "mem_load bs 0 (unat n) = Some (take (unat n) bs)"
    by (simp add: mem_load_def info_fits_def)
  ultimately show ?thesis
    using nan_service_id_create_ok [OF assms(1-3)]
    by (auto simp: nan_service_new_def new_service_def info_given_def increase_non_zero_id_def Let_def
        word_neq_0_conv)
qed

lemma service_alloc:
  assumes "services_ok state h" "store_alloc v h = (p, h')"
  shows "p = brk h" "service_at h' p = v" "wf_store h'" "cells h' p = Some v"
    and "q \<in> set (published_services state) \<union> set (subscribed_services state) \<Longrightarrow> cells h' q = cells h q"
    and "q \<in> set (published_services state) \<union> set (subscribed_services state) \<Longrightarrow>
      service_at h' q = service_at h q"
proof -
  have wf: "wf_store h" using assms(1) by (simp add: services_ok_def)
  show "wf_store h'" by (rule wf_store_alloc [OF wf assms(2)])
  show "p = brk h" "service_at h' p = v" "cells h' p = Some v"
    using assms(2) by (auto simp: store_alloc_def service_at_def)
  show cells: "q \<in> set (published_services state) \<union> set (subscribed_services state) \<Longrightarrow> cells h' q = cells h q" for q
    using assms(2) services_ok_fresh [OF assms(1)] by (auto simp: store_alloc_def)
  show "q \<in> set (published_services state) \<union> set (subscribed_services state) \<Longrightarrow>
      service_at h' q = service_at h q"
    using cells by (simp add: service_at_def)
qed

lemma add_service:
  assumes ok: "services_ok state h" and alloc: "store_alloc v h = (p, h')"
    and len: "last_instance_id state' = i" and v: "service_sendable v"
  shows "sv_type v = PUBLISHED \<Longrightarrow> published_services state' = published_services state @ [p] \<Longrightarrow>
      subscribed_services state' = subscribed_services state \<Longrightarrow>
      services_ok state' h' \<and> published state' h' = published state h @ [v] \<and> subscribed state' h' = subscribed state h"
    and "sv_type v = SUBSCRIBED \<Longrightarrow> subscribed_services state' = subscribed_services state @ [p] \<Longrightarrow>
      published_services state' = published_services state \<Longrightarrow>
      services_ok state' h' \<and> subscribed state' h' = subscribed state h @ [v] \<and> published state' h' = published state h"
proof -
  note a = service_alloc [OF ok alloc]
  have fresh: "p \<notin> set (published_services state) \<union> set (subscribed_services state)"
    unfolding a(1) by (rule services_ok_fresh [OF ok])
  have pub: "map (service_at h') (published_services state) = map (service_at h) (published_services state)"
    and sub: "map (service_at h') (subscribed_services state) = map (service_at h) (subscribed_services state)"
    using a(6) by simp_all
  show "sv_type v = PUBLISHED \<Longrightarrow> published_services state' = published_services state @ [p] \<Longrightarrow>
      subscribed_services state' = subscribed_services state \<Longrightarrow>
      services_ok state' h' \<and> published state' h' = published state h @ [v] \<and> subscribed state' h' = subscribed state h"
    using ok fresh a(2,3,4,5) pub sub v by (auto simp: services_ok_def published_def subscribed_def)
  show "sv_type v = SUBSCRIBED \<Longrightarrow> subscribed_services state' = subscribed_services state @ [p] \<Longrightarrow>
      published_services state' = published_services state \<Longrightarrow>
      services_ok state' h' \<and> subscribed state' h' = subscribed state h @ [v] \<and> published state' h' = published state h"
    using ok fresh a(2,3,4,5) pub sub v by (auto simp: services_ok_def published_def subscribed_def)
qed

lemma increase_non_zero_id_neq: "fst (increase_non_zero_id i) \<noteq> 0"
  by (simp add: increase_non_zero_id_def Let_def)

lemma increase_non_zero_id_next: "fst (increase_non_zero_id i) = (if i = 255 then 1 else i + 1)"
proof -
  have "i + 1 = 0 \<longleftrightarrow> i = - 1" by (simp add: eq_neg_iff_add_eq_0)
  moreover have "(- 1 :: u8) = 255" by simp
  ultimately have "i + 1 = 0 \<longleftrightarrow> i = 255" by metis
  then show ?thesis by (auto simp: increase_non_zero_id_def Let_def)
qed

lemma new_service_sendable:
  "info_fits info n \<Longrightarrow> unat n < 2 ^ 31 \<Longrightarrow> service_sendable (new_service junk state s ttl info n)"
  by (auto simp: service_sendable_def new_service_def info_given_def info_fits_def service_id_of_def
      length_sha256_std split: option.splits)

lemma publish_subscribe_ok:
  assumes ok: "services_ok state h"
    and args: "length name < 2 ^ 61" "list_all tolower_ok name" "length (sha_buf sj) = 64" "info_fits info n"
    and short: "unat n < 2 ^ 31"
  shows "let v = new_service junk state name ttl info n in
    sv_instance_id v \<noteq> 0
    \<and> sv_instance_id v = (if last_instance_id state = 255 then 1 else last_instance_id state + 1)
    \<and> (\<exists>state' h'. nan_publish junk sj state h name ptype ttl info n = Some (sv_instance_id v, state', h')
      \<and> services_ok state' h' \<and> subscribed state' h' = subscribed state h
      \<and> last_instance_id state' = sv_instance_id v
      \<and> published state' h' = published state h @ [v\<lparr>sv_type := PUBLISHED,
            sv_parameters_type := publish_type_val ptype, sv_parameters_flag := False\<rparr>])
    \<and> (\<exists>state' h'. nan_subscribe junk sj state h name stype ttl info n = Some (sv_instance_id v, state', h')
      \<and> services_ok state' h' \<and> published state' h' = published state h
      \<and> last_instance_id state' = sv_instance_id v
      \<and> subscribed state' h' = subscribed state h @ [v\<lparr>sv_type := SUBSCRIBED,
            sv_parameters_type := subscribe_type_val stype, sv_parameters_flag := False\<rparr>])"
proof -
  define v where "v = new_service junk state name ttl info n"
  let ?i = "fst (increase_non_zero_id (last_instance_id state))"
  have send: "service_sendable v"
    using new_service_sendable [OF args(4) short] by (simp add: v_def)
  note new = nan_service_new_ok [OF args, of junk state ttl, folded v_def]
  let ?p = "v\<lparr>sv_type := PUBLISHED, sv_parameters_type := publish_type_val ptype, sv_parameters_flag := False\<rparr>"
  let ?s = "v\<lparr>sv_type := SUBSCRIBED, sv_parameters_type := subscribe_type_val stype, sv_parameters_flag := False\<rparr>"
  have i: "sv_instance_id v = ?i" by (simp add: v_def new_service_def)
  obtain p1 h1 p2 h2 where a: "store_alloc ?p h = (p1, h1)" "store_alloc ?s h = (p2, h2)"
    by (metis surj_pair)
  have "\<exists>state' h'. nan_publish junk sj state h name ptype ttl info n = Some (sv_instance_id v, state', h')
      \<and> services_ok state' h' \<and> subscribed state' h' = subscribed state h
      \<and> last_instance_id state' = sv_instance_id v
      \<and> published state' h' = published state h @ [?p]"
    using new a(1) add_service(1) [OF ok a(1), of "state\<lparr>last_instance_id := ?i,
        published_services := published_services state @ [p1]\<rparr>" ?i] send
    by (simp add: nan_publish_def service_sendable_def i)
  moreover have "\<exists>state' h'. nan_subscribe junk sj state h name stype ttl info n = Some (sv_instance_id v, state', h')
      \<and> services_ok state' h' \<and> published state' h' = published state h
      \<and> last_instance_id state' = sv_instance_id v
      \<and> subscribed state' h' = subscribed state h @ [?s]"
    using new a(2) add_service(2) [OF ok a(2), of "state\<lparr>last_instance_id := ?i,
        subscribed_services := subscribed_services state @ [p2]\<rparr>" ?i] send
    by (simp add: nan_subscribe_def service_sendable_def i)
  moreover have "sv_instance_id v \<noteq> 0" by (simp add: i increase_non_zero_id_neq)
  moreover have "sv_instance_id v = (if last_instance_id state = 255 then 1 else last_instance_id state + 1)"
    by (simp add: i increase_non_zero_id_next)
  ultimately show ?thesis unfolding Let_def v_def by blast
qed

lemma find_split:
  "find P xs = Some x \<Longrightarrow> \<exists>us vs. xs = us @ x # vs \<and> P x \<and> (\<forall>u \<in> set us. \<not> P u)"
proof (induction xs)
  case (Cons y ys)
  show ?case
  proof (cases "P y")
    case True
    with Cons.prems show ?thesis by (intro exI [of _ "[]"] exI [of _ ys]) auto
  next
    case False
    with Cons obtain us vs where "ys = us @ x # vs" "P x" "\<forall>u \<in> set us. \<not> P u" by auto
    with False show ?thesis by (intro exI [of _ "y # us"] exI [of _ vs]) auto
  qed
qed simp

lemma first_of_split:
  assumes "first_of c h ps = p" "p \<noteq> 0"
  shows "\<exists>us vs. ps = us @ p # vs \<and> c (service_at h p) \<and> (\<forall>u \<in> set us. \<not> c (service_at h u))
    \<and> remove1 p ps = us @ vs"
proof -
  have "find (\<lambda>p. c (service_at h p)) ps = Some p"
    using assms by (auto simp: first_of_def split: option.splits)
  from find_split [OF this] obtain us vs where u: "ps = us @ p # vs" "c (service_at h p)"
      "\<forall>u \<in> set us. \<not> c (service_at h u)" by auto
  then have "p \<notin> set us" by auto
  with u show ?thesis by (auto simp: remove1_append)
qed

lemma services_ok_remove:
  assumes ok: "services_ok state h" and p: "cells h p \<noteq> None"
    and p2: "p \<notin> set (published_services state')" "p \<notin> set (subscribed_services state')"
    and sub: "distinct (published_services state' @ subscribed_services state')"
      "set (published_services state') \<subseteq> set (published_services state)"
      "set (subscribed_services state') \<subseteq> set (subscribed_services state)"
  shows "services_ok state' (h\<lparr>cells := (cells h)(p := None)\<rparr>)"
proof -
  have "store_free p h = Some (h\<lparr>cells := (cells h)(p := None)\<rparr>)" using p by (auto simp: store_free_def)
  then have "wf_store (h\<lparr>cells := (cells h)(p := None)\<rparr>)" using ok wf_store_free by (auto simp: services_ok_def)
  with ok p2 sub show ?thesis unfolding services_ok_def by auto
qed

lemma service_at_freed: "p \<notin> set qs \<Longrightarrow> map (service_at (h\<lparr>cells := (cells h)(p := None)\<rparr>)) qs = map (service_at h) qs"
  by (rule map_cong [OF refl]) (auto simp: service_at_def)

text \<open>
  What a cancellation does to the table \<open>ps\<close> it is about: the first service with the identifier
  leaves the table and is freed, or there is none and nothing changes.
\<close>

definition cancelled :: "u8 \<Rightarrow> ptr list \<Rightarrow> service_heap \<Rightarrow> int \<Rightarrow> ptr list \<Rightarrow> service_heap \<Rightarrow> bool" where
  "cancelled i ps h r ps' h' \<longleftrightarrow>
     (\<forall>p \<in> set ps. sv_instance_id (service_at h p) \<noteq> i) \<and> r = - 1 \<and> ps' = ps \<and> h' = h
     \<or> (\<exists>us p vs. ps = us @ p # vs \<and> sv_instance_id (service_at h p) = i
          \<and> (\<forall>u \<in> set us. sv_instance_id (service_at h u) \<noteq> i)
          \<and> r = 0 \<and> ps' = us @ vs \<and> h' = h\<lparr>cells := (cells h)(p := None)\<rparr>)"

lemma cancel_run:
  assumes ok: "services_ok state h" and ps: "set ps \<subseteq> set (published_services state) \<union> set (subscribed_services state)"
  shows "\<exists>p ps' r h'. LIST_REMOVE (\<lambda>p. do { v \<leftarrow> cells h p; Some (sv_instance_id v = i) }) ps = Some (p, ps')
    \<and> (if p \<noteq> NULL then store_free p h = Some h' \<and> r = 0 else h' = h \<and> r = - 1) \<and> cancelled i ps h r ps' h'"
proof -
  let ?c = "\<lambda>v. sv_instance_id v = i"
  define p where "p = first_of ?c h ps"
  have find: "LIST_FIND (\<lambda>p. do { v \<leftarrow> cells h p; Some (?c v) }) ps = Some p"
    unfolding p_def by (rule LIST_FIND_services [OF ok ps])
  show ?thesis
  proof (cases "p = NULL")
    case True
    then have "\<forall>p \<in> set ps. \<not> ?c (service_at h p)" using first_of_NULL [OF ok ps, of ?c] by (auto simp: p_def)
    then have "cancelled i ps h (- 1) ps h" by (simp add: cancelled_def)
    then show ?thesis using True find by (simp add: LIST_REMOVE_def)
  next
    case False
    from first_of_split [OF p_def [symmetric] False] obtain us vs where u: "ps = us @ p # vs"
        "?c (service_at h p)" "\<forall>u \<in> set us. \<not> ?c (service_at h u)" "remove1 p ps = us @ vs" by auto
    have live: "cells h p \<noteq> None" using services_ok_live [OF ok, of p] ps u(1) by auto
    have "cancelled i ps h 0 (us @ vs) (h\<lparr>cells := (cells h)(p := None)\<rparr>)"
      unfolding cancelled_def using u(1-3) by blast
    then show ?thesis using False find live u(4) by (auto simp: LIST_REMOVE_def store_free_def)
  qed
qed

lemma cancelled_cases:
  assumes ok: "services_ok state h" and c: "cancelled i (published_services state) h r (published_services state') h'"
    and same: "subscribed_services state' = subscribed_services state"
  shows "services_ok state' h' \<and> subscribed state' h' = subscribed state h
    \<and> published state' h' = map (service_at h) (published_services state')"
  using c unfolding cancelled_def
proof (elim disjE exE conjE)
  fix us p vs
  assume u: "published_services state = us @ p # vs" "published_services state' = us @ vs"
    and h': "h' = h\<lparr>cells := (cells h)(p := None)\<rparr>"
  have notin: "p \<notin> set us" "p \<notin> set vs" "p \<notin> set (subscribed_services state)"
    using ok u(1) by (auto simp: services_ok_def)
  have live: "cells h p \<noteq> None" using services_ok_live [OF ok, of p] u(1) by auto
  have "services_ok state' h'"
    unfolding h' using ok u notin same by (intro services_ok_remove [OF ok live]) (auto simp: services_ok_def)
  then show ?thesis
    using notin by (simp add: published_def subscribed_def same u h' service_at_freed)
qed (use ok in \<open>simp add: services_ok_def published_def subscribed_def same\<close>)

lemma cancelled_cases_subscribed:
  assumes ok: "services_ok state h" and c: "cancelled i (subscribed_services state) h r (subscribed_services state') h'"
    and same: "published_services state' = published_services state"
  shows "services_ok state' h' \<and> published state' h' = published state h
    \<and> subscribed state' h' = map (service_at h) (subscribed_services state')"
  using c unfolding cancelled_def
proof (elim disjE exE conjE)
  fix us p vs
  assume u: "subscribed_services state = us @ p # vs" "subscribed_services state' = us @ vs"
    and h': "h' = h\<lparr>cells := (cells h)(p := None)\<rparr>"
  have notin: "p \<notin> set us" "p \<notin> set vs" "p \<notin> set (published_services state)"
    using ok u(1) by (auto simp: services_ok_def)
  have live: "cells h p \<noteq> None" using services_ok_live [OF ok, of p] u(1) by auto
  have "services_ok state' h'"
    unfolding h' using ok u notin same by (intro services_ok_remove [OF ok live]) (auto simp: services_ok_def)
  then show ?thesis
    using notin by (simp add: published_def subscribed_def same u h' service_at_freed)
qed (use ok in \<open>simp add: services_ok_def published_def subscribed_def same\<close>)

lemma nan_cancel_publish_ok:
  assumes ok: "services_ok state h"
  shows "\<exists>r ps h'. nan_cancel_publish state h i = Some (r, state\<lparr>published_services := ps\<rparr>, h')
    \<and> services_ok (state\<lparr>published_services := ps\<rparr>) h'
    \<and> subscribed (state\<lparr>published_services := ps\<rparr>) h' = subscribed state h
    \<and> published (state\<lparr>published_services := ps\<rparr>) h' = map (service_at h) ps
    \<and> cancelled i (published_services state) h r ps h'"
proof -
  from cancel_run [OF ok, of "published_services state" i] obtain p ps r h' where
    run: "LIST_REMOVE (\<lambda>p. do { v \<leftarrow> cells h p; Some (sv_instance_id v = i) }) (published_services state) = Some (p, ps)"
      "if p \<noteq> NULL then store_free p h = Some h' \<and> r = 0 else h' = h \<and> r = - 1"
      "cancelled i (published_services state) h r ps h'" by blast
  have "nan_cancel_publish state h i = Some (r, state\<lparr>published_services := ps\<rparr>, h')"
    using run(1,2) by (cases "p = NULL") (auto simp: nan_cancel_publish_def)
  with cancelled_cases [OF ok, of i r "state\<lparr>published_services := ps\<rparr>" h'] run(3) show ?thesis by auto
qed

lemma nan_cancel_subscribe_ok:
  assumes ok: "services_ok state h"
  shows "\<exists>r ps h'. nan_cancel_subscribe state h i = Some (r, state\<lparr>subscribed_services := ps\<rparr>, h')
    \<and> services_ok (state\<lparr>subscribed_services := ps\<rparr>) h'
    \<and> published (state\<lparr>subscribed_services := ps\<rparr>) h' = published state h
    \<and> subscribed (state\<lparr>subscribed_services := ps\<rparr>) h' = map (service_at h) ps
    \<and> cancelled i (subscribed_services state) h r ps h'"
proof -
  from cancel_run [OF ok, of "subscribed_services state" i] obtain p ps r h' where
    run: "LIST_REMOVE (\<lambda>p. do { v \<leftarrow> cells h p; Some (sv_instance_id v = i) }) (subscribed_services state) = Some (p, ps)"
      "if p \<noteq> NULL then store_free p h = Some h' \<and> r = 0 else h' = h \<and> r = - 1"
      "cancelled i (subscribed_services state) h r ps h'" by blast
  have "nan_cancel_subscribe state h i = Some (r, state\<lparr>subscribed_services := ps\<rparr>, h')"
    using run(1,2) by (cases "p = NULL") (auto simp: nan_cancel_subscribe_def)
  with cancelled_cases_subscribed [OF ok, of i r "state\<lparr>subscribed_services := ps\<rparr>" h'] run(3) show ?thesis by auto
qed

section \<open>Announcing until the time to live is over\<close>

lemma should_announce_live:
  "services_ok state h \<Longrightarrow> p \<in> set (published_services state) \<union> set (subscribed_services state) \<Longrightarrow>
     should_announce h p = Some (nan_should_announce_service (service_at h p))"
  by (simp add: should_announce_def services_ok_live)

lemma filter_loop:
  "(\<And>p. p \<in> set ps \<Longrightarrow> c p = Some (P p)) \<Longrightarrow>
     LIST_FILTER_FOR_EACH (\<lambda>p _. c p) (\<lambda>p xs. Some (xs @ [p])) ps acc = Some (acc @ filter P ps)"
  by (induction ps arbitrary: acc) auto

definition announced :: "nan_service_state \<Rightarrow> service_heap \<Rightarrow> ptr list" where
  "announced state h = filter (\<lambda>p. nan_should_announce_service (service_at h p))
     (published_services state @ subscribed_services state)"

lemma nan_get_services_to_announce_ok:
  assumes "services_ok state h"
  shows "nan_get_services_to_announce state h acc = Some (acc @ announced state h)"
  using filter_loop [of "published_services state" "should_announce h"
      "\<lambda>p. nan_should_announce_service (service_at h p)"]
    filter_loop [of "subscribed_services state" "should_announce h"
      "\<lambda>p. nan_should_announce_service (service_at h p)"]
  by (simp add: nan_get_services_to_announce_def announced_def should_announce_live [OF assms])

lemma update_loop:
  "distinct ps \<Longrightarrow> (\<forall>p \<in> set ps. cells h p \<noteq> None) \<Longrightarrow> wf_store h \<Longrightarrow>
   \<exists>h'. nan_update_announced_services ps h = Some h' \<and> wf_store h'
     \<and> cells h' = (\<lambda>p. if p \<in> set ps then map_option update_announced_service (cells h p) else cells h p)"
proof (induction ps arbitrary: h)
  case Nil
  then show ?case by (auto simp: nan_update_announced_services_def)
next
  case (Cons p ps)
  then obtain v where v: "cells h p = Some v" by auto
  define h1 where "h1 = h\<lparr>cells := (cells h)(p \<mapsto> update_announced_service v)\<rparr>"
  have step: "store_put p (update_announced_service v) h = Some h1"
    using v by (simp add: store_put_def h1_def)
  have wf1: "wf_store h1" using wf_store_put [OF Cons.prems(3) step] .
  have live1: "\<forall>q \<in> set ps. cells h1 q \<noteq> None" using Cons.prems(2) by (simp add: h1_def)
  have dist: "distinct ps" using Cons.prems(1) by simp
  from Cons.IH [OF dist live1 wf1] obtain h' where h': "nan_update_announced_services ps h1 = Some h'" "wf_store h'"
      "cells h' = (\<lambda>p. if p \<in> set ps then map_option update_announced_service (cells h1 p) else cells h1 p)"
    by blast
  moreover have "nan_update_announced_services (p # ps) h = nan_update_announced_services ps h1"
    using v step by (simp add: nan_update_announced_services_def)
  ultimately show ?case
    using Cons.prems(1) v by (intro exI [of _ h']) (auto simp: h1_def fun_eq_iff)
qed

text \<open>One transmission: the services are collected, sent and updated.\<close>

definition announce_round ::
  "nan_service_state \<Rightarrow> service_heap \<Rightarrow> (ptr list \<times> service_heap) option" where
  "announce_round state h =
     do { xs \<leftarrow> nan_get_services_to_announce state h [];
          h' \<leftarrow> nan_update_announced_services xs h;
          Some (xs, h') }"

primrec announce_rounds :: "nat \<Rightarrow> nan_service_state \<Rightarrow> service_heap \<Rightarrow> service_heap option" where
  "announce_rounds 0 state h = Some h"
| "announce_rounds (Suc k) state h =
     do { (xs, h') \<leftarrow> announce_round state h; announce_rounds k state h' }"

definition round_service :: "nan_service \<Rightarrow> nan_service" where
  "round_service v = (if nan_should_announce_service v then update_announced_service v else v)"

lemma sv_type_update [simp]: "sv_type (update_announced_service v) = sv_type v"
  by (simp add: update_announced_service_def Let_def)

lemma sendable_update [simp]: "service_sendable (update_announced_service v) = service_sendable v"
  by (simp add: update_announced_service_def service_sendable_def Let_def)

lemma announce_round_ok:
  assumes ok: "services_ok state h"
  shows "\<exists>h'. announce_round state h = Some (announced state h, h') \<and> services_ok state h'
    \<and> (\<forall>p \<in> set (published_services state) \<union> set (subscribed_services state).
          service_at h' p = round_service (service_at h p))"
proof -
  have "distinct (announced state h)" "\<forall>p \<in> set (announced state h). cells h p \<noteq> None" "wf_store h"
    using ok by (auto simp: services_ok_def announced_def)
  from update_loop [OF this] obtain h' where h': "nan_update_announced_services (announced state h) h = Some h'"
      "wf_store h'" "cells h' = (\<lambda>p. if p \<in> set (announced state h)
          then map_option update_announced_service (cells h p) else cells h p)" by auto
  have "announce_round state h = Some (announced state h, h')"
    by (simp add: announce_round_def nan_get_services_to_announce_ok [OF ok] h'(1))
  moreover have "services_ok state h'"
    using ok h'(2) unfolding services_ok_def h'(3) by fastforce
  moreover have "\<forall>p \<in> set (published_services state) \<union> set (subscribed_services state).
          service_at h' p = round_service (service_at h p)"
  proof
    fix p assume p: "p \<in> set (published_services state) \<union> set (subscribed_services state)"
    have "service_at h' p = (if p \<in> set (announced state h)
        then update_announced_service (service_at h p) else service_at h p)"
      using services_ok_live [OF ok p] by (cases "cells h p") (simp_all add: service_at_def h'(3))
    then show "service_at h' p = round_service (service_at h p)"
      using p by (auto simp: round_service_def announced_def)
  qed
  ultimately show ?thesis by blast
qed

lemma announce_rounds_ok:
  "services_ok state h \<Longrightarrow> \<exists>h'. announce_rounds k state h = Some h' \<and> services_ok state h'
    \<and> (\<forall>p \<in> set (published_services state) \<union> set (subscribed_services state).
          service_at h' p = (round_service ^^ k) (service_at h p))"
proof (induction k arbitrary: h)
  case 0
  then show ?case by simp
next
  case (Suc k)
  from announce_round_ok [OF Suc.prems] obtain h1 where 1: "announce_round state h = Some (announced state h, h1)"
      "services_ok state h1" "\<forall>p \<in> set (published_services state) \<union> set (subscribed_services state).
          service_at h1 p = round_service (service_at h p)" by auto
  from Suc.IH [OF 1(2)] obtain h' where "announce_rounds k state h1 = Some h'" "services_ok state h'"
      "\<forall>p \<in> set (published_services state) \<union> set (subscribed_services state).
          service_at h' p = (round_service ^^ k) (service_at h1 p)" by auto
  with 1 show ?case by (simp add: funpow_swap1)
qed

definition announced_in_round :: "nan_service \<Rightarrow> nat \<Rightarrow> bool" where
  "announced_in_round v k \<longleftrightarrow> nan_should_announce_service v
     \<and> (sv_time_to_live v < 0 \<or> int k < sv_time_to_live v)
     \<and> (sv_type v = PUBLISHED \<and> sv_parameters_type v = publish_type_val PUBLISH_SOLICITED \<longrightarrow> k = 0)"

lemma round_service_announced:
  "nan_should_announce_service ((round_service ^^ k) v) \<longleftrightarrow> announced_in_round v k"
proof (induction k arbitrary: v)
  case 0
  then show ?case
    by (cases "sv_type v") (auto simp: announced_in_round_def nan_should_announce_service_def)
next
  case (Suc k)
  have "nan_should_announce_service ((round_service ^^ Suc k) v) \<longleftrightarrow> announced_in_round (round_service v) k"
    using Suc [of "round_service v"] by (simp add: funpow_swap1)
  also have "\<dots> \<longleftrightarrow> announced_in_round v (Suc k)"
    by (cases "sv_type v") (auto simp: announced_in_round_def round_service_def
        nan_should_announce_service_def update_announced_service_def Let_def)
  finally show ?case .
qed

section \<open>What a received descriptor does\<close>

lemma first_of_view:
  assumes "services_ok state h" "set ps \<subseteq> set (published_services state) \<union> set (subscribed_services state)"
  shows "find c (map (service_at h) ps) = None \<Longrightarrow> first_of c h ps = 0"
    and "find c (map (service_at h) ps) = Some v \<Longrightarrow>
      first_of c h ps \<noteq> 0 \<and> first_of c h ps \<in> set ps \<and> service_at h (first_of c h ps) = v"
proof -
  have null: "first_of c h ps = 0 \<longleftrightarrow> find c (map (service_at h) ps) = None"
    using first_of_NULL [OF assms, of c] by (simp add: find_None_iff)
  then show "find c (map (service_at h) ps) = None \<Longrightarrow> first_of c h ps = 0" by simp
  assume v: "find c (map (service_at h) ps) = Some v"
  define p where "p = first_of c h ps"
  have nz: "p \<noteq> 0" using null v by (simp add: p_def)
  from first_of_split [OF p_def [symmetric] nz] obtain us vs where "ps = us @ p # vs" "c (service_at h p)"
      "\<forall>u \<in> set us. \<not> c (service_at h u)" by auto
  moreover from this have "find c (map (service_at h) ps) = Some (service_at h p)"
    by (induction us arbitrary: ps) auto
  moreover have "p \<in> set ps" using \<open>ps = us @ p # vs\<close> by simp
  ultimately show "first_of c h ps \<noteq> 0 \<and> first_of c h ps \<in> set ps \<and> service_at h (first_of c h ps) = v"
    using v nz by (simp add: p_def)
qed

text \<open>The calls for an event of a service.\<close>

definition event_calls ::
  "nan_event_state \<Rightarrow> listener_heap \<Rightarrow> nan_event_type \<Rightarrow> nan_service \<Rightarrow> nan_event_data
   \<Rightarrow> nan_event_data listener_call list" where
  "event_calls es lh event v data =
     map (\<lambda>it. (li_listener it, event, data, li_additional_data it))
       (filter (wants event (sv_service_name v)) (listener_items es lh))"

definition discovery_result ::
  "ether_addr \<Rightarrow> nan_service_descriptor_attribute \<Rightarrow> nan_service \<Rightarrow> nan_event_data" where
  "discovery_result source sd v = Discovery_Result
     \<lparr>dr_subscribe_id = sv_instance_id v, dr_service_specific_info = sda_service_info sd,
      dr_service_specific_info_length = ucast (sda_service_info_length sd),
      dr_service_update_indicator = sv_update_indicator v, dr_publish_id = sda_instance_id sd,
      dr_address = source\<rparr>"

definition follow_up ::
  "ether_addr \<Rightarrow> nan_service_descriptor_attribute \<Rightarrow> nan_service \<Rightarrow> nan_event_data" where
  "follow_up source sd v = Receive
     \<lparr>er_instance_id = sv_instance_id v, er_peer_instance_id = sda_instance_id sd,
      er_service_specific_info = sda_service_info sd,
      er_service_specific_info_length = ucast (sda_service_info_length sd), er_address = source\<rparr>"

text \<open>The events a descriptor causes, and the service a subscribe descriptor marks.\<close>

definition received_events ::
  "nan_service list \<Rightarrow> nan_service list \<Rightarrow> nan_event_state \<Rightarrow> listener_heap \<Rightarrow> ether_addr \<Rightarrow> ether_addr
   \<Rightarrow> ether_addr \<Rightarrow> nan_service_descriptor_attribute \<Rightarrow> nan_event_data listener_call list" where
  "received_events pubs subs es lh self source destination sd =
     (let same = (\<lambda>v. sda_service_id sd = sv_service_id v) in
      if sdc_service_control_type (sda_control sd) = 0 then
        (case find same subs of None \<Rightarrow> []
         | Some v \<Rightarrow> event_calls es lh EVENT_DISCOVERY_RESULT v (discovery_result source sd v))
      else if sdc_service_control_type (sda_control sd) = 2 \<and> self = destination then
        (case find same (subs @ pubs) of None \<Rightarrow> []
         | Some v \<Rightarrow> event_calls es lh EVENT_RECEIVE v (follow_up source sd v))
      else [])"

fun mark_first :: "nan_service_id \<Rightarrow> nan_service list \<Rightarrow> nan_service list" where
  "mark_first sid [] = []"
| "mark_first sid (v # vs) =
     (if sid = sv_service_id v then v\<lparr>sv_parameters_flag := True\<rparr> # vs else v # mark_first sid vs)"

lemma mark_first_split:
  "\<forall>u \<in> set us. sid \<noteq> sv_service_id u \<Longrightarrow> sid = sv_service_id v \<Longrightarrow>
     mark_first sid (us @ v # vs) = us @ v\<lparr>sv_parameters_flag := True\<rparr> # vs"
  by (induction us) auto

lemma mark_first_none: "\<forall>u \<in> set us. sid \<noteq> sv_service_id u \<Longrightarrow> mark_first sid us = us"
  by (induction us) auto

lemma put_service:
  assumes ok: "services_ok state h" and p: "p \<in> set (published_services state)"
    and put: "store_put p v h = Some h'" and type: "sv_type v = PUBLISHED" "service_sendable v"
  shows "services_ok state h'" "subscribed state h' = subscribed state h"
    and "published_services state = us @ p # vs \<Longrightarrow>
      published state h' = map (service_at h) us @ v # map (service_at h) vs"
proof -
  have wf: "wf_store h'" using ok put wf_store_put by (auto simp: services_ok_def)
  have cells: "cells h' = (cells h)(p \<mapsto> v)" using put by (auto simp: store_put_def split: option.splits)
  have at: "service_at h' q = (if q = p then v else service_at h q)" for q
    by (simp add: service_at_def cells)
  have notin: "p \<notin> set (subscribed_services state)" using ok p by (auto simp: services_ok_def)
  show "services_ok state h'"
    using ok wf notin type unfolding services_ok_def cells by auto
  show "subscribed state h' = subscribed state h"
    unfolding subscribed_def by (rule map_cong [OF refl]) (metis at notin)
  assume split: "published_services state = us @ p # vs"
  then have "p \<notin> set us" "p \<notin> set vs" using ok by (auto simp: services_ok_def)
  then show "published state h' = map (service_at h) us @ v # map (service_at h) vs"
    unfolding published_def split using at by simp
qed

lemma received_subscribe:
  assumes ok: "services_ok state h"
    and t: "sdc_service_control_type (sda_control sd) = 1"
  shows "\<exists>h'. nan_handle_received_service_discovery state h es lh self source destination sd = Some (h', [])
    \<and> services_ok state h' \<and> subscribed state h' = subscribed state h
    \<and> published state h' = mark_first (sda_service_id sd) (published state h)"
proof -
  let ?c = "\<lambda>v. sda_service_id sd = sv_service_id v" and ?ps = "published_services state"
  define p where "p = first_of ?c h ?ps"
  have get: "nan_get_service_by_service_id state h (sda_service_id sd) (Some PUBLISHED) = Some p"
    unfolding p_def nan_get_service_by_service_id_def by (rule find_service_ok [OF ok])
  show ?thesis
  proof (cases "p = 0")
    case True
    then have "\<forall>v \<in> set (published state h). \<not> ?c v"
      using first_of_NULL [OF ok, of ?ps ?c] by (auto simp: p_def published_def)
    then have "mark_first (sda_service_id sd) (published state h) = published state h"
      by (rule mark_first_none)
    then show ?thesis
      using True get t ok by (simp add: nan_handle_received_service_discovery_def Let_def)
  next
    case False
    from first_of_split [OF p_def [symmetric] False] obtain us vs where u: "?ps = us @ p # vs"
        "?c (service_at h p)" "\<forall>u \<in> set us. \<not> ?c (service_at h u)" by auto
    have p: "p \<in> set ?ps" using u(1) by simp
    have live: "cells h p = Some (service_at h p)" using services_ok_live [OF ok, of p] p by simp
    have type: "sv_type (service_at h p) = PUBLISHED" "service_sendable (service_at h p\<lparr>sv_parameters_flag := True\<rparr>)"
      using ok p live by (auto simp: services_ok_def service_sendable_def)
    let ?v = "service_at h p\<lparr>sv_parameters_flag := True\<rparr>"
    obtain h' where put: "store_put p ?v h = Some h'" using live by (simp add: store_put_def)
    have run: "nan_handle_received_service_discovery state h es lh self source destination sd = Some (h', [])"
      using False get t live put by (simp add: nan_handle_received_service_discovery_def Let_def)
    have "published state h' = map (service_at h) us @ ?v # map (service_at h) vs"
      using put_service(3) [OF ok p put _ type(2) u(1)] type(1) by simp
    also have "\<dots> = mark_first (sda_service_id sd) (map (service_at h) us @ service_at h p # map (service_at h) vs)"
      using u(2,3) by (intro mark_first_split [symmetric]) auto
    also have "map (service_at h) us @ service_at h p # map (service_at h) vs = published state h"
      by (simp add: published_def u(1))
    finally show ?thesis using run put_service(1,2) [OF ok p put _ type(2)] type(1) by auto
  qed
qed

lemma find_append_services:
  "find c (xs @ ys) = (case find c xs of None \<Rightarrow> find c ys | Some x \<Rightarrow> Some x)"
  by (induction xs) auto

lemma received_other:
  assumes ok: "services_ok state h" and lok: "listeners_ok es lh"
    and t: "sdc_service_control_type (sda_control sd) \<noteq> 1"
  shows "nan_handle_received_service_discovery state h es lh self source destination sd
    = Some (h, received_events (published state h) (subscribed state h) es lh self source destination sd)"
proof -
  let ?c = "\<lambda>v. sda_service_id sd = sv_service_id v"
  let ?p = "first_of ?c h (published_services state)" and ?s = "first_of ?c h (subscribed_services state)"
  note get = find_service_ok [OF ok, of ?c, folded nan_get_service_by_service_id_def]
  note pub = first_of_view [OF ok, of "published_services state" ?c, folded published_def, simplified]
  note sub = first_of_view [OF ok, of "subscribed_services state" ?c, folded subscribed_def, simplified]
  note live = services_ok_live [OF ok]
  note defs = nan_handle_received_service_discovery_def received_events_def Let_def event_calls_def
    discovery_result_def follow_up_def
  have dispatch: "p \<noteq> 0 \<Longrightarrow> p \<in> set (published_services state) \<union> set (subscribed_services state) \<Longrightarrow>
      service_at h p = v \<Longrightarrow>
      do { w \<leftarrow> cells h p; calls \<leftarrow> nan_dispatch_event es lh e (Some (sv_service_name w)) (d w); Some (h, calls) }
      = Some (h, event_calls es lh e v (d v))" for p v e d
    using live [of p] by (simp add: nan_dispatch_event_ok [OF lok] event_calls_def)
  consider (publish) "sdc_service_control_type (sda_control sd) = 0"
    | (follow) "sdc_service_control_type (sda_control sd) = 2"
    | (other) "sdc_service_control_type (sda_control sd) \<notin> {0, 1, 2}"
    using t by auto
  then show ?thesis
  proof cases
    case publish
    show ?thesis
    proof (cases "find ?c (subscribed state h)")
      case None
      then show ?thesis using publish sub(1) get(2) by (simp add: defs)
    next
      case (Some v)
      from sub(2) [OF Some] dispatch [of ?s v EVENT_DISCOVERY_RESULT "discovery_result source sd"]
      show ?thesis using publish get(2) Some by (simp add: defs)
    qed
  next
    case follow
    define q where "q = (if ?s \<noteq> 0 then ?s else ?p)"
    have getq: "nan_get_service_by_service_id state h (sda_service_id sd) None = Some q"
      unfolding q_def by (rule get(3))
    show ?thesis
    proof (cases "self = destination")
      case False
      then show ?thesis using follow by (simp add: defs)
    next
      case True
      show ?thesis
      proof (cases "find ?c (subscribed state h @ published state h)")
        case None
        then have "q = 0" using pub(1) sub(1) by (auto simp: q_def find_append_services split: option.splits)
        then show ?thesis using None True follow getq by (simp add: defs)
      next
        case (Some v)
        then have "q \<noteq> 0 \<and> q \<in> set (published_services state) \<union> set (subscribed_services state) \<and> service_at h q = v"
          using pub sub by (auto simp: q_def find_append_services split: option.splits)
        then show ?thesis
          using dispatch [of q v EVENT_RECEIVE "follow_up source sd"] Some True follow getq
          by (simp add: defs)
      qed
    qed
  next
    case other
    then show ?thesis by (simp add: defs)
  qed
qed

section \<open>Properties\<close>

text \<open>
  C15: Publishing and subscribing append exactly one service to their own table and leave the
  other table alone. The service carries the name, the first six bytes of the SHA-256 digest
  of the lower-cased name, a copy of the given information, the time to live, a cleared flag,
  and as its instance identifier the number after that of the service registered before it,
  which the state keeps as its last one: 1 follows 255, so zero is never used and the numbers
  repeat. The tables stay well-formed.
\<close>

theorem nan_publish_subscribe_register:
  assumes ok: "services_ok state h"
    and args: "length name < 2 ^ 61" "list_all tolower_ok name" "length (sha_buf sj) = 64" "info_fits info n"
    "unat n < 2 ^ 31"
  shows "let v = new_service junk state name ttl info n in
    sv_instance_id v \<noteq> 0
    \<and> sv_instance_id v = (if last_instance_id state = 255 then 1 else last_instance_id state + 1)
    \<and> (\<exists>state' h'. nan_publish junk sj state h name ptype ttl info n = Some (sv_instance_id v, state', h')
      \<and> services_ok state' h' \<and> subscribed state' h' = subscribed state h
      \<and> last_instance_id state' = sv_instance_id v
      \<and> published state' h' = published state h @ [v\<lparr>sv_type := PUBLISHED,
            sv_parameters_type := publish_type_val ptype, sv_parameters_flag := False\<rparr>])
    \<and> (\<exists>state' h'. nan_subscribe junk sj state h name stype ttl info n = Some (sv_instance_id v, state', h')
      \<and> services_ok state' h' \<and> published state' h' = published state h
      \<and> last_instance_id state' = sv_instance_id v
      \<and> subscribed state' h' = subscribed state h @ [v\<lparr>sv_type := SUBSCRIBED,
            sv_parameters_type := subscribe_type_val stype, sv_parameters_flag := False\<rparr>])"
  using publish_subscribe_ok [OF assms] .

text \<open>A hash context and a service whose memory was not initialised.\<close>

definition junk_sha :: sha256_context where
  "junk_sha = \<lparr>sha_buf = replicate 64 0xAA, sha_hash = Sha 1 2 3 4 5 6 7 8, sha_bits0 = 9, sha_bits1 = 8, sha_len = 7\<rparr>"

definition junk_service :: nan_service where
  "junk_service = \<lparr>sv_service_name = ''?'', sv_type = SUBSCRIBED, sv_instance_id = 99, sv_service_id = [],
     sv_specific_info = Some [1], sv_specific_info_length = 77, sv_update_indicator = 0xAA,
     sv_time_to_live = - 5, sv_parameters_type = 7, sv_parameters_flag = True\<rparr>"

theorem nan_publish_subscribe_register_witness:
  "\<exists>state' h'. nan_publish junk_service junk_sha \<lparr>published_services = [], subscribed_services = [],
       last_instance_id = 255\<rparr> store_empty ''Printer'' PUBLISH_BOTH 3 (Some [1, 2, 3]) 2 = Some (1, state', h')
     \<and> services_ok state' h'
     \<and> map (\<lambda>v. (sv_service_name v, sv_specific_info v, sv_update_indicator v)) (published state' h')
        = [(''Printer'', Some [1, 2], 0xAA)]"
proof -
  let ?s = "\<lparr>published_services = [], subscribed_services = [], last_instance_id = 255\<rparr> :: nan_service_state"
  have "services_ok ?s store_empty" by (simp add: services_ok_def)
  moreover have "list_all tolower_ok ''Printer''" by (simp add: tolower_ok_def)
  ultimately show ?thesis
    using nan_publish_subscribe_register [of ?s store_empty "''Printer''" junk_sha "Some [1, 2, 3]" 2
      junk_service 3 PUBLISH_BOTH SUBSCRIBE_ACTIVE]
    by (auto simp: Let_def junk_sha_def junk_service_def info_fits_def info_given_def new_service_def published_def
        increase_non_zero_id_next)
qed

text \<open>
  C27: Cancelling a publication or a subscription is about its own table only. The first service
  of that table with the given identifier leaves the table and is freed, and the result is 0;
  when there is none the result is -1 and nothing changes. The other services of the table, in
  their order, and the whole other table stay as they are.
\<close>

theorem nan_cancel_removes:
  assumes "services_ok state h"
  shows "(\<exists>r ps h'. nan_cancel_publish state h i = Some (r, state\<lparr>published_services := ps\<rparr>, h')
      \<and> services_ok (state\<lparr>published_services := ps\<rparr>) h'
      \<and> subscribed (state\<lparr>published_services := ps\<rparr>) h' = subscribed state h
      \<and> published (state\<lparr>published_services := ps\<rparr>) h' = map (service_at h) ps
      \<and> cancelled i (published_services state) h r ps h')
    \<and> (\<exists>r ps h'. nan_cancel_subscribe state h i = Some (r, state\<lparr>subscribed_services := ps\<rparr>, h')
      \<and> services_ok (state\<lparr>subscribed_services := ps\<rparr>) h'
      \<and> published (state\<lparr>subscribed_services := ps\<rparr>) h' = published state h
      \<and> subscribed (state\<lparr>subscribed_services := ps\<rparr>) h' = map (service_at h) ps
      \<and> cancelled i (subscribed_services state) h r ps h')"
  by (intro conjI nan_cancel_publish_ok nan_cancel_subscribe_ok assms)

text \<open>Two published services, for the witnesses.\<close>

definition two_services :: "service_heap" where
  "two_services = \<lparr>cells = [1 \<mapsto> junk_service\<lparr>sv_type := PUBLISHED, sv_instance_id := 4, sv_specific_info_length := 1, sv_service_id := [1, 2, 3, 4, 5, 6],
       sv_service_name := ''printer'', sv_time_to_live := 2, sv_parameters_type := 0, sv_parameters_flag := False\<rparr>,
     2 \<mapsto> junk_service\<lparr>sv_type := SUBSCRIBED, sv_instance_id := 5, sv_specific_info_length := 1, sv_service_id := [6, 5, 4, 3, 2, 1],
       sv_service_name := ''scanner'', sv_time_to_live := - 1, sv_parameters_type := 1, sv_parameters_flag := False\<rparr>],
     brk = 3\<rparr>"

definition two_state :: nan_service_state where
  "two_state = \<lparr>published_services = [1], subscribed_services = [2], last_instance_id = 5\<rparr>"

lemma services_ok_two: "services_ok two_state two_services"
  by (simp add: services_ok_def two_state_def two_services_def wf_store_def service_sendable_def info_fits_def junk_service_def)

lemma cancelled_single: "cancelled i [p] h r ps' h' \<longleftrightarrow>
    (if sv_instance_id (service_at h p) = i then r = 0 \<and> ps' = [] \<and> h' = h\<lparr>cells := (cells h)(p := None)\<rparr>
     else r = - 1 \<and> ps' = [p] \<and> h' = h)"
  by (auto simp: cancelled_def Cons_eq_append_conv)

theorem nan_cancel_removes_witness:
  "(\<exists>h'. nan_cancel_publish two_state two_services 4 = Some (0, two_state\<lparr>published_services := []\<rparr>, h') \<and> cells h' 1 = None)
   \<and> (\<exists>h'. nan_cancel_subscribe two_state two_services 4 = Some (- 1, two_state, h') \<and> h' = two_services)"
proof -
  have two: "published_services two_state = [1]" "subscribed_services two_state = [2]"
      "two_state\<lparr>subscribed_services := [2]\<rparr> = two_state"
      "sv_instance_id (service_at two_services 1) = 4" "sv_instance_id (service_at two_services 2) = 5"
    by (simp_all add: two_state_def service_at_def two_services_def)
  from nan_cancel_removes [OF services_ok_two, of 4] show ?thesis
    unfolding two(1,2) cancelled_single two(4,5) by (auto simp: two(3))
qed

text \<open>
  C16: A service stays announced for exactly its time to live. After \<open>k\<close> transmissions, each of
  which collects the services to announce and then updates them, a registered service is
  announced in the next one if and only if it was announced at first, \<open>k\<close> is below its time
  to live or that is negative, and, for a solicited publication, \<open>k\<close> is 0.
\<close>

theorem announced_for_time_to_live:
  assumes "services_ok state h"
    and "p \<in> set (published_services state) \<union> set (subscribed_services state)"
  shows "\<exists>h' h''. announce_rounds k state h = Some h' \<and> announce_round state h' = Some (announced state h', h'')
    \<and> (p \<in> set (announced state h') \<longleftrightarrow> announced_in_round (service_at h p) k)"
proof -
  from announce_rounds_ok [OF assms(1), of k] obtain h' where h': "announce_rounds k state h = Some h'"
      "services_ok state h'" "service_at h' p = (round_service ^^ k) (service_at h p)" using assms(2) by blast
  from announce_round_ok [OF h'(2)] obtain h'' where "announce_round state h' = Some (announced state h', h'')"
    by blast
  moreover have "p \<in> set (announced state h') \<longleftrightarrow> nan_should_announce_service (service_at h' p)"
    using assms(2) by (auto simp: announced_def)
  ultimately show ?thesis using h'(1) by (simp add: h'(3) round_service_announced)
qed

theorem announced_for_time_to_live_witness:
  "\<exists>h1 h2. announce_rounds 1 two_state two_services = Some h1 \<and> 1 \<in> set (announced two_state h1)
     \<and> announce_rounds 2 two_state two_services = Some h2 \<and> 1 \<notin> set (announced two_state h2)"
proof -
  have in1: "1 \<in> set (published_services two_state) \<union> set (subscribed_services two_state)"
    by (simp add: two_state_def)
  have "announced_in_round (service_at two_services 1) 1" "\<not> announced_in_round (service_at two_services 1) 2"
    by (simp_all add: announced_in_round_def service_at_def two_services_def nan_should_announce_service_def)
  with announced_for_time_to_live [OF services_ok_two in1, of 1]
    announced_for_time_to_live [OF services_ok_two in1, of 2]
  show ?thesis by auto
qed

lemma received_descriptor:
  assumes "services_ok state h" "listeners_ok es lh"
  shows "\<exists>h'. nan_handle_received_service_discovery state h es lh self source destination sd
      = Some (h', received_events (published state h) (subscribed state h) es lh self source destination sd)
    \<and> services_ok state h' \<and> subscribed state h' = subscribed state h
    \<and> published state h' = (if sdc_service_control_type (sda_control sd) = 1
        then mark_first (sda_service_id sd) (published state h) else published state h)"
proof (cases "sdc_service_control_type (sda_control sd) = 1")
  case True
  from received_subscribe [OF assms(1) True, of es lh self source destination] True
  show ?thesis by (auto simp: received_events_def)
next
  case False
  from received_other [OF assms False, of self source destination] False assms(1)
  show ?thesis by simp
qed

text \<open>
  C13: A received service descriptor of a publication calls the discovery listeners of the
  first subscribed service with its identifier, a follow-up calls the receive listeners only
  when it is addressed to the own interface, and neither changes a service; a descriptor of a
  subscription calls nobody and marks only the first matching publication to be announced.
\<close>

theorem nan_received_descriptor_effect:
  assumes "services_ok state h" "listeners_ok es lh"
  shows "\<exists>h'. nan_handle_received_service_discovery state h es lh self source destination sd
      = Some (h', received_events (published state h) (subscribed state h) es lh self source destination sd)
    \<and> services_ok state h' \<and> subscribed state h' = subscribed state h
    \<and> published state h' = (if sdc_service_control_type (sda_control sd) = 1
        then mark_first (sda_service_id sd) (published state h) else published state h)"
  using assms by (rule received_descriptor)

theorem nan_received_descriptor_effect_witness:
  "\<exists>h'. nan_handle_received_service_discovery two_state two_services \<lparr>listeners = []\<rparr> store_empty
      (Ether_Addr 2 0 0 0 0 1) (Ether_Addr 2 0 0 0 0 2) (Ether_Addr 0xff 0xff 0xff 0xff 0xff 0xff)
      \<lparr>sda_service_id = [1, 2, 3, 4, 5, 6], sda_instance_id = 9, sda_requestor_instance_id = 0, sda_control = 1,
       sda_service_info = [], sda_service_info_length = 0\<rparr> = Some (h', [])
    \<and> map sv_parameters_flag (published two_state h') = [True]"
proof -
  have ct: "sdc_service_control_type 1 = 1" by (simp add: sdc_service_control_type_def field_get_def)
  have "listeners_ok \<lparr>listeners = []\<rparr> store_empty" by (simp add: listeners_ok_def)
  from nan_received_descriptor_effect [OF services_ok_two this, of "Ether_Addr 2 0 0 0 0 1"
      "Ether_Addr 2 0 0 0 0 2" "Ether_Addr 0xff 0xff 0xff 0xff 0xff 0xff"
      "\<lparr>sda_service_id = [1, 2, 3, 4, 5, 6], sda_instance_id = 9, sda_requestor_instance_id = 0, sda_control = 1,
       sda_service_info = [], sda_service_info_length = 0\<rparr>"]
  show ?thesis
    by (auto simp: ct received_events_def published_def two_state_def service_at_def two_services_def)
qed

end
