(* ===== verification/Nan_Crc32.thy ===== *)
theory Nan_Crc32
  imports Nan_Prelude
begin

text \<open>
  The frame check sequence of \<^verbatim>\<open>src/src/crc32.c\<close>: the table, the table-driven loop, and
  the proof that it computes the bitwise reflected CRC with polynomial \<open>0xEDB88320\<close>, for
  every message. The last section shows what the receiver of a frame relies on: a message
  followed by its own FCS leaves a fixed residue.
\<close>

definition crc32_tab :: "u32 list" where
  "crc32_tab = [
   0x00000000, 0x77073096, 0xee0e612c, 0x990951ba, 0x076dc419, 0x706af48f,
   0xe963a535, 0x9e6495a3, 0x0edb8832, 0x79dcb8a4, 0xe0d5e91e, 0x97d2d988,
   0x09b64c2b, 0x7eb17cbd, 0xe7b82d07, 0x90bf1d91, 0x1db71064, 0x6ab020f2,
   0xf3b97148, 0x84be41de, 0x1adad47d, 0x6ddde4eb, 0xf4d4b551, 0x83d385c7,
   0x136c9856, 0x646ba8c0, 0xfd62f97a, 0x8a65c9ec, 0x14015c4f, 0x63066cd9,
   0xfa0f3d63, 0x8d080df5, 0x3b6e20c8, 0x4c69105e, 0xd56041e4, 0xa2677172,
   0x3c03e4d1, 0x4b04d447, 0xd20d85fd, 0xa50ab56b, 0x35b5a8fa, 0x42b2986c,
   0xdbbbc9d6, 0xacbcf940, 0x32d86ce3, 0x45df5c75, 0xdcd60dcf, 0xabd13d59,
   0x26d930ac, 0x51de003a, 0xc8d75180, 0xbfd06116, 0x21b4f4b5, 0x56b3c423,
   0xcfba9599, 0xb8bda50f, 0x2802b89e, 0x5f058808, 0xc60cd9b2, 0xb10be924,
   0x2f6f7c87, 0x58684c11, 0xc1611dab, 0xb6662d3d, 0x76dc4190, 0x01db7106,
   0x98d220bc, 0xefd5102a, 0x71b18589, 0x06b6b51f, 0x9fbfe4a5, 0xe8b8d433,
   0x7807c9a2, 0x0f00f934, 0x9609a88e, 0xe10e9818, 0x7f6a0dbb, 0x086d3d2d,
   0x91646c97, 0xe6635c01, 0x6b6b51f4, 0x1c6c6162, 0x856530d8, 0xf262004e,
   0x6c0695ed, 0x1b01a57b, 0x8208f4c1, 0xf50fc457, 0x65b0d9c6, 0x12b7e950,
   0x8bbeb8ea, 0xfcb9887c, 0x62dd1ddf, 0x15da2d49, 0x8cd37cf3, 0xfbd44c65,
   0x4db26158, 0x3ab551ce, 0xa3bc0074, 0xd4bb30e2, 0x4adfa541, 0x3dd895d7,
   0xa4d1c46d, 0xd3d6f4fb, 0x4369e96a, 0x346ed9fc, 0xad678846, 0xda60b8d0,
   0x44042d73, 0x33031de5, 0xaa0a4c5f, 0xdd0d7cc9, 0x5005713c, 0x270241aa,
   0xbe0b1010, 0xc90c2086, 0x5768b525, 0x206f85b3, 0xb966d409, 0xce61e49f,
   0x5edef90e, 0x29d9c998, 0xb0d09822, 0xc7d7a8b4, 0x59b33d17, 0x2eb40d81,
   0xb7bd5c3b, 0xc0ba6cad, 0xedb88320, 0x9abfb3b6, 0x03b6e20c, 0x74b1d29a,
   0xead54739, 0x9dd277af, 0x04db2615, 0x73dc1683, 0xe3630b12, 0x94643b84,
   0x0d6d6a3e, 0x7a6a5aa8, 0xe40ecf0b, 0x9309ff9d, 0x0a00ae27, 0x7d079eb1,
   0xf00f9344, 0x8708a3d2, 0x1e01f268, 0x6906c2fe, 0xf762575d, 0x806567cb,
   0x196c3671, 0x6e6b06e7, 0xfed41b76, 0x89d32be0, 0x10da7a5a, 0x67dd4acc,
   0xf9b9df6f, 0x8ebeeff9, 0x17b7be43, 0x60b08ed5, 0xd6d6a3e8, 0xa1d1937e,
   0x38d8c2c4, 0x4fdff252, 0xd1bb67f1, 0xa6bc5767, 0x3fb506dd, 0x48b2364b,
   0xd80d2bda, 0xaf0a1b4c, 0x36034af6, 0x41047a60, 0xdf60efc3, 0xa867df55,
   0x316e8eef, 0x4669be79, 0xcb61b38c, 0xbc66831a, 0x256fd2a0, 0x5268e236,
   0xcc0c7795, 0xbb0b4703, 0x220216b9, 0x5505262f, 0xc5ba3bbe, 0xb2bd0b28,
   0x2bb45a92, 0x5cb36a04, 0xc2d7ffa7, 0xb5d0cf31, 0x2cd99e8b, 0x5bdeae1d,
   0x9b64c2b0, 0xec63f226, 0x756aa39c, 0x026d930a, 0x9c0906a9, 0xeb0e363f,
   0x72076785, 0x05005713, 0x95bf4a82, 0xe2b87a14, 0x7bb12bae, 0x0cb61b38,
   0x92d28e9b, 0xe5d5be0d, 0x7cdcefb7, 0x0bdbdf21, 0x86d3d2d4, 0xf1d4e242,
   0x68ddb3f8, 0x1fda836e, 0x81be16cd, 0xf6b9265b, 0x6fb077e1, 0x18b74777,
   0x88085ae6, 0xff0f6a70, 0x66063bca, 0x11010b5c, 0x8f659eff, 0xf862ae69,
   0x616bffd3, 0x166ccf45, 0xa00ae278, 0xd70dd2ee, 0x4e048354, 0x3903b3c2,
   0xa7672661, 0xd06016f7, 0x4969474d, 0x3e6e77db, 0xaed16a4a, 0xd9d65adc,
   0x40df0b66, 0x37d83bf0, 0xa9bcae53, 0xdebb9ec5, 0x47b2cf7f, 0x30b5ffe9,
   0xbdbdf21c, 0xcabac28a, 0x53b39330, 0x24b4a3a6, 0xbad03605, 0xcdd70693,
   0x54de5729, 0x23d967bf, 0xb3667a2e, 0xc4614ab8, 0x5d681b02, 0x2a6f2b94,
   0xb40bbe37, 0xc30c8ea1, 0x5a05df1b, 0x2d02ef8d
  ]"

text \<open>One iteration of \<^verbatim>\<open>while (size--)\<close>.\<close>

definition crc32_step :: "u32 \<Rightarrow> u8 \<Rightarrow> u32" where
  "crc32_step crc p = crc32_tab ! unat ((crc XOR ucast p) AND 0xff) XOR drop_bit 8 crc"

fun crc32_loop :: "u8 list \<Rightarrow> u32 \<Rightarrow> u32" where
  "crc32_loop [] crc = crc"
| "crc32_loop (p # ps) crc = crc32_loop ps (crc32_step crc p)"

text \<open>\<open>crc32 buf\<close> is the call \<^verbatim>\<open>crc32(buf, size)\<close> on the \<^verbatim>\<open>size\<close> bytes at \<^verbatim>\<open>buf\<close>.\<close>

definition crc32 :: "u8 list \<Rightarrow> u32" where
  "crc32 buf = (let crc = NOT 0; crc = crc32_loop buf crc in crc XOR NOT 0)"

section \<open>The reference: one bit at a time\<close>

definition crc_bit :: "u32 \<Rightarrow> u32" where
  "crc_bit r = drop_bit 1 r XOR (if bit r 0 then 0xEDB88320 else 0)"

definition crc_byte :: "u32 \<Rightarrow> u8 \<Rightarrow> u32" where
  "crc_byte r p = (crc_bit ^^ 8) (r XOR ucast p)"

definition crc32_spec :: "u8 list \<Rightarrow> u32" where
  "crc32_spec msg = NOT (foldl crc_byte (NOT 0) msg)"

lemma crc_bit_xor: "crc_bit (a XOR b) = crc_bit a XOR crc_bit b"
  by (rule bit_word_eqI) (auto simp: crc_bit_def bit_simps)

lemma crc_bits_xor: "(crc_bit ^^ n) (a XOR b) = (crc_bit ^^ n) a XOR (crc_bit ^^ n) b"
  by (induction n) (simp_all add: crc_bit_xor)

lemma crc_bits_high: "take_bit n r = 0 \<Longrightarrow> (crc_bit ^^ n) r = drop_bit n r"
proof (induction n arbitrary: r)
  case 0
  then show ?case by simp
next
  case (Suc n)
  have b0: "\<not> bit r 0"
    using Suc.prems by (metis bit_0 bit_take_bit_iff zero_less_Suc bit_0_eq bot_apply bot_bool_def)
  then have step: "crc_bit r = drop_bit 1 r" by (simp add: crc_bit_def)
  have "take_bit n (drop_bit 1 r) = 0"
    using Suc.prems by (simp add: take_bit_drop_bit)
  from Suc.IH [OF this] show ?case
    by (simp add: funpow_Suc_right step drop_bit_drop_bit del: funpow.simps)
qed

text \<open>The table holds the effect of eight bit steps on each byte value.\<close>

lemma funpow_8: "(f ^^ 8) x = f (f (f (f (f (f (f (f x)))))))"
  by (simp add: eval_nat_numeral)

text \<open>Evaluation on literals only, so that nothing unfolds under a binder.\<close>

lemma crc_bit_literals:
  "crc_bit 0 = 0"
  "crc_bit 1 = 0xEDB88320"
  "crc_bit (numeral n) = drop_bit 1 (numeral n) XOR (if bit (numeral n :: u32) 0 then 0xEDB88320 else 0)"
  by (simp_all add: crc_bit_def)

lemma crc_bits_literals:
  "(crc_bit ^^ 8) 0 = 0"
  "(crc_bit ^^ 8) 1 = 0x77073096"
  "(crc_bit ^^ 8) (numeral n) =
     crc_bit (crc_bit (crc_bit (crc_bit (crc_bit (crc_bit (crc_bit (crc_bit (numeral n))))))))"
  by (simp_all add: funpow_8 crc_bit_literals)

lemma crc32_tab_entries:
  "map (\<lambda>i. (crc_bit ^^ 8) (word_of_nat i)) [0..<256] = crc32_tab"
  by (simp add: crc32_tab_def crc_bit_literals crc_bits_literals upt_conv_Cons)

lemma crc32_tab_nth: "i < 256 \<Longrightarrow> crc32_tab ! i = (crc_bit ^^ 8) (word_of_nat i)"
  by (simp flip: crc32_tab_entries)

section \<open>The loop computes the reference\<close>

lemma crc32_step_byte: "crc32_step r p = crc_byte r p"
proof -
  let ?x = "r XOR ucast p :: u32"
  have lt: "unat (?x AND 0xff) < 256"
  proof -
    have "?x AND 0xff \<le> 0xff" by (rule word_and_le1)
    then have "unat (?x AND 0xff) \<le> unat (0xff :: u32)" by (simp only: word_le_nat_alt)
    then show ?thesis by simp
  qed
  have mask: "(0xff :: u32) = mask 8" by (simp add: mask_eq_exp_minus_1)
  have split: "?x = (?x AND 0xff) XOR (?x AND NOT 0xff)"
    by (rule bit_word_eqI) (auto simp: bit_simps)
  have low: "take_bit 8 (?x AND NOT 0xff) = 0"
    unfolding mask by (rule bit_word_eqI) (auto simp: bit_simps)
  have high: "drop_bit 8 (?x AND NOT 0xff) = drop_bit 8 r"
    unfolding mask
    by (rule bit_word_eqI) (auto simp: bit_simps dest: bit_imp_le_length)
  have "crc_byte r p = (crc_bit ^^ 8) (?x AND 0xff) XOR (crc_bit ^^ 8) (?x AND NOT 0xff)"
    unfolding crc_byte_def by (subst split) (rule crc_bits_xor)
  also have "\<dots> = crc32_tab ! unat (?x AND 0xff) XOR drop_bit 8 r"
    unfolding crc_bits_high [OF low] high using lt by (simp add: crc32_tab_nth)
  finally show ?thesis by (simp add: crc32_step_def)
qed

lemma crc32_loop_foldl: "crc32_loop ps r = foldl crc_byte r ps"
  by (induction ps arbitrary: r) (simp_all add: crc32_step_byte)

lemma crc32_loop_append: "crc32_loop (ps @ qs) r = crc32_loop qs (crc32_loop ps r)"
  by (simp add: crc32_loop_foldl)

lemma crc32_eq_spec: "crc32 msg = crc32_spec msg"
  by (simp add: crc32_def crc32_spec_def crc32_loop_foldl Let_def) 

section \<open>The residue of a message followed by its check sequence\<close>

text \<open>
  Feeding two bytes at once: a byte that only reaches the register after eight steps may as
  well be put eight positions higher before them.
\<close>

lemma crc_bits_push: "n \<le> 24 \<Longrightarrow> (crc_bit ^^ n) (push_bit n (ucast (p :: u8))) = ucast p"
proof -
  assume n: "n \<le> 24"
  have "take_bit n (push_bit n (ucast p :: u32)) = 0"
    by (rule bit_word_eqI) (auto simp: bit_simps)
  moreover have "drop_bit n (push_bit n (ucast p :: u32)) = ucast p"
    using n by (intro bit_word_eqI) (auto simp: bit_simps dest: bit_imp_le_length)
  ultimately show ?thesis by (simp add: crc_bits_high)
qed

lemma crc_byte_push:
  "n \<le> 24 \<Longrightarrow> crc_byte ((crc_bit ^^ n) r) p = (crc_bit ^^ (8 + n)) (r XOR push_bit n (ucast p))"
  unfolding crc_byte_def by (simp add: funpow_add crc_bits_xor crc_bits_push)

lemma crc_bytes_word: "foldl crc_byte r (le_bytes 4 w) = (crc_bit ^^ 32) (r XOR w)"
proof -
  let ?b = "\<lambda>i. ucast (drop_bit i w) :: u8"
  have "foldl crc_byte r (le_bytes 4 w) = (crc_bit ^^ 32) (r XOR ucast (ucast w :: u8) XOR push_bit 8 (ucast (?b 8))
      XOR push_bit 16 (ucast (?b 16)) XOR push_bit 24 (ucast (?b 24)))"
    using crc_byte_push [of 0 r "ucast w"] crc_byte_push [of 8] crc_byte_push [of 16] crc_byte_push [of 24]
    by (simp add: xor.assoc)
  also have "r XOR ucast (ucast w :: u8) XOR push_bit 8 (ucast (?b 8))
      XOR push_bit 16 (ucast (?b 16)) XOR push_bit 24 (ucast (?b 24)) = r XOR w"
  proof (rule bit_word_eqI)
    fix n
    assume "n < LENGTH(32)"
    then consider "n < 8" | "8 \<le> n" "n < 16" | "16 \<le> n" "n < 24" | "24 \<le> n" "n < 32" by force
    then show "bit (r XOR ucast (ucast w :: u8) XOR push_bit 8 (ucast (?b 8))
        XOR push_bit 16 (ucast (?b 16)) XOR push_bit 24 (ucast (?b 24))) n = bit (r XOR w) n"
      by cases (auto simp: bit_simps)
  qed
  finally show ?thesis .
qed

lemma funpow_32: "(f ^^ 32) x = (f ^^ 8) ((f ^^ 8) ((f ^^ 8) ((f ^^ 8) x)))"
proof -
  have "(32 :: nat) = 8 + (8 + (8 + 8))" by simp
  then show ?thesis by (simp only: funpow_add o_apply)
qed

lemma crc_bits_ones: "(crc_bit ^^ 32) (NOT 0) = 0xDEBB20E3"
proof -
  have "NOT 0 = (0xFFFFFFFF :: u32)" by simp
  then show ?thesis by (simp only:) (simp add: funpow_32 crc_bits_literals crc_bit_literals)
qed

text \<open>
  The check a receiver may run: over a frame with its check sequence appended in the order
  \<^verbatim>\<open>htole32\<close> stores it, the routine always yields the same value.
\<close>

lemma crc32_residue: "crc32 (msg @ le_bytes 4 (crc32 msg)) = 0x2144DF1C"
proof -
  define r where "r = crc32_loop msg (NOT 0)"
  have "crc32 msg = r XOR NOT 0" by (simp add: crc32_def r_def)
  then have "crc32_loop (msg @ le_bytes 4 (crc32 msg)) (NOT 0)
      = (crc_bit ^^ 32) (r XOR (r XOR NOT 0))"
    by (simp only: crc32_loop_append crc32_loop_foldl [of "le_bytes 4 _"] crc_bytes_word flip: r_def)
  also have "r XOR (r XOR NOT 0) = NOT 0" by (simp only: xor.assoc [symmetric]) simp
  finally show ?thesis by (simp only: crc32_def Let_def crc_bits_ones) simp
qed

section \<open>Properties\<close>

text \<open>
  C25: The table-driven routine computes the reflected CRC-32 of the polynomial
  \<open>0xEDB88320\<close>, bit by bit, on every message: all 256 entries of the table are right, and
  the index and shift of the loop are the right ones.
\<close>

theorem crc32_is_reference: "crc32 msg = crc32_spec msg"
  by (rule crc32_eq_spec)

text \<open>
  A frame followed by its check sequence in little-endian order, as \<^verbatim>\<open>ieee80211_add_fcs\<close>
  appends it, has the same CRC-32 whatever the frame is.
\<close>

lemma crc32_residue_constant: "crc32 (msg @ le_bytes 4 (crc32 msg)) = 0x2144DF1C"
  by (rule crc32_residue)

end
