(* ===== verification/Nan_Ieee80211.thy ===== *)
theory Nan_Ieee80211
  imports Nan_Wire Nan_Crc32 Nan_Frame
begin

text \<open>
  Headers and check sequence of 802.11 frames: \<^verbatim>\<open>src/src/ieee80211.c\<close>. The radiotap library
  (\<^verbatim>\<open>radiotap.h\<close>, \<^verbatim>\<open>radiotap_iter.h\<close>) is not part of the repository: its constants, the layout
  of its header and its iterator are the fields of the record \<open>radiotap_lib\<close>, an argument
  of the functions that use them.
\<close>

section \<open>The radiotap library\<close>

text \<open>
  The size of \<^verbatim>\<open>struct ieee80211_radiotap_header\<close> and the offsets of its members, the numbers
  of the fields, two bits of the flags field, and the iterator: \<open>rt_this_arg\<close> is the memory
  from \<^verbatim>\<open>iter.this_arg\<close> on.
\<close>

record 'it radiotap_lib =
  rt_header_size :: nat
  rt_it_version :: nat
  rt_it_pad :: nat
  rt_it_len :: nat
  rt_it_present :: nat
  RADIOTAP_TSFT :: nat
  RADIOTAP_FLAGS :: nat
  RADIOTAP_RATE :: nat
  RADIOTAP_DBM_ANTSIGNAL :: nat
  RADIOTAP_F_FCS :: u8
  RADIOTAP_F_BADFCS :: u8
  rt_iterator_init :: "u8 list \<Rightarrow> int \<Rightarrow> int \<times> 'it"
  rt_iterator_next :: "'it \<Rightarrow> int \<times> 'it"
  rt_is_radiotap_ns :: "'it \<Rightarrow> bool"
  rt_this_arg_index :: "'it \<Rightarrow> nat"
  rt_this_arg :: "'it \<Rightarrow> u8 list"

text \<open>The documented layout: version, pad, length and presence word, packed.\<close>

definition radiotap_layout :: "'it radiotap_lib \<Rightarrow> bool" where
  "radiotap_layout rt \<longleftrightarrow> rt_header_size rt = 8 \<and> rt_it_version rt = 0 \<and> rt_it_pad rt = 1
     \<and> rt_it_len rt = 2 \<and> rt_it_present rt = 4"

section \<open>Frame control\<close>

abbreviation (input) IEEE80211_FCTL_FTYPE :: u16 where "IEEE80211_FCTL_FTYPE \<equiv> 0x000c"
abbreviation (input) IEEE80211_FCTL_STYPE :: u16 where "IEEE80211_FCTL_STYPE \<equiv> 0x00f0"
abbreviation (input) IEEE80211_FTYPE_MGMT :: u16 where "IEEE80211_FTYPE_MGMT \<equiv> 0x0000"
abbreviation (input) IEEE80211_STYPE_BEACON :: u16 where "IEEE80211_STYPE_BEACON \<equiv> 0x0080"
abbreviation (input) IEEE80211_STYPE_ACTION :: u16 where "IEEE80211_STYPE_ACTION \<equiv> 0x00D0"
abbreviation (input) IEEE80211_PUBLIC_ACTION_FRAME :: u8 where "IEEE80211_PUBLIC_ACTION_FRAME \<equiv> 0x04"
abbreviation (input) IEEE80211_PUBLIC_ACTION_FRAME_VENDOR_SPECIFIC :: u8
  where "IEEE80211_PUBLIC_ACTION_FRAME_VENDOR_SPECIFIC \<equiv> 0x09"

section \<open>State and headers\<close>

record ieee80211_hdr =
  hdr_frame_control :: u16
  hdr_duration_id :: u16
  hdr_addr1 :: ether_addr
  hdr_addr2 :: ether_addr
  hdr_addr3 :: ether_addr
  hdr_seq_ctrl :: u16

definition ieee80211_hdr_bytes :: "ieee80211_hdr \<Rightarrow> u8 list" where
  "ieee80211_hdr_bytes hdr =
     le_bytes 2 (hdr_frame_control hdr) @ le_bytes 2 (hdr_duration_id hdr)
     @ ether_addr_octet (hdr_addr1 hdr) @ ether_addr_octet (hdr_addr2 hdr)
     @ ether_addr_octet (hdr_addr3 hdr) @ le_bytes 2 (hdr_seq_ctrl hdr)"

text \<open>The same structure, read from the bytes a pointer refers to.\<close>

definition ieee80211_hdr_of :: "u8 list \<Rightarrow> ieee80211_hdr" where
  "ieee80211_hdr_of bs =
     \<lparr>hdr_frame_control = of_le_bytes (take 2 bs), hdr_duration_id = of_le_bytes (take 2 (drop 2 bs)),
      hdr_addr1 = ether_addr_of (take 6 (drop 4 bs)), hdr_addr2 = ether_addr_of (take 6 (drop 10 bs)),
      hdr_addr3 = ether_addr_of (take 6 (drop 16 bs)), hdr_seq_ctrl = of_le_bytes (take 2 (drop 22 bs))\<rparr>"

record ieee80211_state =
  sequence_number :: u16
  fcs :: bool

definition ieee80211_init_state :: "ieee80211_state \<Rightarrow> ieee80211_state" where
  "ieee80211_init_state state = state\<lparr>sequence_number := 0, fcs := True\<rparr>"

definition ieee80211_state_next_sequence_number :: "ieee80211_state \<Rightarrow> u32 \<times> ieee80211_state" where
  "ieee80211_state_next_sequence_number state =
     (ucast (sequence_number state), state\<lparr>sequence_number := sequence_number state + 1\<rparr>)"

text \<open>
  \<open>put_struct i bs\<close>: the stores through a pointer to a structure at offset \<open>i\<close> of the
  buffer's memory, without any check of the buffer; outside the memory they are undefined.
\<close>

definition put_struct :: "nat \<Rightarrow> u8 list \<Rightarrow> buf \<Rightarrow> buf option" where
  "put_struct i bs b = do { m \<leftarrow> mem_store (bdata b) i bs; Some (b\<lparr>bdata := m\<rparr>) }"

definition ieee80211_add_nan_header ::
  "buf \<Rightarrow> ether_addr \<Rightarrow> ether_addr \<Rightarrow> ether_addr \<Rightarrow> ieee80211_state \<Rightarrow> u16 \<Rightarrow> (buf \<times> ieee80211_state) option" where
  "ieee80211_add_nan_header b src dst bssid state type =
     (let (n, state) = ieee80211_state_next_sequence_number state;
          hdr = \<lparr>hdr_frame_control = type, hdr_duration_id = 0, hdr_addr1 = dst, hdr_addr2 = src,
                 hdr_addr3 = bssid, hdr_seq_ctrl = ucast (push_bit 4 n)\<rparr>
      in do { b \<leftarrow> put_struct (unat (buf_current b)) (ieee80211_hdr_bytes hdr) b;
              Some (snd (buf_advance b 24), state) })"

definition ieee80211_radiotap_type_to_mask :: "nat \<Rightarrow> u32" where
  "ieee80211_radiotap_type_to_mask type = push_bit type 1"

text \<open>The cursor moves first; the members of the header are stored through the saved pointer.\<close>

definition ieee80211_add_radiotap_header ::
  "'it radiotap_lib \<Rightarrow> buf \<Rightarrow> ieee80211_state \<Rightarrow> buf option" where
  "ieee80211_add_radiotap_header rt b state =
     (let hdr = unat (buf_current b);
          b = snd (buf_advance b (of_nat (rt_header_size rt)));
          len = of_nat (rt_header_size rt) :: size_t
      in do { b \<leftarrow> put_struct (hdr + rt_it_version rt) [0] b;
              b \<leftarrow> put_struct (hdr + rt_it_pad rt) [0] b;
              (present, len, b) \<leftarrow>
                (if fcs state
                 then do { (n, b) \<leftarrow> write_u8 b (RADIOTAP_F_FCS rt);
                           Some (0 OR ieee80211_radiotap_type_to_mask (RADIOTAP_FLAGS rt),
                                 len + word_of_int n, b) }
                 else Some (0, len, b));
              let present = present OR ieee80211_radiotap_type_to_mask (RADIOTAP_RATE rt);
              (n, b) \<leftarrow> write_u8 b 2;
              let len = len + word_of_int n;
              let present = present OR ieee80211_radiotap_type_to_mask (RADIOTAP_DBM_ANTSIGNAL rt);
              (n, b) \<leftarrow> write_u8 b 200;
              let len = len + word_of_int n;
              b \<leftarrow> put_struct (hdr + rt_it_len rt) (le_bytes 2 (ucast len :: u16)) b;
              put_struct (hdr + rt_it_present rt) (le_bytes 4 present) b })"

section \<open>Reception\<close>

text \<open>The variables the three pointers refer to; \<^verbatim>\<open>tsft\<close> may be a null pointer.\<close>

record radiotap_values =
  rv_rssi :: int
  rv_flags :: u8
  rv_tsft :: "u64 option"

definition radiotap_field ::
  "'it radiotap_lib \<Rightarrow> 'it \<Rightarrow> radiotap_values \<Rightarrow> radiotap_values option" where
  "radiotap_field rt iter vs =
     (if \<not> rt_is_radiotap_ns rt iter then Some vs
      else if rt_this_arg_index rt iter = RADIOTAP_TSFT rt then
        (case rv_tsft vs of None \<Rightarrow> Some vs
         | Some _ \<Rightarrow> do { bs \<leftarrow> mem_load (rt_this_arg rt iter) 0 8;
                          Some (vs\<lparr>rv_tsft := Some (of_le_bytes bs)\<rparr>) })
      else if rt_this_arg_index rt iter = RADIOTAP_FLAGS rt then
        do { bs \<leftarrow> mem_load (rt_this_arg rt iter) 0 1; Some (vs\<lparr>rv_flags := hd bs\<rparr>) }
      else if rt_this_arg_index rt iter = RADIOTAP_DBM_ANTSIGNAL rt then
        do { bs \<leftarrow> mem_load (rt_this_arg rt iter) 0 1; Some (vs\<lparr>rv_rssi := c_schar (uint (hd bs))\<rparr>) }
      else Some vs)"

partial_function (option) radiotap_loop ::
  "'it radiotap_lib \<Rightarrow> 'it \<Rightarrow> radiotap_values \<Rightarrow> (int \<times> radiotap_values) option" where
  "radiotap_loop rt iter vs =
     (if fst (rt_iterator_next rt iter) = 0
      then (case radiotap_field rt (snd (rt_iterator_next rt iter)) vs of None \<Rightarrow> None
            | Some vs' \<Rightarrow> radiotap_loop rt (snd (rt_iterator_next rt iter)) vs')
      else Some (fst (rt_iterator_next rt iter), vs))"

abbreviation (input) ENOENT :: int where "ENOENT \<equiv> 2"

text \<open>The results of the reception, from \<^verbatim>\<open>enum RX_RESULT\<close> of \<^verbatim>\<open>rx.h\<close>.\<close>

datatype rx_result =
    RX_IGNORE_SYNC_OUTSIDE_DW | RX_IGNORE_OUI | RX_IGNORE_PEER | RX_IGNORE_RSSI
  | RX_IGNORE_FAILED_CRC | RX_IGNORE_NOPROMISC | RX_IGNORE_FROM_SELF | RX_IGNORE | RX_OK
  | RX_TOO_SHORT | RX_UNEXPECTED_FORMAT | RX_UNEXPECTED_TYPE | RX_UNEXPECTED_VALUE
  | RX_MISSING_MANDATORY_ATTRIBUTE | RX_ATTRIBUTE_NOT_FOUND | RX_OTHER_ERROR

primrec rx_result_val :: "rx_result \<Rightarrow> int" where
  "rx_result_val RX_IGNORE_SYNC_OUTSIDE_DW = 8"
| "rx_result_val RX_IGNORE_OUI = 7"
| "rx_result_val RX_IGNORE_PEER = 6"
| "rx_result_val RX_IGNORE_RSSI = 5"
| "rx_result_val RX_IGNORE_FAILED_CRC = 4"
| "rx_result_val RX_IGNORE_NOPROMISC = 3"
| "rx_result_val RX_IGNORE_FROM_SELF = 2"
| "rx_result_val RX_IGNORE = 1"
| "rx_result_val RX_OK = 0"
| "rx_result_val RX_TOO_SHORT = - 1"
| "rx_result_val RX_UNEXPECTED_FORMAT = - 2"
| "rx_result_val RX_UNEXPECTED_TYPE = - 3"
| "rx_result_val RX_UNEXPECTED_VALUE = - 4"
| "rx_result_val RX_MISSING_MANDATORY_ATTRIBUTE = - 5"
| "rx_result_val RX_ATTRIBUTE_NOT_FOUND = - 6"
| "rx_result_val RX_OTHER_ERROR = - 7"

text \<open>\<^verbatim>\<open>le16toh(header->it_len)\<close> is read through the pointer to the start of the frame.\<close>

definition ieee80211_parse_radiotap_header ::
  "'it radiotap_lib \<Rightarrow> buf \<Rightarrow> radiotap_values \<Rightarrow> (int \<times> radiotap_values \<times> buf) option" where
  "ieee80211_parse_radiotap_header rt frame vs =
     (let header = unat (buf_current frame);
          (err, iter) = rt_iterator_init rt (drop header (bdata frame)) (buf_rest frame)
      in if err < 0 then Some (rx_result_val RX_UNEXPECTED_FORMAT, vs, frame)
         else do { (err, vs) \<leftarrow> radiotap_loop rt iter vs;
                   if err \<noteq> - ENOENT then Some (rx_result_val RX_UNEXPECTED_FORMAT, vs, frame)
                   else do { bs \<leftarrow> mem_load (bdata frame) (header + rt_it_len rt) 2;
                             let (r, frame) = buf_advance frame (ucast (of_le_bytes bs :: u16));
                             Some (if r < 0 then rx_result_val RX_TOO_SHORT else rx_result_val RX_OK,
                                   vs, frame) } })"

definition ieee80211_parse_fcs :: "'it radiotap_lib \<Rightarrow> buf \<Rightarrow> u8 \<Rightarrow> int \<times> buf" where
  "ieee80211_parse_fcs rt frame radiotap_flags =
     (if radiotap_flags AND RADIOTAP_F_BADFCS rt \<noteq> 0 then (- 1, frame)
      else if radiotap_flags AND RADIOTAP_F_FCS rt \<noteq> 0 then buf_take frame 4
      else (0, frame))"

text \<open>The sequence covers everything from \<^verbatim>\<open>buf_data\<close> on, \<^verbatim>\<open>buf_position\<close> bytes.\<close>

definition ieee80211_add_fcs :: "buf \<Rightarrow> buf option" where
  "ieee80211_add_fcs b =
     do { bs \<leftarrow> mem_load (bdata b) (nat (buf_data b)) (unat (buf_position b));
          (_, b) \<leftarrow> write_le32 b (crc32 bs);
          Some b }"

section \<open>Layout facts\<close>

lemma length_ieee80211_hdr_bytes [simp]: "length (ieee80211_hdr_bytes h) = 24"
  by (simp add: ieee80211_hdr_bytes_def)

lemma ieee80211_hdr_roundtrip: "ieee80211_hdr_of (ieee80211_hdr_bytes h @ rest) = h"
proof -
  have parts: "take 2 (ieee80211_hdr_bytes h @ rest) = le_bytes 2 (hdr_frame_control h)"
    "take 2 (drop 2 (ieee80211_hdr_bytes h @ rest)) = le_bytes 2 (hdr_duration_id h)"
    "take 6 (drop 4 (ieee80211_hdr_bytes h @ rest)) = ether_addr_octet (hdr_addr1 h)"
    "take 6 (drop 10 (ieee80211_hdr_bytes h @ rest)) = ether_addr_octet (hdr_addr2 h)"
    "take 6 (drop 16 (ieee80211_hdr_bytes h @ rest)) = ether_addr_octet (hdr_addr3 h)"
    "take 2 (drop 22 (ieee80211_hdr_bytes h @ rest)) = le_bytes 2 (hdr_seq_ctrl h)"
    by (simp_all add: ieee80211_hdr_bytes_def del: le_bytes_numeral)
  show ?thesis
    unfolding ieee80211_hdr_of_def parts by (cases h) (simp add: byte_simps del: le_bytes_numeral)
qed

lemma put_struct_wf:
  assumes wf: "wf_buf b" and i: "i + length bs \<le> unat (bcurrent b) + room b"
  shows "\<exists>b'. put_struct i bs b = Some b' \<and> wf_buf b' \<and> bcurrent b' = bcurrent b \<and> bend b' = bend b
    \<and> berror b' = berror b \<and> room b' = room b \<and> bstart b' = bstart b
    \<and> bdata b' = take i (bdata b) @ bs @ drop (i + length bs) (bdata b)"
proof -
  have len: "i + length bs \<le> length (bdata b)" using wf_buf_cursor [OF wf] i by simp
  let ?b' = "b\<lparr>bdata := take i (bdata b) @ bs @ drop (i + length bs) (bdata b)\<rparr>"
  have "put_struct i bs b = Some ?b'" using len by (simp add: put_struct_def mem_store_def)
  moreover have "wf_buf ?b'" using wf len by (auto simp: wf_buf_def)
  ultimately show ?thesis by (simp add: room_def)
qed

end
