(* ===== verification/Nan_State.thy ===== *)
theory Nan_State
  imports Nan_Circular_Buffer Nan_Cluster Nan_Timer Nan_Sync Nan_Service Nan_Ieee80211
begin

text \<open>
  The state of a device, \<^verbatim>\<open>src/src/state.h\<close> and \<^verbatim>\<open>src/src/state.c\<close>: one record of the
  components' states. What the state reaches through pointers (the peers, listeners, services
  and queued frames) and the generator of random numbers are the record \<open>nan_memory\<close>.
\<close>

abbreviation (input) HOST_NAME_LENGTH_MAX :: nat where "HOST_NAME_LENGTH_MAX \<equiv> 64"

record nan_state =
  st_hostname :: "u8 list"
  st_self_address :: ether_addr
  st_interface_address :: ether_addr
  st_buffer :: circular_buf
  st_channel :: nan_channel_state
  st_peers :: nan_peer_state
  st_timer :: nan_timer_state
  st_cluster :: nan_cluster_state
  st_sync :: nan_sync_state
  st_events :: nan_event_state
  st_services :: nan_service_state
  st_ieee80211 :: ieee80211_state

record nan_memory =
  mm_peers :: peer_heap
  mm_listeners :: listener_heap
  mm_services :: service_heap
  mm_frames :: "buf store"
  mm_rng :: rng

text \<open>
  \<open>strncpy(dst, src, n)\<close>: the first \<open>n\<close> bytes of the source, filled up with zeros. A source of
  \<open>n\<close> bytes or more leaves no terminating zero.
\<close>

definition strncpy :: "u8 list \<Rightarrow> u8 list \<Rightarrow> nat \<Rightarrow> u8 list option" where
  "strncpy dst src n = mem_store dst 0 (take n src @ replicate (n - length src) 0)"

text \<open>\<open>cb\<close> and \<open>array\<close> are what \<^verbatim>\<open>malloc\<close> returned for the ring buffer.\<close>

definition init_nan_state ::
  "ptr list \<Rightarrow> circular_buf \<Rightarrow> nan_state \<Rightarrow> rng \<Rightarrow> u8 list \<Rightarrow> ether_addr \<Rightarrow> int \<Rightarrow> u64
   \<Rightarrow> (nan_state \<times> rng) option" where
  "init_nan_state array cb state r hostname addr channel now_usec =
     do { name \<leftarrow> strncpy (st_hostname state) hostname HOST_NAME_LENGTH_MAX;
          let state = state\<lparr>st_hostname := name, st_self_address := addr, st_interface_address := addr,
                        st_buffer := circular_buf_init array cb 16,
                        st_channel := nan_channel_state_init (st_channel state) channel\<rparr>;
          (cluster, r) \<leftarrow> nan_cluster_state_init (st_cluster state) r;
          Some (state\<lparr>st_cluster := cluster,
                  st_sync := nan_sync_state_init addr,
                  st_peers := nan_peer_state_init (st_peers state),
                  st_timer := nan_timer_state_init (st_timer state) now_usec,
                  st_events := nan_event_state_init (st_events state),
                  st_services := nan_service_state_init (st_services state),
                  st_ieee80211 := ieee80211_init_state (st_ieee80211 state)\<rparr>, r) }"

section \<open>Well-formed states\<close>

definition state_ok :: "nan_state \<Rightarrow> nan_memory \<Rightarrow> bool" where
  "state_ok state mem \<longleftrightarrow> peers_ok (st_peers state) (mm_peers mem)
     \<and> listeners_ok (st_events state) (mm_listeners mem)
     \<and> services_ok (st_services state) (mm_services mem)
     \<and> sync_inv (st_sync state)"

end
