(* ===== verification/Nan_Rx.thy ===== *)
theory Nan_Rx
  imports Nan_State
begin

text \<open>
  The reception of frames, \<^verbatim>\<open>src/src/rx.c\<close>: the attributes of a frame are read one after the
  other, each is parsed from a buffer of its own, and what was parsed updates the peers, the
  synchronisation, the cluster and the services. Every function is total over any bytes; a
  result \<^const>\<open>None\<close> is an access outside the memory of the frame or a loop without end.
\<close>

section \<open>Results\<close>

definition nan_rx_result_to_string :: "int \<Rightarrow> string" where
  "nan_rx_result_to_string r =
     (if r = rx_result_val RX_IGNORE_SYNC_OUTSIDE_DW then ''ignore sync beacon outside dw''
      else if r = rx_result_val RX_IGNORE_OUI then ''ignore oui''
      else if r = rx_result_val RX_IGNORE_PEER then ''ignore peer''
      else if r = rx_result_val RX_IGNORE_RSSI then ''ignore rssi''
      else if r = rx_result_val RX_IGNORE_FAILED_CRC then ''ignore failed crc''
      else if r = rx_result_val RX_IGNORE_NOPROMISC then ''ignore nopromisc''
      else if r = rx_result_val RX_IGNORE_FROM_SELF then ''ignore from self''
      else if r = rx_result_val RX_IGNORE then ''ignore''
      else if r = rx_result_val RX_OK then ''ok''
      else if r = rx_result_val RX_UNEXPECTED_FORMAT then ''unexpected format''
      else if r = rx_result_val RX_UNEXPECTED_TYPE then ''unexpected type''
      else if r = rx_result_val RX_UNEXPECTED_VALUE then ''unexpected value''
      else if r = rx_result_val RX_TOO_SHORT then ''too short''
      else if r = rx_result_val RX_MISSING_MANDATORY_ATTRIBUTE then ''missing mandatory attribute''
      else ''unknown result'')"

text \<open>What variables and allocated memory hold before they are assigned.\<close>

record rx_junk =
  rj_u8 :: u8
  rj_u16 :: u16
  rj_u32 :: u32
  rj_u64 :: u64
  rj_oui :: "u8 list"
  rj_mem :: "nat \<Rightarrow> u8"
  rj_peer :: nan_peer
  rj_sda :: nan_service_descriptor_attribute
  rj_sdea :: nan_service_descriptor_extension_attribute
  rj_rssi :: int
  rj_flags :: u8

section \<open>Attributes of beacons\<close>

definition nan_parse_master_indication_attribute ::
  "rx_junk \<Rightarrow> buf \<Rightarrow> nan_peer \<Rightarrow> (int \<times> buf \<times> nan_peer) option" where
  "nan_parse_master_indication_attribute j b peer =
     do { (_, master_preference, b) \<leftarrow> read_u8 b (rj_u8 j);
          (_, random_factor, b) \<leftarrow> read_u8 b (rj_u8 j);
          if buf_error b \<noteq> 0 then Some (rx_result_val RX_TOO_SHORT, b, peer)
          else Some (rx_result_val RX_OK, b,
                     nan_peer_set_master_indication peer master_preference random_factor) }"

definition nan_parse_cluster_attribute ::
  "rx_junk \<Rightarrow> buf \<Rightarrow> nan_peer \<Rightarrow> (int \<times> buf \<times> nan_peer) option" where
  "nan_parse_cluster_attribute j b peer =
     do { (_, anchor_master_rank, b) \<leftarrow> read_le64 b (rj_u64 j);
          (_, hop_count, b) \<leftarrow> read_u8 b (rj_u8 j);
          (_, ambtt, b) \<leftarrow> read_le32 b (rj_u32 j);
          if buf_error b \<noteq> 0 then Some (rx_result_val RX_TOO_SHORT, b, peer)
          else Some (rx_result_val RX_OK, b,
                     nan_peer_set_anchor_master_information peer anchor_master_rank ambtt hop_count) }"

section \<open>Attributes of service discovery frames\<close>

text \<open>A field of one byte that tells how many bytes to skip.\<close>

definition skip_counted :: "rx_junk \<Rightarrow> buf \<Rightarrow> buf option" where
  "skip_counted j b =
     do { (_, len, b) \<leftarrow> read_u8 b (rj_u8 j); Some (snd (buf_advance b (ucast len))) }"

definition nan_parse_sda ::
  "rx_junk \<Rightarrow> buf \<Rightarrow> nan_service_descriptor_attribute list
   \<Rightarrow> (int \<times> buf \<times> nan_service_descriptor_attribute list) option" where
  "nan_parse_sda j b service_descriptors =
     (let a = rj_sda j in
      do { (_, sid, b) \<leftarrow> read_bytes_copy b (sda_service_id a) (of_nat NAN_SERVICE_ID_LENGTH);
           (_, i, b) \<leftarrow> read_u8 b (sda_instance_id a);
           (_, r, b) \<leftarrow> read_u8 b (sda_requestor_instance_id a);
           (_, c, b) \<leftarrow> read_u8 b (sda_control a);
           let a = a\<lparr>sda_service_id := sid, sda_instance_id := i, sda_requestor_instance_id := r,
                     sda_control := c\<rparr>;
           let b = (if sdc_binding_bitmap_present c then snd (buf_advance b 2) else b);
           b \<leftarrow> (if sdc_matching_filter_present c then skip_counted j b else Some b);
           b \<leftarrow> (if sdc_service_response_filter_present c then skip_counted j b else Some b);
           (a, b) \<leftarrow> (if sdc_service_info_present c
                     then do { (_, n, b) \<leftarrow> read_u8 b (sda_service_info_length a);
                               (_, info, b) \<leftarrow> read_bytes_copy b (map (rj_mem j) [0..<unat n]) (ucast n);
                               Some (a\<lparr>sda_service_info_length := n, sda_service_info := info\<rparr>, b) }
                     else Some (a, b));
           if buf_error b \<noteq> 0 then Some (rx_result_val RX_TOO_SHORT, b, service_descriptors)
           else Some (rx_result_val RX_OK, b, service_descriptors @ [a]) })"

text \<open>The length is 16 bits; \<^verbatim>\<open>length - 4\<close> is an \<^verbatim>\<open>int\<close> that is converted to \<^verbatim>\<open>size_t\<close>.\<close>

definition nan_parse_sdea ::
  "rx_junk \<Rightarrow> buf \<Rightarrow> size_t \<Rightarrow> nan_service_descriptor_extension_attribute list
   \<Rightarrow> (int \<times> buf \<times> nan_service_descriptor_extension_attribute list) option" where
  "nan_parse_sdea j b len service_descriptor_extensions =
     (let a = rj_sdea j in
      do { (_, i, b) \<leftarrow> read_u8 b (sdea_instance_id a);
           (_, c, b) \<leftarrow> read_le16 b (sdea_control a);
           let a = a\<lparr>sdea_instance_id := i, sdea_control := c\<rparr>;
           let b = (if sdec_range_limit_present c then snd (buf_advance b 4) else b);
           (a, b) \<leftarrow> (if sdec_service_update_indicator_present c
                     then do { (_, u, b) \<leftarrow> read_u8 b (sdea_service_update_indicator a);
                               Some (a\<lparr>sdea_service_update_indicator := u\<rparr>, b) }
                     else Some (a, b));
           (a, b) \<leftarrow> (if buf_position b + 2 < len
                     then do { (_, n, b) \<leftarrow> read_le16 b (rj_u16 j);
                               (_, oui, b) \<leftarrow> read_bytes_copy b (sdea_oui a) (of_nat OUI_LEN);
                               let b = snd (buf_advance b 1);
                               let info_length = word_of_int (uint n - 4);
                               let (_, info, b) = read_bytes b (sdea_service_specific_info a) info_length;
                               Some (a\<lparr>sdea_oui := oui, sdea_service_specific_info_length := info_length,
                                       sdea_service_specific_info := info\<rparr>, b) }
                     else Some (a, b));
           if buf_error b \<noteq> 0 then Some (rx_result_val RX_TOO_SHORT, b, service_descriptor_extensions)
           else Some (rx_result_val RX_OK, b, service_descriptor_extensions @ [a]) })"

section \<open>Iterating over attributes\<close>

text \<open>\<open>aid\<close>, \<open>alen\<close> and \<open>data\<close> are the variables the pointers refer to.\<close>

definition nan_attribute_read_next ::
  "buf \<Rightarrow> u8 \<Rightarrow> u16 \<Rightarrow> size_t \<Rightarrow> (int \<times> u8 \<times> u16 \<times> size_t \<times> buf) option" where
  "nan_attribute_read_next frame aid alen data =
     do { (_, aid, frame) \<leftarrow> read_u8 frame aid;
          (_, alen, frame) \<leftarrow> read_le16 frame alen;
          let (_, data, frame) = read_bytes frame data (ucast alen);
          Some (if buf_error frame < 0 then rx_result_val RX_TOO_SHORT else 3 + uint alen,
                aid, alen, data, frame) }"

text \<open>
  The loop of \<^verbatim>\<open>NAN_ITERATE_ATTRIBUTES\<close>; the buffer of an attribute is the frame's memory
  from the start of the attribute's data on, with the attribute's length.
\<close>

partial_function (option) nan_iterate_loop ::
  "(u8 \<Rightarrow> u16 \<Rightarrow> buf \<Rightarrow> 's \<Rightarrow> (int \<times> 's) option) \<Rightarrow> buf \<Rightarrow> u8 \<Rightarrow> u16 \<Rightarrow> size_t \<Rightarrow> int \<Rightarrow> 's
   \<Rightarrow> (int \<times> buf \<times> 's) option" where
  "nan_iterate_loop handle frame aid alen data result s =
     (case nan_attribute_read_next frame aid alen data of None \<Rightarrow> None
      | Some (len, aid', alen', data', frame') \<Rightarrow>
          if 0 < len
          then (case handle aid' alen' (buf_new_const (drop (unat data') (bdata frame')) (ucast alen')) s of
                  None \<Rightarrow> None
                | Some (result', s') \<Rightarrow>
                    if result' < 0 then Some (result', frame', s')
                    else nan_iterate_loop handle frame' aid' alen' data' result' s')
          else Some (result, frame', s))"

definition NAN_ITERATE_ATTRIBUTES ::
  "(u8 \<Rightarrow> u16 \<Rightarrow> buf \<Rightarrow> 's \<Rightarrow> (int \<times> 's) option) \<Rightarrow> rx_junk \<Rightarrow> buf \<Rightarrow> int \<Rightarrow> 's \<Rightarrow> (int \<times> buf \<times> 's) option" where
  "NAN_ITERATE_ATTRIBUTES handle j frame result s =
     do { (result, frame, s) \<leftarrow> nan_iterate_loop handle frame (rj_u8 j) (rj_u16 j) (rj_u64 j) result s;
          if result < 0 then Some (result, frame, s)
          else if buf_rest frame > 0 then Some (rx_result_val RX_UNEXPECTED_FORMAT, frame, s)
          else Some (rx_result_val RX_OK, frame, s) }"

section \<open>Beacons\<close>

definition nan_parse_beacon_header ::
  "rx_junk \<Rightarrow> buf \<Rightarrow> int \<Rightarrow> u64 \<Rightarrow> (int \<times> int \<times> u64 \<times> buf) option" where
  "nan_parse_beacon_header j frame beacon_type timestamp =
     do { (_, timestamp, frame) \<leftarrow> read_le64 frame timestamp;
          (_, beacon_interval, frame) \<leftarrow> read_le16 frame (rj_u16 j);
          (_, capability, frame) \<leftarrow> read_le16 frame (rj_u16 j);
          (_, element_id, frame) \<leftarrow> read_u8 frame (rj_u8 j);
          (_, len, frame) \<leftarrow> read_u8 frame (rj_u8 j);
          (_, oui, frame) \<leftarrow> read_bytes_copy frame (rj_oui j) (of_nat OUI_LEN);
          (_, oui_type, frame) \<leftarrow> read_u8 frame (rj_u8 j);
          if buf_error frame \<noteq> 0 then Some (rx_result_val RX_TOO_SHORT, beacon_type, timestamp, frame)
          else if \<not> oui_equal (oui_of oui) NAN_OUI \<or> oui_type \<noteq> NAN_OUI_TYPE_BEACON
          then Some (rx_result_val RX_IGNORE_OUI, beacon_type, timestamp, frame)
          else let beacon_type = nan_get_beacon_type beacon_interval
               in if beacon_type < 0
                  then Some (rx_result_val RX_UNEXPECTED_TYPE, beacon_type, timestamp, frame)
                  else Some (rx_result_val RX_OK, beacon_type, timestamp, frame) }"

text \<open>The handler of the attributes of a beacon; the state is the peer.\<close>

definition beacon_attribute ::
  "rx_junk \<Rightarrow> u8 \<Rightarrow> u16 \<Rightarrow> buf \<Rightarrow> nan_peer \<Rightarrow> (int \<times> nan_peer) option" where
  "beacon_attribute j aid alen attribute_buf peer =
     (if aid = attribute_type_val MASTER_INDICATION_ATTRIBUTE
      then do { (r, _, peer) \<leftarrow> nan_parse_master_indication_attribute j attribute_buf peer; Some (r, peer) }
      else if aid = attribute_type_val CLUSTER_ATTRIBUTE
      then do { (r, _, peer) \<leftarrow> nan_parse_cluster_attribute j attribute_buf peer; Some (r, peer) }
      else Some (rx_result_val RX_IGNORE, peer))"

text \<open>The last part: joining a cluster, or following the anchor master of the own one.\<close>

definition rx_beacon_cluster ::
  "nan_state \<Rightarrow> nan_peer \<Rightarrow> peer_status \<Rightarrow> ether_addr \<Rightarrow> int \<Rightarrow> u64 \<Rightarrow> u64 \<Rightarrow> nan_state option" where
  "rx_beacon_cluster state peer peer_status new_cluster_id beacon_type timestamp now_usec =
     (let is_new_cluster = \<not> ether_addr_equal new_cluster_id (cluster_id (st_cluster state));
          in_initial_cluster = length (peers (st_peers state)) = 1 \<and> peer_status = PEER_ADD
      in if is_new_cluster \<or> in_initial_cluster then
           let synced_time_usec = nan_timer_get_synced_time_usec (st_timer state) now_usec;
               result = nan_cluster_compare_grade (sy_master_preference (st_sync state)) synced_time_usec
                          (pe_master_preference peer) timestamp
           in if result > 0
              then do { timer \<leftarrow> nan_timer_sync_time (st_timer state) now_usec timestamp;
                        Some (state\<lparr>st_cluster := (st_cluster state)\<lparr>cluster_id := new_cluster_id\<rparr>,
                                    st_timer := timer\<rparr>) }
              else Some state
         else if beacon_type = beacon_type_val NAN_SYNC_BEACON then
           let last_anchor_master = sy_anchor_master_rank (st_sync state);
               synced_time_tu = nan_timer_get_synced_time_tu (st_timer state) now_usec;
               state = state\<lparr>st_sync := nan_anchor_master_selection (st_sync state) peer synced_time_tu\<rparr>
           in if sy_anchor_master_rank (st_sync state) \<noteq> last_anchor_master
              then do { timer \<leftarrow> nan_timer_sync_time (st_timer state) now_usec timestamp;
                        Some (state\<lparr>st_timer := timer\<rparr>) }
              else if \<not> nan_is_anchor_master_self (st_sync state)
              then do { timer \<leftarrow> nan_timer_sync_error (st_timer state) now_usec timestamp;
                        Some (state\<lparr>st_timer := timer\<rparr>) }
              else Some state
         else Some state)"

text \<open>
  A beacon. The result has the state, the memory and the calls of the peer callbacks. The
  peer is written back whenever the function leaves its attributes.
\<close>

definition nan_rx_beacon ::
  "rx_junk \<Rightarrow> buf \<Rightarrow> nan_state \<Rightarrow> nan_memory \<Rightarrow> ether_addr \<Rightarrow> ether_addr \<Rightarrow> int \<Rightarrow> u64
   \<Rightarrow> (int \<times> buf \<times> nan_state \<times> nan_memory \<times> peer_call list) option" where
  "nan_rx_beacon j frame state mem peer_address new_cluster_id rssi now_usec =
     do { (result, beacon_type, timestamp, frame) \<leftarrow> nan_parse_beacon_header j frame 0 0;
          if result \<noteq> rx_result_val RX_OK then Some (result, frame, state, mem, []) else
          do { (peer_status, ps, ph, calls) \<leftarrow>
                 nan_peer_add (rj_peer j) (st_peers state) (mm_peers mem) peer_address new_cluster_id now_usec;
               let state = state\<lparr>st_peers := ps\<rparr>;
               let mem = mem\<lparr>mm_peers := ph\<rparr>;
               if peer_status = PEER_MISSING \<or> peer_status = PEER_INTERNAL
               then Some (rx_result_val RX_IGNORE, frame, state, mem, calls) else
               do { (_, peer) \<leftarrow> nan_peer_get (st_peers state) (mm_peers mem) peer_address;
                    if peer = NULL then Some (rx_result_val RX_IGNORE, frame, state, mem, calls) else
                    do { let state = (if \<not> nan_timer_initial_scan_done (st_timer state) now_usec
                                      then state\<lparr>st_timer := nan_timer_initial_scan_cancel (st_timer state)\<rparr>
                                      else state);
                         v \<leftarrow> cells (mm_peers mem) peer;
                         (result, frame, v) \<leftarrow> NAN_ITERATE_ATTRIBUTES (beacon_attribute j) j frame result v;
                         ph \<leftarrow> store_put peer v (mm_peers mem);
                         let mem = mem\<lparr>mm_peers := ph\<rparr>;
                         if result < 0 then Some (result, frame, state, mem, calls) else
                         do { v \<leftarrow> nan_peer_set_beacon_information v rssi timestamp;
                              (_, sync, r) \<leftarrow> nan_update_master_preference (st_sync state) v now_usec (mm_rng mem);
                              let state = state\<lparr>st_sync := sync\<rparr>;
                              let v = nan_check_master_candidate sync v;
                              ph \<leftarrow> store_put peer v (mm_peers mem);
                              let mem = mem\<lparr>mm_peers := ph, mm_rng := r\<rparr>;
                              state \<leftarrow> rx_beacon_cluster state v peer_status new_cluster_id beacon_type
                                        timestamp now_usec;
                              Some (rx_result_val RX_OK, frame, state, mem, calls) } } } } }"

section \<open>Service discovery and action frames\<close>

text \<open>The state of the iteration: the two lists of what was parsed.\<close>

type_synonym descriptors =
  "nan_service_descriptor_attribute list \<times> nan_service_descriptor_extension_attribute list"

definition service_discovery_attribute ::
  "rx_junk \<Rightarrow> u8 \<Rightarrow> u16 \<Rightarrow> buf \<Rightarrow> descriptors \<Rightarrow> (int \<times> descriptors) option" where
  "service_discovery_attribute j aid alen attribute_buf ds =
     (if aid = attribute_type_val SERVICE_DESCRIPTOR_ATTRIBUTE
      then do { (r, _, sdas) \<leftarrow> nan_parse_sda j attribute_buf (fst ds); Some (r, sdas, snd ds) }
      else if aid = attribute_type_val SERVICE_DESCRIPTOR_EXTENSION_ATTRIBUTE
      then do { (r, _, sdeas) \<leftarrow> nan_parse_sdea j attribute_buf (ucast alen) (snd ds); Some (r, fst ds, sdeas) }
      else Some (rx_result_val RX_IGNORE, ds))"

text \<open>
  What calling a listener does to the device. Listeners are functions that the user of the
  library provides, so the reception gets this as an argument, \<open>listen\<close>.
\<close>

type_synonym listen =
  "nan_event_data listener_call \<Rightarrow> nan_state \<Rightarrow> nan_memory \<Rightarrow> (nan_state \<times> nan_memory) option"

fun call_listeners ::
  "listen \<Rightarrow> nan_event_data listener_call list \<Rightarrow> nan_state \<Rightarrow> nan_memory \<Rightarrow> (nan_state \<times> nan_memory) option" where
  "call_listeners listen [] state mem = Some (state, mem)"
| "call_listeners listen (call # calls) state mem =
     do { (state, mem) \<leftarrow> listen call state mem; call_listeners listen calls state mem }"

text \<open>
  The loop over the descriptors; dispatching the event of a descriptor is the last thing that
  handling it does. The calls are also collected.
\<close>

fun handle_descriptors ::
  "listen \<Rightarrow> nan_state \<Rightarrow> nan_memory \<Rightarrow> ptr \<Rightarrow> ether_addr \<Rightarrow> nan_service_descriptor_attribute list
   \<Rightarrow> (nan_state \<times> nan_memory \<times> nan_event_data listener_call list) option" where
  "handle_descriptors listen state mem peer destination [] = Some (state, mem, [])"
| "handle_descriptors listen state mem peer destination (sd # sds) =
     do { v \<leftarrow> cells (mm_peers mem) peer;
          (sh, calls) \<leftarrow> nan_handle_received_service_discovery (st_services state) (mm_services mem)
             (st_events state) (mm_listeners mem) (st_interface_address state) (pe_addr v) destination sd;
          (state, mem) \<leftarrow> call_listeners listen calls state (mem\<lparr>mm_services := sh\<rparr>);
          (state, mem, more) \<leftarrow> handle_descriptors listen state mem peer destination sds;
          Some (state, mem, calls @ more) }"

definition nan_rx_service_discovery ::
  "listen \<Rightarrow> rx_junk \<Rightarrow> buf \<Rightarrow> nan_state \<Rightarrow> nan_memory \<Rightarrow> ether_addr \<Rightarrow> ptr
   \<Rightarrow> (int \<times> buf \<times> nan_state \<times> nan_memory \<times> nan_event_data listener_call list) option" where
  "nan_rx_service_discovery listen j frame state mem destination_address peer =
     do { (result, frame, sdas, sdeas) \<leftarrow>
            NAN_ITERATE_ATTRIBUTES (service_discovery_attribute j) j frame 0 ([], []);
          if result < 0 then Some (result, frame, state, mem, [])
          else do { (state, mem, calls) \<leftarrow> handle_descriptors listen state mem peer destination_address sdas;
                    Some (result, frame, state, mem, calls) } }"

definition nan_rx_action ::
  "listen \<Rightarrow> rx_junk \<Rightarrow> buf \<Rightarrow> nan_state \<Rightarrow> nan_memory \<Rightarrow> ether_addr \<Rightarrow> ether_addr \<Rightarrow> ether_addr \<Rightarrow> u64
   \<Rightarrow> (int \<times> buf \<times> nan_state \<times> nan_memory \<times> peer_call list \<times> nan_event_data listener_call list) option" where
  "nan_rx_action listen j frame state mem source_address destination_address new_cluster_id now_usec =
     (if buf_rest frame < 7 then Some (rx_result_val RX_TOO_SHORT, frame, state, mem, [], [])
      else do { action_frame \<leftarrow> mem_load (bdata frame) (unat (buf_current frame)) 7;
                let oui = oui_of (take 3 (drop 2 action_frame));
                let oui_type = action_frame ! 5;
                if \<not> oui_equal oui NAN_OUI
                then Some (rx_result_val RX_IGNORE_OUI, frame, state, mem, [], []) else
                do { (status, ps, ph, calls) \<leftarrow>
                       nan_peer_add (rj_peer j) (st_peers state) (mm_peers mem) source_address new_cluster_id now_usec;
                     let state = state\<lparr>st_peers := ps\<rparr>;
                     let mem = mem\<lparr>mm_peers := ph\<rparr>;
                     if status = PEER_MISSING \<or> status = PEER_INTERNAL
                     then Some (rx_result_val RX_IGNORE, frame, state, mem, calls, []) else
                     do { (status, peer) \<leftarrow> nan_peer_get (st_peers state) (mm_peers mem) source_address;
                          if status = PEER_MISSING \<or> status = PEER_INTERNAL \<or> peer = NULL
                          then Some (rx_result_val RX_IGNORE, frame, state, mem, calls, [])
                          else if oui_type = NAN_OUT_TYPE_SERVICE_DISCOVERY then
                            do { let frame = snd (buf_advance frame 6);
                                 (r, frame, state, mem, events) \<leftarrow>
                                   nan_rx_service_discovery listen j frame state mem destination_address peer;
                                 Some (r, frame, state, mem, calls, events) }
                          else if oui_type \<noteq> NAN_OUI_TYPE_ACTION
                          then Some (rx_result_val RX_IGNORE, frame, state, mem, calls, [])
                          else Some (rx_result_val RX_OK, snd (buf_advance frame 7), state, mem, calls, []) } } })"

section \<open>Frames\<close>

text \<open>\<open>now_usec\<close> is what the clock shows when the function is called.\<close>

definition nan_rx ::
  "'it radiotap_lib \<Rightarrow> listen \<Rightarrow> rx_junk \<Rightarrow> buf \<Rightarrow> nan_state \<Rightarrow> nan_memory \<Rightarrow> u64
   \<Rightarrow> (int \<times> buf \<times> nan_state \<times> nan_memory \<times> peer_call list \<times> nan_event_data listener_call list) option" where
  "nan_rx rt listen j frame state mem now_usec =
     do { (r, vs, frame) \<leftarrow> ieee80211_parse_radiotap_header rt frame
            \<lparr>rv_rssi = rj_rssi j, rv_flags = rj_flags j, rv_tsft = None\<rparr>;
          if r < 0 then Some (rx_result_val RX_UNEXPECTED_FORMAT, frame, state, mem, [], []) else
          let (r, frame) = ieee80211_parse_fcs rt frame (rv_flags vs) in
          if r < 0 then Some (rx_result_val RX_IGNORE_FAILED_CRC, frame, state, mem, [], []) else
          if buf_rest frame < 24 then Some (rx_result_val RX_TOO_SHORT, frame, state, mem, [], []) else
          do { hb \<leftarrow> mem_load (bdata frame) (unat (buf_current frame)) 24;
               let hdr = ieee80211_hdr_of hb;
               let destination_address = hdr_addr1 hdr;
               let source_address = hdr_addr2 hdr;
               let new_cluster_id = hdr_addr3 hdr;
               let frame_control = hdr_frame_control hdr;
               if ether_addr_equal source_address (st_self_address state)
               then Some (rx_result_val RX_IGNORE_FROM_SELF, frame, state, mem, [], []) else
               let (r, frame) = buf_advance frame 24 in
               if r < 0 then Some (rx_result_val RX_TOO_SHORT, frame, state, mem, [], [])
               else if frame_control AND (IEEE80211_FCTL_FTYPE OR IEEE80211_FCTL_STYPE)
                       = IEEE80211_FTYPE_MGMT OR IEEE80211_STYPE_BEACON then
                 do { (r, frame, state, mem, calls) \<leftarrow>
                        nan_rx_beacon j frame state mem source_address new_cluster_id (rv_rssi vs) now_usec;
                      Some (r, frame, state, mem, calls, []) }
               else if frame_control AND (IEEE80211_FCTL_FTYPE OR IEEE80211_FCTL_STYPE)
                       = IEEE80211_FTYPE_MGMT OR IEEE80211_STYPE_ACTION then
                 nan_rx_action listen j frame state mem source_address destination_address new_cluster_id now_usec
               else Some (rx_result_val RX_UNEXPECTED_TYPE, frame, state, mem, [], []) } }"

end
