(* ===== verification/Nan_Log.thy ===== *)
theory Nan_Log
  imports Nan_Event
begin

text \<open>
  The log, \<^verbatim>\<open>src/src/log.c\<close>: its static state, the setters, and what writing a message does. The
  other components write messages through macros that pass the path of the source file; they
  ignore the result, and their models leave the messages out, except where writing one reads
  memory that may not be there or has no defined format.
\<close>

text \<open>Pointers (the lock function, its data, the file) are addresses.\<close>

record log_state =
  lg_udata :: ptr
  lg_lock :: ptr
  lg_fp :: ptr
  lg_level :: int
  lg_quiet :: int

abbreviation (input) LOG_EMERG :: int where "LOG_EMERG \<equiv> 0"
abbreviation (input) LOG_WARNING :: int where "LOG_WARNING \<equiv> 4"
abbreviation (input) LOG_INFO :: int where "LOG_INFO \<equiv> 6"
abbreviation (input) LOG_DEBUG :: int where "LOG_DEBUG \<equiv> 7"
abbreviation (input) LOG_TRACE :: int where "LOG_TRACE \<equiv> 8"

datatype log_output = Lock_Call ptr ptr int | Stderr string | File_Write ptr string

definition lock :: "log_state \<Rightarrow> log_output list" where
  "lock L = (if lg_lock L \<noteq> NULL then [Lock_Call (lg_lock L) (lg_udata L) 1] else [])"

definition unlock :: "log_state \<Rightarrow> log_output list" where
  "unlock L = (if lg_lock L \<noteq> NULL then [Lock_Call (lg_lock L) (lg_udata L) 0] else [])"

definition log_set_udata :: "ptr \<Rightarrow> log_state \<Rightarrow> log_state" where
  "log_set_udata udata L = L\<lparr>lg_udata := udata\<rparr>"

definition log_set_lock :: "ptr \<Rightarrow> log_state \<Rightarrow> log_state" where
  "log_set_lock fn L = L\<lparr>lg_lock := fn\<rparr>"

definition log_set_fp :: "ptr \<Rightarrow> log_state \<Rightarrow> log_state" where
  "log_set_fp fp L = L\<lparr>lg_fp := fp\<rparr>"

definition log_set_level :: "int \<Rightarrow> log_state \<Rightarrow> log_state" where
  "log_set_level level L = L\<lparr>lg_level := level\<rparr>"

definition log_increase_level :: "log_state \<Rightarrow> log_state" where
  "log_increase_level L = (if lg_level L < LOG_TRACE then L\<lparr>lg_level := lg_level L + 1\<rparr> else L)"

definition log_decrease_level :: "log_state \<Rightarrow> log_state" where
  "log_decrease_level L = (if lg_level L > LOG_EMERG then L\<lparr>lg_level := lg_level L - 1\<rparr> else L)"

definition log_set_quiet :: "int \<Rightarrow> log_state \<Rightarrow> log_state" where
  "log_set_quiet enable L = L\<lparr>lg_quiet := (if enable \<noteq> 0 then 1 else 0)\<rparr>"

section \<open>Messages\<close>

text \<open>\<^verbatim>\<open>strstr(s, t)\<close>: the rest of \<open>s\<close> from the first occurrence of \<open>t\<close> on, if there is one.\<close>

fun strstr_from :: "string \<Rightarrow> string \<Rightarrow> string option" where
  "strstr_from [] t = (if t = [] then Some [] else None)"
| "strstr_from (c # s) t = (if starts_with (c # s) t then Some (c # s) else strstr_from s t)"

definition level_names :: "string list" where
  "level_names = [''EMERG'', ''ALERT'', ''CRIT'', ''ERROR'', ''WARN'', ''NOTICE'', ''INFO'', ''DEBUG'', ''TRACE'']"

definition level_colors :: "string list" where
  "level_colors = map (\<lambda>s. CHR 0x1B # s) [''[31m'', ''[31m'', ''[31m'', ''[31m'', ''[31m'', ''[39m'', ''[34m'', ''[32m'', ''[35m'']"

text \<open>An entry of one of the tables; indexing outside them is undefined.\<close>

definition level_entry :: "string list \<Rightarrow> int \<Rightarrow> string option" where
  "level_entry names level = (if 0 \<le> level \<and> level < int (length names) then Some (names ! nat level) else None)"

text \<open>\<^verbatim>\<open>%-5s\<close> and \<^verbatim>\<open>%d\<close> of a number that is not negative.\<close>

definition pad_right :: "nat \<Rightarrow> string \<Rightarrow> string" where
  "pad_right n s = s @ replicate (n - length s) (CHR 0x20)"

fun decimal :: "nat \<Rightarrow> string" where
  "decimal n = (if n < 10 then [char_of (48 + n)] else decimal (n div 10) @ [char_of (48 + n mod 10)])"

declare decimal.simps [simp del]

text \<open>
  \<open>message\<close> is the formatted message, \<open>clock\<close> and \<open>date\<close> the local time in the two formats. When the
  path does not contain \<^verbatim>\<open>nan-linux\<close>, the code adds to a null pointer, which is undefined.
\<close>

definition log_log ::
  "log_state \<Rightarrow> int \<Rightarrow> string \<Rightarrow> nat \<Rightarrow> string \<Rightarrow> string \<Rightarrow> string \<Rightarrow> (int \<times> log_output list) option" where
  "log_log L level file line message clock date =
     (if level > lg_level L then Some (0, [])
      else do { found \<leftarrow> strstr_from file ''nan-linux'';
                let striped_file = drop (length ''nan-linux'') found;
                out1 \<leftarrow> (if lg_quiet L = 0
                  then do { color \<leftarrow> level_entry level_colors level;
                            name \<leftarrow> level_entry level_names level;
                            Some [Stderr (clock @ '' '' @ color @ pad_right 5 name @ CHR 0x1B # ''[0m '' @ CHR 0x1B # ''[90m''
                              @ striped_file @ '':'' @ decimal line @ '':'' @ CHR 0x1B # ''[0m ''),
                              Stderr message, Stderr [CHR 0x0A]] }
                  else Some []);
                out2 \<leftarrow> (if lg_fp L \<noteq> NULL
                  then do { name \<leftarrow> level_entry level_names level;
                            Some [File_Write (lg_fp L) (date @ '' '' @ pad_right 6 name @ '' '' @ file @ '':'' @ decimal line @ '': ''),
                              File_Write (lg_fp L) message, File_Write (lg_fp L) [CHR 0x0A]] }
                  else Some []);
                Some (1, lock L @ out1 @ out2 @ unlock L) })"

section \<open>When a message can be written\<close>

lemma starts_with_iff: "starts_with s t \<longleftrightarrow> (\<exists>vs. s = t @ vs)"
proof
  assume "starts_with s t"
  then have "s = t @ drop (length t) s"
    by (metis append_take_drop_id starts_with_prefix)
  then show "\<exists>vs. s = t @ vs" ..
qed (auto simp: starts_with_prefix)

lemma strstr_from_iff: "strstr_from s t \<noteq> None \<longleftrightarrow> (\<exists>us vs. s = us @ t @ vs)"
proof (induction s)
  case Nil
  then show ?case by simp
next
  case (Cons c s)
  have "(\<exists>us vs. c # s = us @ t @ vs) \<longleftrightarrow> (\<exists>vs. c # s = t @ vs) \<or> (\<exists>us vs. s = us @ t @ vs)"
    by (subst Cons_eq_append_conv) blast
  with Cons.IH show ?case
    by (simp add: starts_with_iff)
qed

text \<open>
  A message of one of the nine levels is written without undefined behaviour exactly when its
  level is too high to be written at all, or the path of the source contains \<^verbatim>\<open>nan-linux\<close>.
\<close>

lemma log_log_defined:
  assumes "0 \<le> level" "level \<le> LOG_TRACE"
  shows "log_log L level file line message clock date \<noteq> None
    \<longleftrightarrow> lg_level L < level \<or> (\<exists>us vs. file = us @ ''nan-linux'' @ vs)"
proof -
  obtain color name where entries: "level_entry level_colors level = Some color" "level_entry level_names level = Some name"
    using assms by (simp add: level_entry_def level_colors_def level_names_def)
  have "log_log L level file line message clock date \<noteq> None
      \<longleftrightarrow> lg_level L < level \<or> strstr_from file ''nan-linux'' \<noteq> None"
    by (cases "strstr_from file ''nan-linux''") (simp_all add: log_log_def entries Let_def)
  then show ?thesis
    by (simp only: strstr_from_iff)
qed

text \<open>Changing the level keeps it between the two ends.\<close>

lemma log_level_bounds:
  "LOG_EMERG \<le> lg_level L \<and> lg_level L \<le> LOG_TRACE \<Longrightarrow> LOG_EMERG \<le> lg_level (log_increase_level L) \<and> lg_level (log_increase_level L) \<le> LOG_TRACE"
  "LOG_EMERG \<le> lg_level L \<and> lg_level L \<le> LOG_TRACE \<Longrightarrow> LOG_EMERG \<le> lg_level (log_decrease_level L) \<and> lg_level (log_decrease_level L) \<le> LOG_TRACE"
  by (auto simp: log_increase_level_def log_decrease_level_def)

end
