(* ===== verification/Nan_Cmd_Print.thy ===== *)
theory Nan_Cmd_Print
  imports Nan_Rx Nan_Log
begin

text \<open>
  The commands of \<^verbatim>\<open>src/daemon/cmd.c\<close> that print the state of the device: the messages that
  each of them writes to the log, in order. A printed address is in a static buffer that the
  message is made from at once, so the text is that of the address. \<^const>\<open>None\<close> is a read
  outside an object.
\<close>

section \<open>Numbers and text\<close>

text \<open>The conversions \<^verbatim>\<open>%u\<close> and \<^verbatim>\<open>%lu\<close> of a word, and \<^verbatim>\<open>%d\<close> of a signed number.\<close>

definition unsigned_text :: "'a::len word \<Rightarrow> string" where
  "unsigned_text w = decimal (unat w)"

definition signed_text :: "int \<Rightarrow> string" where
  "signed_text i = (if i < 0 then CHR ''-'' # decimal (nat (- i)) else decimal (nat i))"

text \<open>
  \<^verbatim>\<open>%.*s\<close>: at most as many bytes as the argument before it says, up to a zero. That argument is
  a \<^verbatim>\<open>size_t\<close> where the conversion reads an \<^verbatim>\<open>int\<close>; a negative precision counts as none.
\<close>

definition limited_text :: "size_t \<Rightarrow> u8 list \<Rightarrow> string option" where
  "limited_text n info =
     (let precision = c_int (uint n);
          bs = (if 0 \<le> precision then take (nat precision) info else info)
      in if 0 \<in> set bs \<or> 0 \<le> precision \<and> nat precision \<le> length info
         then Some (map (\<lambda>b. char_of (unat b)) (takeWhile (\<lambda>b. b \<noteq> 0) bs)) else None)"

text \<open>\<^verbatim>\<open>log_info\<close> of some messages: those that the level lets through.\<close>

definition log_info :: "log_state \<Rightarrow> string list \<Rightarrow> string list" where
  "log_info L messages = (if LOG_INFO > lg_level L then [] else messages)"

section \<open>Help, device and synchronisation\<close>

definition nan_cmd_print_help :: "string list" where
  "nan_cmd_print_help =
    [''Available commands'',
     ''--------------------------------------------------------------------'',
     '' * help                                Prints this message'',
     '''',
     ''Info'',
     '' * device                              Prints current device state'',
     '' * sync                                Prints current sync state'',
     '' * peers                               Prints list of added peers'',
     '' * services [pub, sub]                 Prints list of PUBlished and/or SUBscribed services'',
     '''',
     ''Action'',
     '' * publish %service_name%            Publish a service with the given name'',
     '' * subscribe %service_name%          Subscribe for a service with the given name'',
     '' * set mp %value%                    Set the master preference'',
     '' * set rf %value%                    Set the random factor'',
     '''',
     ''Peer Action'',
     '' * peer %addr% rm                    Remove peer'',
     '''',
     ''Misc'',
     '' * v+                                  Increase log verbosity'',
     '' * v-                                  Decrease log verbosity'',
     ''--------------------------------------------------------------------'',
     ''Submit empty line to redo last command (not supported for actions)'',
     '''']"

definition nan_cmd_print_device_info :: "nan_state \<Rightarrow> string list" where
  "nan_cmd_print_device_info state =
    [''Device Info'',
     ''---------------------------------------------'',
     ''Interface address        '' @ ether_addr_text (st_self_address state),
     ''Cluster ID               '' @ ether_addr_text (cluster_id (st_cluster state)),
     '''']"

definition nan_cmd_print_sync_info :: "nan_state \<Rightarrow> u64 \<Rightarrow> string list" where
  "nan_cmd_print_sync_info state now_usec =
    (let synced_time_usec = nan_timer_get_synced_time_usec (st_timer state) now_usec;
         synced_time_tu = nan_timer_get_synced_time_tu (st_timer state) now_usec;
         next_dw_usec = nan_timer_next_dw_usec (st_timer state) now_usec;
         anchor_master_address = nan_get_anchor_master_address (st_sync state)
     in [''Sync'',
         ''---------------------------------------------'',
         ''Current Time (usec)      '' @ unsigned_text now_usec,
         ''Synced Time (usec)       '' @ unsigned_text synced_time_usec,
         ''Synced Time (tu)         '' @ unsigned_text synced_time_tu,
         ''Next DW (usec)           '' @ unsigned_text next_dw_usec,
         ''Next DW (tu)             '' @ unsigned_text (USEC_TO_TU next_dw_usec),
         '''',
         ''Role                     '' @ nan_role_to_string (sy_role (st_sync state)),
         ''Master Rank              '' @ unsigned_text (sy_master_rank (st_sync state)),
         ''Master Preference        '' @ unsigned_text (sy_master_preference (st_sync state)),
         ''Random Factor            '' @ unsigned_text (sy_random_factor (st_sync state)),
         '''',
         ''Anchor Master Address    '' @ ether_addr_text anchor_master_address,
         ''Anchor Master Rank       '' @ unsigned_text (sy_anchor_master_rank (st_sync state)),
         ''AMBTT                    '' @ unsigned_text (sy_ambtt (st_sync state)),
         ''Hop Count                '' @ unsigned_text (sy_hop_count (st_sync state)),
         '''',
         ''Last Anchor Master Rank  '' @ unsigned_text (sy_last_anchor_master_rank (st_sync state)),
         ''Last AMBTT               '' @ unsigned_text (sy_last_ambtt (st_sync state)),
         ''''])"

section \<open>Peers\<close>

text \<open>The body of the loop. The age of a peer is cut to an \<^verbatim>\<open>int\<close> and divided as one.\<close>

definition print_peer :: "u64 \<Rightarrow> nan_peer \<Rightarrow> string list" where
  "print_peer now_usec peer =
    (let last_update_tu = (word_of_int (c_int (uint (now_usec - pe_last_update peer)) sdiv 1024) :: u32);
         last_update_dw = last_update_tu div 512
     in [''Peer Address             '' @ ether_addr_text (pe_addr peer),
         ''Peer IPv6 Address        '' @ ipv6_addr_to_string (pe_ipv6_addr peer),
         ''Peer Cluster ID          '' @ ether_addr_text (pe_cluster_id peer),
         ''RSSI                     '' @ signed_text (pe_rssi_average peer),
         ''Last Update              '' @ unsigned_text last_update_tu @ '' tu ('' @ unsigned_text last_update_dw @ '' dw)'',
         ''Is master candidate?     '' @ (if pe_master_candidate peer then ''TRUE'' else ''FALSE''),
         '''',
         ''Master Rank              '' @ unsigned_text (nan_get_peer_master_rank peer),
         ''Master Preference        '' @ unsigned_text (pe_master_preference peer),
         ''Random Factor            '' @ unsigned_text (pe_random_factor peer),
         '''',
         ''Anchor Master Rank       '' @ unsigned_text (pe_anchor_master_rank peer),
         ''AMBTT                    '' @ unsigned_text (pe_ambtt peer),
         ''Hop count to AM          '' @ unsigned_text (pe_hop_count peer),
         '''',
         ''''])"

definition nan_cmd_print_peers_info :: "nan_state \<Rightarrow> nan_memory \<Rightarrow> u64 \<Rightarrow> string list option" where
  "nan_cmd_print_peers_info state mem now_usec =
    (let title = [''Peers'', ''---------------------------------------------'']
     in if length (peers (st_peers state)) = 0 then Some (title @ [''No peer(s) added.'', ''''])
        else LIST_FOR_EACH (\<lambda>p out. do { peer \<leftarrow> cells (mm_peers mem) p; Some (out @ print_peer now_usec peer) })
               (peers (st_peers state)) title)"

section \<open>Services\<close>

text \<open>The types are read from the bits of the structure, which may be no type at all.\<close>

definition publish_type_text :: "u32 \<Rightarrow> string" where
  "publish_type_text t =
     (case find (\<lambda>type. publish_type_val type = t) [PUBLISH_BOTH, PUBLISH_SOLICITED, PUBLISH_UNSOLICITED] of
        Some type \<Rightarrow> nan_publish_type_to_string type | None \<Rightarrow> ''UNKNOWN'')"

definition subscribe_type_text :: "u32 \<Rightarrow> string" where
  "subscribe_type_text t =
     (case find (\<lambda>type. subscribe_type_val type = t) [SUBSCRIBE_ACTIVE, SUBSCRIBE_PASSIVE] of
        Some type \<Rightarrow> nan_subscribe_type_to_string type | None \<Rightarrow> ''UNKNOWN'')"

definition print_service_info :: "nan_service \<Rightarrow> string list option" where
  "print_service_info service =
     (case sv_specific_info service of None \<Rightarrow> Some []
      | Some info \<Rightarrow>
          if sv_specific_info_length service > 0
          then do { text \<leftarrow> limited_text (sv_specific_info_length service) info;
                    Some [''Service Info             '' @ text] }
          else Some [])"

definition print_subscribed :: "nan_service \<Rightarrow> string list option" where
  "print_subscribed service =
     do { info \<leftarrow> print_service_info service;
          Some ([''Service Name             '' @ sv_service_name service,
                 ''Service ID               '' @ nan_service_id_to_string (sv_service_id service),
                 ''Subscribe ID             '' @ unsigned_text (sv_instance_id service),
                 ''Type                     '' @ subscribe_type_text (sv_parameters_type service),
                 ''Time to live             '' @ signed_text (sv_time_to_live service),
                 ''Is subscribed?           '' @ (if sv_parameters_flag service then ''true'' else ''false'')] @ info) }"

definition print_published :: "nan_service \<Rightarrow> string list option" where
  "print_published service =
     do { info \<leftarrow> print_service_info service;
          Some ([''Service Name             '' @ sv_service_name service,
                 ''Service ID               '' @ nan_service_id_to_string (sv_service_id service),
                 ''Publish ID               '' @ unsigned_text (sv_instance_id service),
                 ''Type                     '' @ publish_type_text (sv_parameters_type service),
                 ''Time to live             '' @ signed_text (sv_time_to_live service)] @ info) }"

definition print_service_list ::
  "(nan_service \<Rightarrow> string list option) \<Rightarrow> service_heap \<Rightarrow> ptr list \<Rightarrow> string list \<Rightarrow> string list option" where
  "print_service_list pr h ps out =
     LIST_FOR_EACH (\<lambda>p out. do { v \<leftarrow> cells h p; text \<leftarrow> pr v; Some (out @ text) }) ps out"

definition nan_cmd_print_services_info :: "nan_state \<Rightarrow> nan_memory \<Rightarrow> string option \<Rightarrow> string list option" where
  "nan_cmd_print_services_info state mem args =
    (let print_subscribed_services = (args \<noteq> Some ''pub'');
         print_published_services = (args \<noteq> Some ''sub'')
     in do { out \<leftarrow>
               (if print_subscribed_services
                then do { out \<leftarrow>
                    (let title = [''Suscribed Services'', ''---------------------------------------------'']
                     in if length (subscribed_services (st_services state)) = 0
                        then Some (title @ [''No service(s) subscribed.''])
                        else print_service_list print_subscribed (mm_services mem)
                               (subscribed_services (st_services state)) title);
                    Some (out @ ['''']) }
                else Some []);
             if print_published_services
             then do { out \<leftarrow>
                    (let title = out @ [''Published Services'', ''---------------------------------------------'']
                     in if length (published_services (st_services state)) = 0
                        then Some (title @ [''No service(s) published.''])
                        else print_service_list print_published (mm_services mem)
                               (published_services (st_services state)) title);
                    Some (out @ ['''']) }
             else Some out })"

section \<open>What is printed of a well-formed device\<close>

lemma print_loop:
  assumes "\<forall>p \<in> set ps. cells h p = Some (at p) \<and> pr (at p) = Some (tx (at p))"
  shows "LIST_FOR_EACH (\<lambda>p out. do { v \<leftarrow> cells h p; t \<leftarrow> pr v; Some (out @ t) }) ps out
    = Some (out @ concat (map (tx \<circ> at) ps))"
  using assms by (induction ps arbitrary: out) auto

lemma limited_text_fits:
  assumes "unat n \<le> length info" "unat n < 2 ^ 31"
  shows "limited_text n info = Some (map (\<lambda>b. char_of (unat b)) (takeWhile (\<lambda>b. b \<noteq> 0) (take (unat n) info)))"
  using assms by (simp add: limited_text_def c_simps Let_def)

text \<open>The information of a service, up to a zero in it.\<close>

definition info_lines :: "nan_service \<Rightarrow> string list" where
  "info_lines v =
     (case sv_specific_info v of
        Some info \<Rightarrow> (if sv_specific_info_length v > 0
          then [''Service Info             ''
                @ map (\<lambda>b. char_of (unat b)) (takeWhile (\<lambda>b. b \<noteq> 0) (take (unat (sv_specific_info_length v)) info))]
          else [])
      | None \<Rightarrow> [])"

lemma print_service_info_lines: "service_sendable v \<Longrightarrow> print_service_info v = Some (info_lines v)"
  by (auto simp: print_service_info_def info_lines_def service_sendable_def info_fits_def limited_text_fits
      split: option.split)

text \<open>Every printing command ends without reading outside an object, and prints one block per item, in order.\<close>

definition peers_text :: "u64 \<Rightarrow> nan_peer_state \<Rightarrow> peer_heap \<Rightarrow> string list" where
  "peers_text now_usec ps h =
     [''Peers'', ''---------------------------------------------'']
     @ (if peers ps = [] then [''No peer(s) added.'', '''']
        else concat (map (print_peer now_usec \<circ> peer_at h) (peers ps)))"

lemma peers_info_text:
  assumes "peers_ok (st_peers state) (mm_peers mem)"
  shows "nan_cmd_print_peers_info state mem now_usec = Some (peers_text now_usec (st_peers state) (mm_peers mem))"
  using print_loop [where ps = "peers (st_peers state)" and h = "mm_peers mem" and at = "peer_at (mm_peers mem)"
      and pr = "\<lambda>v. Some (print_peer now_usec v)" and tx = "print_peer now_usec"]
  by (simp add: nan_cmd_print_peers_info_def peers_text_def peers_ok_live [OF assms] Let_def)

lemma print_service_list_text:
  assumes "\<forall>p \<in> set ps. \<exists>v. cells h p = Some v \<and> pr v = Some (tx v)"
  shows "print_service_list pr h ps out = Some (out @ concat (map (tx \<circ> service_at h) ps))"
  unfolding print_service_list_def using assms by (intro print_loop) (auto simp: service_at_def)

text \<open>The text of the tables: one block per service, in the order of the lists.\<close>

definition table_text :: "string \<Rightarrow> string \<Rightarrow> (nan_service \<Rightarrow> string list option) \<Rightarrow> nan_service list \<Rightarrow> string list" where
  "table_text title none pr vs =
     [title, ''---------------------------------------------'']
     @ (if vs = [] then [none] else concat (map (the \<circ> pr) vs)) @ ['''']"

definition services_text :: "nan_service_state \<Rightarrow> service_heap \<Rightarrow> string option \<Rightarrow> string list" where
  "services_text ss h args =
     (if args = Some ''pub'' then []
      else table_text ''Suscribed Services'' ''No service(s) subscribed.'' print_subscribed (subscribed ss h))
     @ (if args = Some ''sub'' then []
        else table_text ''Published Services'' ''No service(s) published.'' print_published (published ss h))"

lemma services_info_text:
  assumes "services_ok (st_services state) (mm_services mem)"
  shows "nan_cmd_print_services_info state mem args = Some (services_text (st_services state) (mm_services mem) args)"
proof -
  let ?h = "mm_services mem"
  have pub: "\<forall>p \<in> set (published_services (st_services state)).
      \<exists>v. cells ?h p = Some v \<and> print_published v = Some ((the \<circ> print_published) v)"
    and sub: "\<forall>p \<in> set (subscribed_services (st_services state)).
      \<exists>v. cells ?h p = Some v \<and> print_subscribed v = Some ((the \<circ> print_subscribed) v)"
    using assms by (force simp: services_ok_def print_published_def print_subscribed_def print_service_info_lines)+
  show ?thesis
    unfolding nan_cmd_print_services_info_def Let_def services_text_def table_text_def published_def subscribed_def
    by (simp add: print_service_list_text [OF pub] print_service_list_text [OF sub] comp_def)
qed

end
