(* ===== verification/Nan_Tx.thy ===== *)
theory Nan_Tx
  imports Nan_State
begin

text \<open>
  The construction of frames, \<^verbatim>\<open>src/src/tx.c\<close>, and the data paths it mentions,
  \<^verbatim>\<open>src/src/data_path.h\<close>. Structures are stored through pointers into the buffer, without a
  check of its end, and the cursor is moved over them afterwards; a result \<^const>\<open>None\<close> is a
  store outside the memory of the buffer. A pointer into the buffer is an offset.
\<close>

section \<open>Data paths\<close>

record nan_data_path_state =
  data_paths :: "ptr list"
  last_data_path_id :: u8

record nan_data_path =
  dpath_data_path_id :: u8
  dpath_service_instance_id :: u8
  dpath_destination_address :: ether_addr

definition nan_data_path_state_init :: "nan_data_path_state \<Rightarrow> nan_data_path_state" where
  "nan_data_path_state_init state = state\<lparr>data_paths := [], last_data_path_id := 0\<rparr>"

section \<open>Discovery beacons\<close>

definition nan_can_send_discovery_beacon :: "nan_state \<Rightarrow> u64 \<Rightarrow> bool" where
  "nan_can_send_discovery_beacon state now_usec =
     (if sy_role (st_sync state) \<noteq> MASTER then False
      else if \<not> nan_timer_initial_scan_done (st_timer state) now_usec then False
      else nan_timer_can_send_discovery_beacon (st_timer state) now_usec)"

section \<open>Attributes of fixed size\<close>

definition nan_add_master_indication_attribute :: "buf \<Rightarrow> nan_state \<Rightarrow> (int \<times> buf) option" where
  "nan_add_master_indication_attribute b state =
     (let attribute = \<lparr>mi_id = attribute_type_val MASTER_INDICATION_ATTRIBUTE, mi_length = 2,
                       mi_master_preference = sy_master_preference (st_sync state),
                       mi_random_factor = sy_random_factor (st_sync state)\<rparr>
      in do { b \<leftarrow> put_struct (unat (buf_current b)) (nan_master_indication_attribute_bytes attribute) b;
              Some (5, snd (buf_advance b 5)) })"

definition nan_add_cluster_attribute :: "buf \<Rightarrow> nan_state \<Rightarrow> (int \<times> buf) option" where
  "nan_add_cluster_attribute b state =
     (let attribute = \<lparr>ca_id = attribute_type_val CLUSTER_ATTRIBUTE, ca_length = 13,
                       ca_anchor_master_rank = sy_anchor_master_rank (st_sync state),
                       ca_hop_count = sy_hop_count (st_sync state),
                       ca_anchor_master_beacon_transmission_time = sy_ambtt (st_sync state)\<rparr>
      in do { b \<leftarrow> put_struct (unat (buf_current b)) (nan_cluster_attribute_bytes attribute) b;
              Some (16, snd (buf_advance b 16)) })"

definition nan_add_device_capability_attribute :: "buf \<Rightarrow> (int \<times> buf) option" where
  "nan_add_device_capability_attribute b =
     (let attribute = \<lparr>dc_id = attribute_type_val DEVICE_CAPABILITY_ATTRIBUTE, dc_length = 12 - 3,
                       dc_map_id = 0, dc_committed_dw_info = dc_set_dw_2_4_ghz 1 0,
                       dc_supported_bands = dc_set_band_2_4_ghz 1 0, dc_operation_mode = 0,
                       dc_antennas = 0, dc_max_channel_switch_time = 0, dc_capabilities = 0\<rparr>
      in do { b \<leftarrow> put_struct (unat (buf_current b)) (nan_device_capability_attribute_bytes attribute) b;
              Some (12, snd (buf_advance b 12)) })"

section \<open>Attributes of variable size\<close>

text \<open>
  They start with a header whose id is stored first and whose length last: \<open>header\<close> is the
  offset of the header. The sum of the results of the writes is a \<^verbatim>\<open>size_t\<close>, of which the
  length keeps 16 bits.
\<close>

definition begin_attribute :: "nan_attribute_type \<Rightarrow> buf \<Rightarrow> buf option" where
  "begin_attribute t b =
     do { b \<leftarrow> put_struct (unat (buf_current b)) [attribute_type_val t] b;
          Some (snd (buf_advance b 3)) }"

definition end_attribute :: "nat \<Rightarrow> size_t \<Rightarrow> buf \<Rightarrow> (int \<times> buf) option" where
  "end_attribute header attribute_length b =
     do { b \<leftarrow> put_struct (header + 1) (le_bytes 2 (ucast attribute_length :: u16)) b;
          Some (c_int (uint (attribute_length + 3)), b) }"

definition write_service_id :: "service_heap \<Rightarrow> ptr \<Rightarrow> size_t \<times> buf \<Rightarrow> (size_t \<times> buf) option" where
  "write_service_id h p lb =
     do { v \<leftarrow> cells h p;
          (n, b) \<leftarrow> write_bytes (snd lb) (sv_service_id v) (of_nat NAN_SERVICE_ID_LENGTH);
          Some (fst lb + word_of_int n, b) }"

definition nan_add_service_id_list_attribute :: "buf \<Rightarrow> nan_state \<Rightarrow> service_heap \<Rightarrow> (int \<times> buf) option" where
  "nan_add_service_id_list_attribute b state h =
     (let header = unat (buf_current b)
      in do { b \<leftarrow> begin_attribute SERVICE_ID_LIST_ATTRIBUTE b;
              lb \<leftarrow> LIST_FILTER_FOR_EACH (\<lambda>p _. should_announce h p) (write_service_id h)
                     (published_services (st_services state)) (0, b);
              (len, b) \<leftarrow> LIST_FILTER_FOR_EACH (\<lambda>p _. should_announce h p) (write_service_id h)
                     (subscribed_services (st_services state)) lb;
              end_attribute header len b })"

definition nan_add_service_descriptor_attribute ::
  "buf \<Rightarrow> nan_service \<Rightarrow> nan_service_control_type \<Rightarrow> u8 \<Rightarrow> u8 list option \<Rightarrow> size_t \<Rightarrow> (int \<times> buf) option" where
  "nan_add_service_descriptor_attribute b service control_type requestor_instance_id info info_length =
     (let header = unat (buf_current b)
      in do { b \<leftarrow> begin_attribute SERVICE_DESCRIPTOR_ATTRIBUTE b;
              (n, b) \<leftarrow> write_bytes b (sv_service_id service) (of_nat NAN_SERVICE_ID_LENGTH);
              let len = 0 + word_of_int n;
              (n, b) \<leftarrow> write_u8 b (sv_instance_id service);
              let len = len + word_of_int n;
              (n, b) \<leftarrow> write_u8 b requestor_instance_id;
              let len = len + word_of_int n;
              let control = unat (buf_current b);
              let (n, b) = buf_advance b 1;
              let len = len + word_of_int n;
              let c = sdc_set_service_control_type (service_control_type_val control_type) 0;
              b \<leftarrow> put_struct control [c] b;
              (len, b) \<leftarrow> (case info of
                  Some bytes \<Rightarrow>
                    if info_length < 256
                    then do { b \<leftarrow> put_struct control [sdc_set_service_info_present 1 c] b;
                              (n, b) \<leftarrow> write_u8 b (ucast info_length);
                              let len = len + word_of_int n;
                              (n, b) \<leftarrow> write_bytes b bytes info_length;
                              Some (len + word_of_int n, b) }
                    else Some (len, b)
                | None \<Rightarrow> Some (len, b));
              end_attribute header len b })"

definition nan_add_service_descriptor_extension_attribute ::
  "buf \<Rightarrow> nan_service \<Rightarrow> u8 list option \<Rightarrow> size_t \<Rightarrow> (int \<times> buf) option" where
  "nan_add_service_descriptor_extension_attribute b service info info_length =
     (let header = unat (buf_current b)
      in do { b \<leftarrow> begin_attribute SERVICE_DESCRIPTOR_EXTENSION_ATTRIBUTE b;
              (n, b) \<leftarrow> write_u8 b (sv_instance_id service);
              let len = 0 + word_of_int n;
              let control = unat (buf_current b);
              let (n, b) = buf_advance b 2;
              let len = len + word_of_int n;
              b \<leftarrow> put_struct control (le_bytes 2 (0 :: u16)) b;
              (len, b) \<leftarrow>
                (if sv_type service = PUBLISHED
                 then do { b \<leftarrow> put_struct control (le_bytes 2 (sdec_set_service_update_indicator_present 1 0)) b;
                           (n, b) \<leftarrow> write_u8 b (sv_update_indicator service);
                           Some (len + word_of_int n, b) }
                 else Some (len, b));
              (len, b) \<leftarrow> (case info of
                  Some bytes \<Rightarrow>
                    if info_length \<ge> 256
                    then do { (n, b) \<leftarrow> write_le16 b (ucast info_length);
                              let len = len + word_of_int n;
                              (n, b) \<leftarrow> write_bytes b bytes info_length;
                              Some (len + word_of_int n, b) }
                    else Some (len, b)
                | None \<Rightarrow> Some (len, b));
              end_attribute header len b })"

definition nan_add_availability_attribute :: "buf \<Rightarrow> (int \<times> buf) option" where
  "nan_add_availability_attribute b =
     (let header = unat (buf_current b)
      in do { b \<leftarrow> begin_attribute NAN_AVAILABILITY_ATTRIBUTE b;
              (n, b) \<leftarrow> write_u8 b 0;
              let len = 0 + word_of_int n;
              (n, b) \<leftarrow> write_bytes b (le_bytes 2 (aac_set_map_id 1 0)) 2;
              let len = len + word_of_int n;
              (n, b) \<leftarrow> write_le16 b 5;
              let len = len + word_of_int n;
              (n, b) \<leftarrow> write_le16 b (aec_set_availability_type (availability_type_val AVAILABILITY_COMITTED) 0);
              let len = len + word_of_int n;
              (n, b) \<leftarrow> write_le16 b 0;
              let len = len + word_of_int n;
              (n, b) \<leftarrow> write_u8 b 0;
              let len = len + word_of_int n;
              end_attribute header len b })"

text \<open>
  The members of the fixed part are stored after the cursor has passed it; \<open>type\<close> and \<open>status\<close>
  are two halves of a byte whose old value is read. \<^verbatim>\<open>responder_address\<close> may be null.
\<close>

definition nan_add_data_path_attribute ::
  "buf \<Rightarrow> nan_data_path \<Rightarrow> ether_addr \<Rightarrow> nan_data_path_attribute_status \<Rightarrow> nan_data_path_attribute_type
   \<Rightarrow> u8 \<Rightarrow> ether_addr option \<Rightarrow> u8 list option \<Rightarrow> size_t \<Rightarrow> (int \<times> buf) option" where
  "nan_add_data_path_attribute b data_path initiator_address status type publish_id responder_address info info_length =
     (let attribute = unat (buf_current b)
      in do { b \<leftarrow> put_struct attribute [attribute_type_val NDP_ATTRIBUTE] b;
              let b = snd (buf_advance b 14);
              b \<leftarrow> put_struct (attribute + 3) [0] b;
              old \<leftarrow> mem_load (bdata b) (attribute + 4) 1;
              b \<leftarrow> put_struct (attribute + 4)
                     [dp_set_status (data_path_attribute_status_val status)
                       (dp_set_type (data_path_attribute_type_val type) (hd old))] b;
              b \<leftarrow> put_struct (attribute + 5) [0] b;
              b \<leftarrow> put_struct (attribute + 6) (ether_addr_octet initiator_address) b;
              b \<leftarrow> put_struct (attribute + 12) [dpath_data_path_id data_path] b;
              b \<leftarrow> put_struct (attribute + 13) [0] b;
              let len = (14 :: size_t);
              (len, c, b) \<leftarrow>
                (if type = REQUEST \<and> publish_id \<noteq> 0
                 then do { let c = dpc_set_publish_id_present 1 0;
                           b \<leftarrow> put_struct (attribute + 13) [c] b;
                           (n, b) \<leftarrow> write_u8 b publish_id;
                           Some (len + word_of_int n, c, b) }
                 else Some (len, 0, b));
              (len, c, b) \<leftarrow>
                (case (type, responder_address) of
                   (RESPONSE, Some addr) \<Rightarrow>
                     do { let c = dpc_set_responder_interface_address_present 1 c;
                          b \<leftarrow> put_struct (attribute + 13) [c] b;
                          (n, b) \<leftarrow> write_ether_addr b addr;
                          Some (len + word_of_int n, c, b) }
                 | _ \<Rightarrow> Some (len, c, b));
              (len, b) \<leftarrow> (case info of
                  Some bytes \<Rightarrow>
                    if info_length \<noteq> 0
                    then do { b \<leftarrow> put_struct (attribute + 13) [dpc_set_data_path_specific_info_present 1 c] b;
                              (n, b) \<leftarrow> write_bytes b bytes info_length;
                              Some (len + word_of_int n, b) }
                    else Some (len, b)
                | None \<Rightarrow> Some (len, b));
              b \<leftarrow> put_struct (attribute + 1) (le_bytes 2 (ucast (len - 3) :: u16)) b;
              Some (c_int (uint len), b) })"

section \<open>Beacons\<close>

text \<open>The result has the offset of the length in the beacon's header.\<close>

definition nan_add_beacon_header ::
  "'it radiotap_lib \<Rightarrow> buf \<Rightarrow> nan_state \<Rightarrow> nan_beacon_type \<Rightarrow> u64 \<Rightarrow> (nat \<times> buf \<times> nan_state) option" where
  "nan_add_beacon_header rt b state type now_usec =
     do { b \<leftarrow> ieee80211_add_radiotap_header rt b (st_ieee80211 state);
          (b, i) \<leftarrow> ieee80211_add_nan_header b (st_interface_address state) NAN_BROADCAST_ADDRESS
             (cluster_id (st_cluster state)) (st_ieee80211 state) (IEEE80211_FTYPE_MGMT OR IEEE80211_STYPE_BEACON);
          let state = state\<lparr>st_ieee80211 := i\<rparr>;
          let header = unat (buf_current b);
          let synced_time = nan_timer_get_synced_time_usec (st_timer state) now_usec;
          let beacon_header = \<lparr>bf_time_stamp = synced_time,
                bf_beacon_interval = (if type = NAN_SYNC_BEACON then NAN_SYNC_BEACON_INTERVAL_TU
                                      else NAN_DISCOVERY_BEACON_INTERVAL),
                bf_capability = 0x0420, bf_element_id = 0xdd, bf_length = 4, bf_oui = NAN_OUI,
                bf_oui_type = NAN_OUI_TYPE_BEACON\<rparr>;
          b \<leftarrow> put_struct header (nan_beacon_frame_bytes beacon_header) b;
          Some (header + 13, snd (buf_advance b 18), state) }"

definition nan_build_beacon_frame ::
  "'it radiotap_lib \<Rightarrow> buf \<Rightarrow> nan_state \<Rightarrow> nan_beacon_type \<Rightarrow> u64 \<Rightarrow> (buf \<times> nan_state) option" where
  "nan_build_beacon_frame rt b state type now_usec =
     do { (data_length, b, state) \<leftarrow> nan_add_beacon_header rt b state type now_usec;
          let attributes_length = (0 :: u8);
          (n, b) \<leftarrow> nan_add_master_indication_attribute b state;
          let attributes_length = attributes_length + word_of_int n;
          (n, b) \<leftarrow> nan_add_cluster_attribute b state;
          let attributes_length = attributes_length + word_of_int n;
          old \<leftarrow> mem_load (bdata b) data_length 1;
          b \<leftarrow> put_struct data_length [hd old + attributes_length] b;
          b \<leftarrow> (if fcs (st_ieee80211 state) then ieee80211_add_fcs b else Some b);
          Some (b, state) }"

section \<open>Service discovery frames\<close>

definition nan_add_service_discovery_header ::
  "'it radiotap_lib \<Rightarrow> buf \<Rightarrow> nan_state \<Rightarrow> ether_addr \<Rightarrow> (buf \<times> nan_state) option" where
  "nan_add_service_discovery_header rt b state destination =
     do { b \<leftarrow> ieee80211_add_radiotap_header rt b (st_ieee80211 state);
          (b, i) \<leftarrow> ieee80211_add_nan_header b (st_interface_address state) destination
             (cluster_id (st_cluster state)) (st_ieee80211 state) (IEEE80211_FTYPE_MGMT OR IEEE80211_STYPE_ACTION);
          let state = state\<lparr>st_ieee80211 := i\<rparr>;
          let frame = \<lparr>sdf_category = IEEE80211_PUBLIC_ACTION_FRAME,
                       sdf_action = IEEE80211_PUBLIC_ACTION_FRAME_VENDOR_SPECIFIC,
                       sdf_oui = NAN_OUI, sdf_oui_type = NAN_OUT_TYPE_SERVICE_DISCOVERY\<rparr>;
          b \<leftarrow> put_struct (unat (buf_current b)) (nan_service_discovery_frame_bytes frame) b;
          Some (snd (buf_advance b 6), state) }"

text \<open>The two attributes of an announced service.\<close>

definition add_announced_service :: "service_heap \<Rightarrow> ptr \<Rightarrow> buf \<Rightarrow> buf option" where
  "add_announced_service h p b =
     do { v \<leftarrow> cells h p;
          let control_type = (if sv_type v = SUBSCRIBED then CONTROL_TYPE_SUBSCRIBE else CONTROL_TYPE_PUBLISH);
          (_, b) \<leftarrow> nan_add_service_descriptor_attribute b v control_type 0 (sv_specific_info v)
                    (sv_specific_info_length v);
          (_, b) \<leftarrow> nan_add_service_descriptor_extension_attribute b v (sv_specific_info v)
                    (sv_specific_info_length v);
          Some b }"

text \<open>\<open>announced_services\<close> may be a null pointer.\<close>

definition nan_build_service_discovery_frame ::
  "'it radiotap_lib \<Rightarrow> buf \<Rightarrow> nan_state \<Rightarrow> service_heap \<Rightarrow> ether_addr \<Rightarrow> ptr list option \<Rightarrow> (buf \<times> nan_state) option" where
  "nan_build_service_discovery_frame rt b state h destination announced_services =
     do { (b, state) \<leftarrow> nan_add_service_discovery_header rt b state destination;
          (_, b) \<leftarrow> nan_add_device_capability_attribute b;
          (_, b) \<leftarrow> nan_add_availability_attribute b;
          b \<leftarrow> (case announced_services of Some ss \<Rightarrow> LIST_FOR_EACH (add_announced_service h) ss b
                | None \<Rightarrow> Some b);
          b \<leftarrow> (if fcs (st_ieee80211 state) then ieee80211_add_fcs b else Some b);
          Some (b, state) }"

abbreviation (input) BUF_MAX_LENGTH :: size_t where "BUF_MAX_LENGTH \<equiv> 65535"

text \<open>
  A follow-up. A frame that does not fit into the queue is not freed; \<open>junk\<close> is the memory of
  the new buffer.
\<close>

definition nan_transmit ::
  "'it radiotap_lib \<Rightarrow> (nat \<Rightarrow> u8) \<Rightarrow> nan_state \<Rightarrow> nan_memory \<Rightarrow> ether_addr \<Rightarrow> u8 \<Rightarrow> u8 \<Rightarrow> u8 list option \<Rightarrow> size_t
   \<Rightarrow> (int \<times> nan_state \<times> nan_memory) option" where
  "nan_transmit rt junk state mem destination instance_id requestor_instance_id info info_length =
     do { service \<leftarrow> nan_get_service_by_instance_id (st_services state) (mm_services mem) instance_id None;
          if service = NULL then Some (- 1, state, mem) else
          do { let b = buf_new_owned junk BUF_MAX_LENGTH;
               (b, state) \<leftarrow> nan_add_service_discovery_header rt b state destination;
               v \<leftarrow> cells (mm_services mem) service;
               (_, b) \<leftarrow> nan_add_service_descriptor_attribute b v CONTROL_TYPE_FOLLOW_UP requestor_instance_id
                         info info_length;
               b \<leftarrow> (if info_length \<ge> 256
                     then do { (_, b) \<leftarrow> nan_add_service_descriptor_extension_attribute b v info info_length; Some b }
                     else Some b);
               b \<leftarrow> (if fcs (st_ieee80211 state) then ieee80211_add_fcs b else Some b);
               let (p, fh) = store_alloc b (mm_frames mem);
               let mem = mem\<lparr>mm_frames := fh\<rparr>;
               (r, cb) \<leftarrow> circular_buf_put (st_buffer state) p;
               let state = state\<lparr>st_buffer := cb\<rparr>;
               Some (if r < 0 then - 1 else 0, state, mem) } }"

end
