(* ===== verification/Nan_Cmd.thy ===== *)
theory Nan_Cmd
  imports Nan_Cmd_Print Nan_Tx
begin

text \<open>
  The commands of the daemon's user, \<^verbatim>\<open>src/daemon/cmd.c\<close>, and the two event listeners they
  register. The commands that print are those of \<^verbatim>\<open>Nan_Cmd_Print\<close>; the messages of the others are
  left out, except two that are undefined for some data. A string is its characters without the final zero; \<^const>\<open>None\<close> as a result is
  undefined behaviour.
\<close>

section \<open>C strings\<close>

text \<open>
  \<^verbatim>\<open>strtok(s, d)\<close>: the next token and what is left behind it, which the library keeps for a
  call with a null pointer. The character behind the token is overwritten with a zero:
  \<open>cut_token\<close> is what the string \<open>s\<close> is afterwards.
\<close>

definition strtok :: "string option \<Rightarrow> string \<Rightarrow> string \<Rightarrow> string option \<times> string" where
  "strtok s d saved =
     (let t = dropWhile (\<lambda>c. c \<in> set d) (case s of Some s \<Rightarrow> s | None \<Rightarrow> saved)
      in if t = [] then (None, [])
         else (Some (takeWhile (\<lambda>c. c \<notin> set d) t), drop 1 (dropWhile (\<lambda>c. c \<notin> set d) t)))"

definition cut_token :: "string \<Rightarrow> string \<Rightarrow> string" where
  "cut_token s d = takeWhile (\<lambda>c. c \<in> set d) s @ takeWhile (\<lambda>c. c \<notin> set d) (dropWhile (\<lambda>c. c \<in> set d) s)"

text \<open>\<^verbatim>\<open>strstr(s, t)\<close> is not null.\<close>

fun strstr :: "string \<Rightarrow> string \<Rightarrow> bool" where
  "strstr [] t \<longleftrightarrow> t = []"
| "strstr (c # s) t \<longleftrightarrow> starts_with (c # s) t \<or> strstr s t"

definition c_isspace :: "char \<Rightarrow> bool" where
  "c_isspace c \<longleftrightarrow> (of_char c :: nat) \<in> {9, 10, 11, 12, 13, 32}"

definition c_isdigit :: "char \<Rightarrow> bool" where
  "c_isdigit c \<longleftrightarrow> 48 \<le> (of_char c :: nat) \<and> (of_char c :: nat) \<le> 57"

text \<open>A number that is no \<^verbatim>\<open>int\<close> is undefined behaviour of \<^verbatim>\<open>atoi\<close>.\<close>

definition digits_value :: "string \<Rightarrow> int" where
  "digits_value s = foldl (\<lambda>n c. 10 * n + (of_char c - 48)) 0 (takeWhile c_isdigit s)"

definition number_value :: "string \<Rightarrow> int" where
  "number_value s =
     (case dropWhile c_isspace s of [] \<Rightarrow> 0
      | c # t \<Rightarrow> if c = CHR ''-'' then - digits_value t else if c = CHR ''+'' then digits_value t
                else digits_value (c # t))"

definition atoi :: "string \<Rightarrow> int option" where
  "atoi s = (let n = number_value s in if - (2 ^ 31) \<le> n \<and> n < 2 ^ 31 then Some n else None)"

definition octets :: "string \<Rightarrow> u8 list" where
  "octets s = map of_char s"

section \<open>Event listeners\<close>

text \<open>The addresses of the two listeners and of the state they get.\<close>

abbreviation (input) HANDLE_EVENT_RECEIVE :: ptr where "HANDLE_EVENT_RECEIVE \<equiv> 1"
abbreviation (input) HANDLE_EVENT_DISCOVERY_RESULT :: ptr where "HANDLE_EVENT_DISCOVERY_RESULT \<equiv> 2"
abbreviation (input) NAN_STATE :: ptr where "NAN_STATE \<equiv> 1"

text \<open>
  The debugging message of a follow-up prints its information, from a pointer and up to a length
  that the reception does not set when the descriptor has none: what they hold then is what the
  memory of the descriptor held, and reading there is undefined unless it is as long as it says
  or has a zero.
\<close>

definition received_text :: "log_state \<Rightarrow> nan_event_receive \<Rightarrow> string option" where
  "received_text L data =
     (if LOG_DEBUG > lg_level L then Some []
      else limited_text (er_service_specific_info_length data) (er_service_specific_info data))"

definition handle_event_receive ::
  "log_state \<Rightarrow> nan_state \<Rightarrow> nan_memory \<Rightarrow> nan_event_receive \<Rightarrow> (nan_state \<times> nan_memory) option" where
  "handle_event_receive L state mem data =
     do { service \<leftarrow> nan_get_service_by_instance_id (st_services state) (mm_services mem) (er_instance_id data) None;
          if service = NULL then Some (state, mem)
          else do { v \<leftarrow> cells (mm_services mem) service;
                    message \<leftarrow> received_text L data;
                    (_, ss, sh) \<leftarrow>
                      (if sv_type v = PUBLISHED
                       then nan_cancel_publish (st_services state) (mm_services mem) (sv_instance_id v)
                       else nan_cancel_subscribe (st_services state) (mm_services mem) (sv_instance_id v));
                    events \<leftarrow> nan_remove_event_listener (st_events state) (mm_listeners mem) HANDLE_EVENT_RECEIVE;
                    Some (state\<lparr>st_services := ss, st_events := events\<rparr>, mem\<lparr>mm_services := sh\<rparr>) } }"

text \<open>\<open>junk\<close> is the memory of the frame that is sent.\<close>

definition handle_event_discovery_result ::
  "'it radiotap_lib \<Rightarrow> (nat \<Rightarrow> u8) \<Rightarrow> nan_state \<Rightarrow> nan_memory \<Rightarrow> nan_event_discovery_result
   \<Rightarrow> (nan_state \<times> nan_memory) option" where
  "handle_event_discovery_result rt junk state mem data =
     do { service \<leftarrow> nan_get_service_by_instance_id (st_services state) (mm_services mem) (dr_subscribe_id data)
                      (Some SUBSCRIBED);
          if service = NULL then Some (state, mem)
          else do { (_, state, mem) \<leftarrow> nan_transmit rt junk state mem (dr_address data) (dr_subscribe_id data)
                      (dr_publish_id data) (Some (octets ''Hello world!'')) 12;
                    events \<leftarrow> nan_remove_event_listener (st_events state) (mm_listeners mem)
                      HANDLE_EVENT_DISCOVERY_RESULT;
                    v \<leftarrow> cells (mm_services mem) service;
                    let (events, lh) = nan_add_event_listener events (mm_listeners mem) EVENT_RECEIVE
                      (Some (sv_service_name v)) HANDLE_EVENT_RECEIVE NAN_STATE;
                    Some (state\<lparr>st_events := events\<rparr>, mem\<lparr>mm_listeners := lh\<rparr>) } }"

text \<open>
  What a call of one of the two does. They take the data of their event; any other data would be
  read as a structure that it is not. \<open>frame_junk\<close> is the memory that \<^verbatim>\<open>malloc\<close> yields at an address.
\<close>

definition call_listener :: "'it radiotap_lib \<Rightarrow> (ptr \<Rightarrow> nat \<Rightarrow> u8) \<Rightarrow> log_state \<Rightarrow> listen" where
  "call_listener rt frame_junk L call state mem =
     (let (listener, event, data, additional_data) = call
      in if additional_data \<noteq> NAN_STATE then None
         else if listener = HANDLE_EVENT_RECEIVE
         then (case data of Receive d \<Rightarrow> handle_event_receive L state mem d | _ \<Rightarrow> None)
         else if listener = HANDLE_EVENT_DISCOVERY_RESULT
         then (case data of
                 Discovery_Result d \<Rightarrow> handle_event_discovery_result rt (frame_junk (brk (mm_frames mem))) state mem d
               | _ \<Rightarrow> None)
         else None)"

section \<open>Publishing and subscribing\<close>

text \<open>
  Without arguments the library continues behind the previous token, at the end of the input.
  A missing name is a null pointer, whose length is taken. \<open>junk\<close> is the memory of the new
  service and \<open>sj\<close> the context of the hash.
\<close>

definition nan_cmd_publish_service ::
  "nan_service \<Rightarrow> sha256_context \<Rightarrow> nan_state \<Rightarrow> nan_memory \<Rightarrow> string option \<Rightarrow> (nan_state \<times> nan_memory) option" where
  "nan_cmd_publish_service junk sj state mem args =
     (let (service_name, saved) = strtok args '' '' [];
          (service_info, saved) = strtok None '' '' saved;
          service_info = (case service_info of Some s \<Rightarrow> s | None \<Rightarrow> [])
      in do { service_name \<leftarrow> service_name;
              service \<leftarrow> nan_get_service_by_name (st_services state) (mm_services mem) service_name None;
              if service \<noteq> NULL then Some (state, mem)
              else do { (publish_id, ss, sh) \<leftarrow>
                          nan_publish junk sj (st_services state) (mm_services mem) service_name PUBLISH_BOTH (- 1)
                            (Some (octets service_info)) (of_nat (length service_info));
                        let (events, lh) = nan_add_event_listener (st_events state) (mm_listeners mem) EVENT_RECEIVE
                            (Some service_name) HANDLE_EVENT_RECEIVE NAN_STATE;
                        Some (state\<lparr>st_services := ss, st_events := events\<rparr>,
                              mem\<lparr>mm_services := sh, mm_listeners := lh\<rparr>) } })"

text \<open>The search is for all of the arguments, up to the end of the name.\<close>

definition nan_cmd_subscribe_service ::
  "nan_service \<Rightarrow> sha256_context \<Rightarrow> nan_state \<Rightarrow> nan_memory \<Rightarrow> string option \<Rightarrow> (nan_state \<times> nan_memory) option" where
  "nan_cmd_subscribe_service junk sj state mem args =
     (let (service_name, saved) = strtok args '' '' []
      in do { args \<leftarrow> map_option (\<lambda>s. cut_token s '' '') args;
              service \<leftarrow> nan_get_service_by_name (st_services state) (mm_services mem) args None;
              if service \<noteq> NULL then Some (state, mem)
              else do { service_name \<leftarrow> service_name;
                        (subscribe_id, ss, sh) \<leftarrow>
                          nan_subscribe junk sj (st_services state) (mm_services mem) service_name SUBSCRIBE_PASSIVE (- 1)
                            None 0;
                        let (events, lh) = nan_add_event_listener (st_events state) (mm_listeners mem)
                            EVENT_DISCOVERY_RESULT (Some service_name) HANDLE_EVENT_DISCOVERY_RESULT NAN_STATE;
                        Some (state\<lparr>st_services := ss, st_events := events\<rparr>,
                              mem\<lparr>mm_services := sh, mm_listeners := lh\<rparr>) } })"

section \<open>Setting values\<close>

definition validate_number :: "string \<Rightarrow> bool option" where
  "validate_number value =
     do { parsed \<leftarrow> atoi value;
          Some (\<not> (parsed = 0 \<and> value \<noteq> [] \<and> value \<noteq> ''0'')) }"

definition validate_number_range :: "string \<Rightarrow> int \<Rightarrow> int \<Rightarrow> bool option" where
  "validate_number_range value mn mx =
     do { valid \<leftarrow> validate_number value;
          if \<not> valid then Some False
          else do { parsed \<leftarrow> atoi value;
                    Some (\<not> (parsed < mn \<or> mx < parsed)) } }"

definition nan_cmd_set_value :: "nan_state \<Rightarrow> string option \<Rightarrow> nan_state option" where
  "nan_cmd_set_value state args =
     (let (target, saved) = strtok args '' '' [];
          (value, saved) = strtok None '' '' saved
      in case (target, value) of
           (Some target, Some value) \<Rightarrow>
             if target = ''rf'' then
               do { valid \<leftarrow> validate_number_range value 0 255;
                    if \<not> valid then Some state
                    else do { random_factor \<leftarrow> atoi value;
                              let sync = (st_sync state)\<lparr>sy_random_factor := word_of_int random_factor\<rparr>;
                              Some (state\<lparr>st_sync := snd (nan_update_master_rank sync
                                            (Some (st_interface_address state)))\<rparr>) } }
             else if target = ''mp'' then
               do { valid \<leftarrow> validate_number_range value 0 255;
                    if \<not> valid then Some state
                    else do { master_preference \<leftarrow> atoi value;
                              let sync = (st_sync state)\<lparr>sy_master_preference := word_of_int master_preference\<rparr>;
                              Some (state\<lparr>st_sync := snd (nan_update_master_rank sync
                                            (Some (st_interface_address state)))\<rparr>) } }
             else Some state
         | _ \<Rightarrow> Some state)"

section \<open>Peers\<close>

definition get_peer :: "nan_state \<Rightarrow> nan_memory \<Rightarrow> string \<Rightarrow> ptr option" where
  "get_peer state mem peer_address_arg =
     LIST_FIND (\<lambda>p. do { v \<leftarrow> cells (mm_peers mem) p; Some (strstr (ether_addr_text (pe_addr v)) peer_address_arg) })
       (peers (st_peers state))"

text \<open>
  Setting a value of a peer only writes its field to the log. Arguments of blanks have no first
  word, and a null pointer is not a string that can be written.
\<close>

definition nan_cmd_peer_set_value :: "log_state \<Rightarrow> string \<Rightarrow> string option" where
  "nan_cmd_peer_set_value L args =
     (let (field, saved) = strtok (Some args) '' '' []
      in if LOG_WARNING > lg_level L then Some [] else field)"

definition nan_cmd_peer ::
  "log_state \<Rightarrow> nan_state \<Rightarrow> nan_memory \<Rightarrow> string option \<Rightarrow> (nan_state \<times> nan_memory \<times> peer_call list) option" where
  "nan_cmd_peer L state mem args =
     (let (peer_address_arg, saved) = strtok args '' '' [];
          (cmd, saved) = strtok None '' '' saved;
          (cmd_args, saved) = strtok None [] saved
      in if peer_address_arg = None \<or> cmd = None then Some (state, mem, [])
         else do { args \<leftarrow> map_option (\<lambda>s. cut_token s '' '') args;
                   peer \<leftarrow> get_peer state mem args;
                   if peer = NULL then Some (state, mem, [])
                   else if cmd = Some ''set''
                   then (case cmd_args of None \<Rightarrow> Some (state, mem, [])
                         | Some cmd_args \<Rightarrow>
                             do { field \<leftarrow> nan_cmd_peer_set_value L cmd_args; Some (state, mem, []) })
                   else if cmd = Some ''rm''
                   then do { (ps, ph, calls) \<leftarrow> nan_peer_remove (st_peers state) (mm_peers mem) peer;
                             Some (state\<lparr>st_peers := ps\<rparr>, mem\<lparr>mm_peers := ph\<rparr>, calls) }
                   else Some (state, mem, []) })"

section \<open>Commands\<close>

definition free_last_cmd :: "string option \<Rightarrow> string option" where
  "free_last_cmd last_cmd = (if last_cmd \<noteq> None then None else last_cmd)"

text \<open>
  Only commands that print are repeated by an empty line. The input is cut behind its first
  token before it is remembered, and so is a remembered command when it is repeated. The last
  component of the result is what is printed.
\<close>

definition nan_handle_cmd ::
  "nan_service \<Rightarrow> sha256_context \<Rightarrow> u64 \<Rightarrow> log_state \<Rightarrow> nan_state \<Rightarrow> nan_memory \<Rightarrow> string \<Rightarrow> string option
   \<Rightarrow> (nan_state \<times> nan_memory \<times> string option \<times> log_state \<times> peer_call list \<times> string list) option" where
  "nan_handle_cmd junk sj now_usec L state mem input last_cmd =
     (if input = [] \<and> last_cmd = None then Some (state, mem, last_cmd, L, [], [])
      else
        let again = (input = []);
            line = (if again then the last_cmd else input);
            (cmd, saved) = strtok (Some line) '' '' [];
            (args, saved) = strtok None [] saved;
            line = cut_token line '' '';
            last_cmd = (if again then Some line else last_cmd);
            stored = (if again then last_cmd else Some line)
        in do { cmd \<leftarrow> cmd;
                if cmd = ''help'' then Some (state, mem, stored, L, [], log_info L nan_cmd_print_help)
                else if cmd = ''device''
                then Some (state, mem, stored, L, [], log_info L (nan_cmd_print_device_info state))
                else if cmd = ''sync''
                then Some (state, mem, stored, L, [], log_info L (nan_cmd_print_sync_info state now_usec))
                else if cmd = ''peers''
                then do { out \<leftarrow> nan_cmd_print_peers_info state mem now_usec;
                          Some (state, mem, stored, L, [], log_info L out) }
                else if cmd = ''services''
                then do { out \<leftarrow> nan_cmd_print_services_info state mem args;
                          Some (state, mem, stored, L, [], log_info L out) }
                else if cmd = ''v+'' then Some (state, mem, free_last_cmd last_cmd, log_increase_level L, [], [])
                else if cmd = ''v-'' then Some (state, mem, free_last_cmd last_cmd, log_decrease_level L, [], [])
                else if cmd = ''publish''
                then do { (state, mem) \<leftarrow> nan_cmd_publish_service junk sj state mem args;
                          Some (state, mem, free_last_cmd last_cmd, L, [], []) }
                else if cmd = ''subscribe''
                then do { (state, mem) \<leftarrow> nan_cmd_subscribe_service junk sj state mem args;
                          Some (state, mem, free_last_cmd last_cmd, L, [], []) }
                else if cmd = ''set''
                then do { state \<leftarrow> nan_cmd_set_value state args;
                          Some (state, mem, free_last_cmd last_cmd, L, [], []) }
                else if cmd = ''peer''
                then do { (state, mem, calls) \<leftarrow> nan_cmd_peer L state mem args;
                          Some (state, mem, free_last_cmd last_cmd, L, calls, []) }
                else Some (state, mem, free_last_cmd last_cmd, L, [], []) })"

end
