(* ===== verification/Nan_Rx_Attributes.thy ===== *)
theory Nan_Rx_Attributes
  imports Nan_Rx
begin

text \<open>
  What the parsers of \<open>Nan_Rx\<close> compute. A buffer with a sticky error flag is related to the
  bytes it still has, or to a failure; every read is then a step on bytes, and a parser that
  tests the flag once at its end is an ordinary parser of byte lists. The iteration over the
  attributes of a frame is the fold of its handler over the attributes the bytes split into,
  for every handler that satisfies the contract \<open>attribute_handler\<close>.
\<close>

section \<open>Buffers as inputs that may have failed\<close>

definition sim :: "buf \<Rightarrow> u8 list option \<Rightarrow> bool" where
  "sim b i \<longleftrightarrow> wf_buf b \<and> (case i of Some xs \<Rightarrow> berror b = 0 \<and> inp b = xs | None \<Rightarrow> berror b \<noteq> 0)"

definition skip_bytes :: "nat \<Rightarrow> u8 list \<Rightarrow> u8 list option" where
  "skip_bytes n xs = (if n \<le> length xs then Some (drop n xs) else None)"

text \<open>The input after a step, and the bytes the step has read.\<close>

definition step :: "nat \<Rightarrow> u8 list option \<Rightarrow> u8 list option" where
  "step n i = Option.bind i (skip_bytes n)"

lemma step_simps [simp]: "step n None = None" "step n (Some xs) = skip_bytes n xs"
  by (simp_all add: step_def)

lemma sim_wf: "sim b i \<Longrightarrow> wf_buf b"
  by (simp add: sim_def)

lemma sim_error: "sim b i \<Longrightarrow> buf_error b \<noteq> 0 \<longleftrightarrow> i = None"
  by (auto simp: sim_def buf_error_def split: option.splits)

lemma sim_skip: "sim b i \<Longrightarrow> n \<le> room b \<Longrightarrow> sim (skip n b) (step n i)"
  by (auto simp: sim_def wf_buf_skip inp_skip skip_bytes_def length_inp split: option.splits)

lemma sim_failed: "sim b i \<Longrightarrow> room b < n \<Longrightarrow> sim (failed b) (step n i)"
  by (auto simp: sim_def skip_bytes_def length_inp split: option.splits)

lemma sim_read:
  assumes "sim b i"
  shows "\<exists>r v b'. read_macro n to b w = Some (r, v, b') \<and> sim b' (step n i)
    \<and> (\<forall>xs. i = Some xs \<longrightarrow> n \<le> length xs \<longrightarrow> v = to (take n xs))"
proof (cases "n \<le> room b")
  case True
  then show ?thesis using sim_skip [OF assms True] assms
    by (auto simp: read_macro_wf [OF sim_wf [OF assms]] sim_def split: option.splits)
next
  case False
  then show ?thesis using sim_failed [OF assms, of n] assms
    by (auto simp: read_macro_wf [OF sim_wf [OF assms]] sim_def length_inp split: option.splits)
qed

lemma sim_readE:
  assumes "sim b i"
  obtains r v b' where "read_macro n to b w = Some (r, v, b')" "sim b' (step n i)"
    "\<forall>xs. i = Some xs \<longrightarrow> n \<le> length xs \<longrightarrow> v = to (take n xs)"
  using sim_read [OF assms, of n to w] by (elim exE conjE) (rule that)

lemma sim_read_copy:
  assumes "sim b i" "unat n < 2 ^ 31" "unat n \<le> length dst"
  shows "\<exists>r v b'. read_bytes_copy b dst n = Some (r, v, b') \<and> sim b' (step (unat n) i)
    \<and> (\<forall>xs. i = Some xs \<longrightarrow> unat n \<le> length xs \<longrightarrow> v = take (unat n) xs @ drop (unat n) dst)"
proof (cases "unat n \<le> room b")
  case True
  then show ?thesis using sim_skip [OF assms(1) True] assms(1)
    by (auto simp: read_bytes_copy_wf [OF sim_wf [OF assms(1)] assms(2,3)] sim_def split: option.splits)
next
  case False
  then show ?thesis using sim_failed [OF assms(1), of "unat n"] assms(1)
    by (auto simp: read_bytes_copy_wf [OF sim_wf [OF assms(1)] assms(2,3)] sim_def length_inp
        split: option.splits)
qed

lemma sim_advance:
  assumes "sim b i" "unat n < 2 ^ 31"
  shows "sim (snd (buf_advance b n)) (step (unat n) i)"
  using sim_skip [OF assms(1), of "unat n"] sim_failed [OF assms(1), of "unat n"]
  by (simp add: buf_advance_wf [OF sim_wf [OF assms(1)] assms(2)] not_le)

lemma sim_read_bytes:
  assumes "sim b i" "unat n < 2 ^ 31"
  shows "\<exists>r p b'. read_bytes b w n = (r, p, b') \<and> sim b' (step (unat n) i)"
  using sim_skip [OF assms(1), of "unat n"] sim_failed [OF assms(1), of "unat n"]
  by (simp add: read_bytes_wf [OF sim_wf [OF assms(1)] assms(2)] not_le)

lemma sim_new_const:
  "unat n < 2 ^ 31 \<Longrightarrow> unat n \<le> length src \<Longrightarrow> sim (buf_new_const src n) (Some (take (unat n) src))"
  using buf_new_const_wf [of n src] by (simp add: sim_def)

lemma unat_ucast_u8: "unat (ucast (w :: u8) :: size_t) = unat w"
  by (rule unat_ucast_up) simp

lemma unat_ucast_u16: "unat (ucast (w :: u16) :: size_t) = unat w"
  by (rule unat_ucast_up) simp

lemma small_u8: "unat (w :: u8) < 2 ^ 31"
  using unat_bound [of w] by simp

lemma small_u16: "unat (w :: u16) < 2 ^ 31"
  using unat_bound [of w] by simp

lemmas read_defs = read_u8_def read_le16_def read_le32_def read_le64_def

section \<open>The attributes of a beacon\<close>

definition master_indication_effect :: "u8 list \<Rightarrow> nan_peer \<Rightarrow> int \<times> nan_peer" where
  "master_indication_effect body peer =
     (if length body < 2 then (rx_result_val RX_TOO_SHORT, peer)
      else (rx_result_val RX_OK, nan_peer_set_master_indication peer (body ! 0) (body ! 1)))"

definition cluster_effect :: "u8 list \<Rightarrow> nan_peer \<Rightarrow> int \<times> nan_peer" where
  "cluster_effect body peer =
     (if length body < 13 then (rx_result_val RX_TOO_SHORT, peer)
      else (rx_result_val RX_OK, nan_peer_set_anchor_master_information peer
              (of_le_bytes (take 8 body)) (of_le_bytes (take 4 (drop 9 body))) (body ! 8)))"

definition beacon_effect :: "u8 \<Rightarrow> u8 list \<Rightarrow> nan_peer \<Rightarrow> int \<times> nan_peer" where
  "beacon_effect aid body peer =
     (if aid = attribute_type_val MASTER_INDICATION_ATTRIBUTE then master_indication_effect body peer
      else if aid = attribute_type_val CLUSTER_ATTRIBUTE then cluster_effect body peer
      else (rx_result_val RX_IGNORE, peer))"

lemma hd_take_1: "1 \<le> length xs \<Longrightarrow> hd (take 1 xs) = xs ! 0"
  by (cases xs) auto

lemma hd_drop_nth: "n < length xs \<Longrightarrow> hd (drop n xs) = xs ! n"
  by (rule hd_drop_conv_nth)

lemma hd_nth: "0 < length xs \<Longrightarrow> hd xs = xs ! 0"
  by (cases xs) auto

lemma nan_parse_master_indication_spec:
  assumes "sim b (Some body)"
  shows "\<exists>b'. nan_parse_master_indication_attribute j b peer
    = Some (fst (master_indication_effect body peer), b', snd (master_indication_effect body peer))"
proof -
  obtain r1 mp b1 where 1: "read_u8 b (rj_u8 j) = Some (r1, mp, b1)" "sim b1 (step 1 (Some body))"
      "\<forall>xs. Some body = Some xs \<longrightarrow> 1 \<le> length xs \<longrightarrow> mp = hd (take 1 xs)"
    unfolding read_u8_def by (rule sim_readE [OF assms])
  obtain r2 rf b2 where 2: "read_u8 b1 (rj_u8 j) = Some (r2, rf, b2)" "sim b2 (step 1 (step 1 (Some body)))"
      "\<forall>xs. step 1 (Some body) = Some xs \<longrightarrow> 1 \<le> length xs \<longrightarrow> rf = hd (take 1 xs)"
    unfolding read_u8_def by (rule sim_readE [OF 1(2)])
  have e: "buf_error b2 \<noteq> 0 \<longleftrightarrow> length body < 2"
    unfolding sim_error [OF 2(2)] by (auto simp: skip_bytes_def)
  have v: "mp = body ! 0 \<and> rf = body ! 1" if "2 \<le> length body"
    using that 1(3) 2(3) by (simp add: skip_bytes_def hd_drop_nth hd_nth)
  show ?thesis
    unfolding nan_parse_master_indication_attribute_def master_indication_effect_def 1(1) Option.bind.simps prod.case 2(1)
    using v by (simp only: e) auto
qed

lemma nan_parse_cluster_spec:
  assumes "sim b (Some body)"
  shows "\<exists>b'. nan_parse_cluster_attribute j b peer
    = Some (fst (cluster_effect body peer), b', snd (cluster_effect body peer))"
proof -
  obtain r1 amr b1 where 1: "read_le64 b (rj_u64 j) = Some (r1, amr, b1)" "sim b1 (step 8 (Some body))"
      "\<forall>xs. Some body = Some xs \<longrightarrow> 8 \<le> length xs \<longrightarrow> amr = of_le_bytes (take 8 xs)"
    unfolding read_le64_def by (rule sim_readE [OF assms])
  obtain r2 hop b2 where 2: "read_u8 b1 (rj_u8 j) = Some (r2, hop, b2)" "sim b2 (step 1 (step 8 (Some body)))"
      "\<forall>xs. step 8 (Some body) = Some xs \<longrightarrow> 1 \<le> length xs \<longrightarrow> hop = hd (take 1 xs)"
    unfolding read_u8_def by (rule sim_readE [OF 1(2)])
  obtain r3 tt b3 where 3: "read_le32 b2 (rj_u32 j) = Some (r3, tt, b3)"
      "sim b3 (step 4 (step 1 (step 8 (Some body))))"
      "\<forall>xs. step 1 (step 8 (Some body)) = Some xs \<longrightarrow> 4 \<le> length xs \<longrightarrow> tt = of_le_bytes (take 4 xs)"
    unfolding read_le32_def by (rule sim_readE [OF 2(2)])
  have e: "buf_error b3 \<noteq> 0 \<longleftrightarrow> length body < 13"
    unfolding sim_error [OF 3(2)] by (auto simp: skip_bytes_def)
  have v: "amr = of_le_bytes (take 8 body) \<and> hop = body ! 8 \<and> tt = of_le_bytes (take 4 (drop 9 body))"
    if "13 \<le> length body"
    using that 1(3) 2(3) 3(3) by (simp add: skip_bytes_def hd_drop_nth)
  show ?thesis
    unfolding nan_parse_cluster_attribute_def cluster_effect_def 1(1) Option.bind.simps prod.case 2(1) 3(1)
    using v by (simp only: e) auto
qed

section \<open>The contract of a handler, and the iteration\<close>

text \<open>The complete attributes at the start of some bytes, and the bytes after them.\<close>

fun split_attributes :: "u8 list \<Rightarrow> (u8 \<times> u8 list) list \<times> u8 list" where
  "split_attributes (i # l # m # xs) =
     (let n = unat (of_le_bytes [l, m] :: u16) in
      if n \<le> length xs
      then ((i, take n xs) # fst (split_attributes (drop n xs)), snd (split_attributes (drop n xs)))
      else ([], i # l # m # xs))"
| "split_attributes xs = ([], xs)"

text \<open>Handling attributes in order until one fails.\<close>

fun fold_attributes ::
  "(u8 \<Rightarrow> u8 list \<Rightarrow> 'a \<Rightarrow> int \<times> 'a) \<Rightarrow> (u8 \<times> u8 list) list \<Rightarrow> int \<Rightarrow> 'a \<Rightarrow> int \<times> 'a" where
  "fold_attributes effect [] result s = (result, s)"
| "fold_attributes effect ((i, body) # as) result s =
     (if fst (effect i body s) < 0 then effect i body s
      else fold_attributes effect as (fst (effect i body s)) (snd (effect i body s)))"

text \<open>
  Which incomplete ends are not noticed: nothing, a single byte, a header without any byte of
  its body, and two bytes after an attribute of length 1 (\<open>alen\<close> is the length read last).
\<close>

definition end_accepted :: "nat \<Rightarrow> u8 list \<Rightarrow> bool" where
  "end_accepted alen t \<longleftrightarrow> length t \<in> {0, 1, 3} \<or> length t = 2 \<and> alen = 1"

definition last_length :: "nat \<Rightarrow> (u8 \<times> u8 list) list \<Rightarrow> nat" where
  "last_length n as = (if as = [] then n else length (snd (last as)))"

definition iterate_effect ::
  "(u8 \<Rightarrow> u8 list \<Rightarrow> 'a \<Rightarrow> int \<times> 'a) \<Rightarrow> nat \<Rightarrow> u8 list \<Rightarrow> int \<Rightarrow> 'a \<Rightarrow> int \<times> 'a" where
  "iterate_effect effect n xs result s =
     (let (r, s') = fold_attributes effect (fst (split_attributes xs)) result s
      in (if r < 0 then r
          else if end_accepted (last_length n (fst (split_attributes xs))) (snd (split_attributes xs))
          then rx_result_val RX_OK else rx_result_val RX_UNEXPECTED_FORMAT, s'))"

lemma read_next_complete:
  assumes b: "sim b (Some (i # l # m # xs))" and n: "n = unat (of_le_bytes [l, m] :: u16)" "n \<le> length xs"
  shows "\<exists>data b'. nan_attribute_read_next b aid alen w = Some (3 + int n, i, of_le_bytes [l, m], data, b')
    \<and> sim b' (Some (drop n xs)) \<and> bdata b' = bdata b
    \<and> sim (buf_new_const (drop (unat data) (bdata b)) (ucast (of_le_bytes [l, m] :: u16))) (Some (take n xs))"
proof -
  define ml where "ml = (of_le_bytes [l, m] :: u16)"
  define b1 where "b1 = skip 1 b"
  define b3 where "b3 = skip 2 b1"
  define b4 where "b4 = skip n b3"
  have wf: "wf_buf b" and e: "berror b = 0" and inp: "inp b = i # l # m # xs" using b by (simp_all add: sim_def)
  have room: "room b = 3 + length xs" using length_inp [OF wf] inp by simp
  have 1: "read_u8 b aid = Some (1, i, b1)"
    unfolding read_u8_def b1_def using room inp by (simp add: read_macro_wf [OF wf])
  have w1: "wf_buf b1" "inp b1 = l # m # xs" "room b1 = 2 + length xs" "berror b1 = 0" "bdata b1 = bdata b"
    unfolding b1_def
    using wf_buf_skip [OF wf, of 1] inp_skip [OF wf, of 1] room_skip [OF wf, of 1] room inp e by simp_all
  have 2: "read_le16 b1 alen = Some (2, ml, b3)"
    unfolding read_le16_def b3_def ml_def using w1 by (simp add: read_macro_wf numeral_2_eq_2)
  have w3: "wf_buf b3" "inp b3 = xs" "room b3 = length xs" "berror b3 = 0" "bdata b3 = bdata b"
    unfolding b3_def
    using wf_buf_skip [OF w1(1), of 2] inp_skip [OF w1(1), of 2] room_skip [OF w1(1), of 2] w1 by simp_all
  have ml: "unat ml = n" using n(1) by (simp only: ml_def)
  have n': "unat (ucast ml :: size_t) = n" "n < 2 ^ 31"
    unfolding ml [symmetric] using small_u16 [of ml] by (simp_all add: unat_ucast_u16)
  have 3: "read_bytes b3 w (ucast ml) = (int n, bcurrent b3, b4)"
    using read_bytes_wf [OF w3(1), of "ucast ml" w] n' n(2) w3(3) by (simp add: b4_def uint_nat)
  have w4: "sim b4 (Some (drop n xs))" "bdata b4 = bdata b" "berror b4 = 0"
    using wf_buf_skip [OF w3(1), of n] inp_skip [OF w3(1), of n] w3 n(2)
    unfolding b4_def by (simp_all add: sim_def)
  have mem: "mem_load (bdata b) (unat (bcurrent b3)) n = Some (take n xs)"
    using inp_load [OF w3(1), of n] n(2) w3 by simp
  then have "n \<le> length (drop (unat (bcurrent b3)) (bdata b))"
    and "take n (drop (unat (bcurrent b3)) (bdata b)) = take n xs"
    by (auto simp: mem_load_def split: if_splits)
  then have "sim (buf_new_const (drop (unat (bcurrent b3)) (bdata b)) (ucast ml)) (Some (take n xs))"
    using sim_new_const [of "ucast ml" "drop (unat (bcurrent b3)) (bdata b)"] n' by simp
  moreover have "uint ml = int n" using ml by (simp add: uint_nat)
  ultimately show ?thesis
    unfolding ml_def [symmetric] using w4
    by (intro exI [of _ "bcurrent b3"] exI [of _ b4])
      (simp add: nan_attribute_read_next_def 1 2 3 buf_error_def)
qed

text \<open>What an incomplete attribute at the end does to the frame, and what is seen of it.\<close>

lemma rest_after_read_bytes:
  assumes "wf_buf c" "unat n < 2 ^ 31"
  shows "0 < buf_rest (snd (snd (read_bytes c w n))) \<longleftrightarrow> room c \<noteq> 0 \<and> unat n \<noteq> room c"
  using assms wf_buf_skip [OF assms(1), of "unat n"] room_skip [OF assms(1), of "unat n"]
  by (auto simp: read_bytes_wf wf_buf_rest)

lemma error_after_read_bytes: "berror (snd (snd (read_bytes c w n))) = (if buf_rest c < c_int (uint n) then - 1 else berror c)"
  by (simp add: read_bytes_def)

lemma read_next_failed:
  assumes "read_u8 b aid = Some (r1, aid', b1)" "read_le16 b1 alen = Some (r2, alen', b2)"
    and "wf_buf b2" "berror b2 = - 1 \<or> room b2 < unat alen'"
  shows "\<exists>data b'. nan_attribute_read_next b aid alen w = Some (rx_result_val RX_TOO_SHORT, aid', alen', data, b')
    \<and> (0 < buf_rest b' \<longleftrightarrow> room b2 \<noteq> 0 \<and> unat alen' \<noteq> room b2)"
proof -
  have a: "unat (ucast alen' :: size_t) = unat alen'" "unat (ucast alen' :: size_t) < 2 ^ 31"
    using small_u16 [of alen'] by (simp_all add: unat_ucast_u16)
  have "buf_error (snd (snd (read_bytes b2 w (ucast alen')))) < 0"
    using assms(4) a wf_buf_check_size [OF assms(3), of "ucast alen'"]
    by (auto simp: error_after_read_bytes buf_error_def c_int_uint)
  then show ?thesis
    using rest_after_read_bytes [OF assms(3) a(2), of w] a(1)
    by (auto simp: nan_attribute_read_next_def assms(1,2) split: prod.splits)
qed

lemma read_next_incomplete:
  assumes b: "sim b (Some t)" and t: "fst (split_attributes t) = []"
  shows "\<exists>aid' alen' data b'. nan_attribute_read_next b aid alen w = Some (rx_result_val RX_TOO_SHORT, aid', alen', data, b')
    \<and> (0 < buf_rest b' \<longleftrightarrow> \<not> end_accepted (unat alen) t)"
proof -
  have wf: "wf_buf b" and inp: "inp b = t" using b by (simp_all add: sim_def)
  have room: "room b = length t" using length_inp [OF wf] inp by simp
  define b1 where "b1 = skip 1 b"
  have w1: "wf_buf b1" "inp b1 = drop 1 t" "room b1 = length t - 1" if "1 \<le> length t"
    unfolding b1_def using that room inp wf_buf_skip [OF wf, of 1] inp_skip [OF wf, of 1] room_skip [OF wf, of 1]
    by simp_all
  consider (none) "length t = 0" | (some) "length t = 1 \<or> length t = 2" | (header) "3 \<le> length t"
    by linarith
  then show ?thesis
  proof cases
    case none
    have "read_u8 b aid = Some (0, aid, failed b)" "read_le16 (failed b) alen = Some (0, alen, failed b)"
      using wf room none by (simp_all add: read_defs read_macro_wf)
    from read_next_failed [OF this, of w] wf room none show ?thesis by (auto simp: end_accepted_def)
  next
    case some
    then have u8: "read_u8 b aid = Some (1, hd (take 1 (inp b)), b1)"
      using wf room by (auto simp: read_defs read_macro_wf b1_def)
    have le16: "read_le16 b1 alen = Some (0, alen, failed b1)"
      using some w1 by (auto simp: read_defs read_macro_wf)
    from read_next_failed [OF u8 le16, of w] some w1 show ?thesis by (fastforce simp: end_accepted_def)
  next
    case header
    obtain i l m xs where x: "t = i # l # m # xs"
      using header by (cases t rule: split_attributes.cases) auto
    define b3 where "b3 = skip 2 b1"
    have w3: "wf_buf b3" "room b3 = length xs"
      unfolding b3_def
      using wf_buf_skip [of b1 2] room_skip [of b1 2] w1 x by simp_all
    have "read_u8 b aid = Some (1, hd (take 1 (inp b)), b1)"
      using wf room x by (simp add: read_defs read_macro_wf b1_def)
    moreover have "read_le16 b1 alen = Some (2, of_le_bytes [l, m], b3)"
      unfolding read_le16_def b3_def using w1 x by (simp add: read_macro_wf numeral_2_eq_2)
    moreover have short: "length xs < unat (of_le_bytes [l, m] :: u16)"
      using t unfolding x split_attributes.simps Let_def by (auto simp only: fst_conv list.distinct split: if_splits)
    ultimately have "\<exists>data b'. nan_attribute_read_next b aid alen w
        = Some (rx_result_val RX_TOO_SHORT, hd (take 1 (inp b)), of_le_bytes [l, m], data, b')
      \<and> (0 < buf_rest b' \<longleftrightarrow> length xs \<noteq> 0 \<and> unat (of_le_bytes [l, m] :: u16) \<noteq> length xs)"
      using read_next_failed [of b aid 1 "hd (take 1 (inp b))" b1 alen 2 "of_le_bytes [l, m]" b3 w] w3
      by (simp only: simp_thms)
    moreover have "end_accepted (unat alen) t \<longleftrightarrow> length xs = 0"
      by (simp add: x end_accepted_def)
    ultimately show ?thesis using short by (auto simp del: of_le_bytes.simps)
  qed
qed

lemma iterate_loop_stop:
  assumes "sim b (Some t)" "fst (split_attributes t) = []"
  shows "\<exists>b'. nan_iterate_loop handle b aid alen data result s = Some (result, b', s)
    \<and> (0 < buf_rest b' \<longleftrightarrow> \<not> end_accepted (unat alen) t)"
  using read_next_incomplete [OF assms, of aid alen data]
  by (auto simp: nan_iterate_loop.simps [of handle b])

locale attribute_handler =
  fixes handle :: "u8 \<Rightarrow> u16 \<Rightarrow> buf \<Rightarrow> 's \<Rightarrow> (int \<times> 's) option"
    and effect :: "u8 \<Rightarrow> u8 list \<Rightarrow> 'a \<Rightarrow> int \<times> 'a"
    and view :: "'s \<Rightarrow> 'a"
  assumes handled: "sim b (Some body) \<Longrightarrow> bcurrent b = 0 \<Longrightarrow> length body = unat alen \<Longrightarrow>
    \<exists>r s'. handle aid alen b s = Some (r, s') \<and> effect aid body (view s) = (r, view s')"
begin

lemma iterate_stop:
  "sim b (Some xs) \<Longrightarrow> split_attributes xs = ([], xs) \<Longrightarrow> \<exists>r s' b'. nan_iterate_loop handle b aid alen data result s = Some (r, b', s')
     \<and> fold_attributes effect (fst (split_attributes xs)) result (view s) = (r, view s')
     \<and> (0 \<le> r \<longrightarrow>
         (0 < buf_rest b' \<longleftrightarrow> \<not> end_accepted (last_length (unat alen) (fst (split_attributes xs)))
            (snd (split_attributes xs))))"
  using iterate_loop_stop [of b xs handle aid alen data result s] by (auto simp: last_length_def)

lemma iterate_loop:
  "sim b (Some xs) \<Longrightarrow> \<exists>r s' b'. nan_iterate_loop handle b aid alen data result s = Some (r, b', s')
     \<and> fold_attributes effect (fst (split_attributes xs)) result (view s) = (r, view s')
     \<and> (0 \<le> r \<longrightarrow>
         (0 < buf_rest b' \<longleftrightarrow> \<not> end_accepted (last_length (unat alen) (fst (split_attributes xs)))
            (snd (split_attributes xs))))"
proof (induction xs arbitrary: b aid alen data result s rule: split_attributes.induct)
  case (1 i l m xs)
  let ?ml = "of_le_bytes [l, m] :: u16"
  define n where "n = unat ?ml"
  show ?case
  proof (cases "n \<le> length xs")
    case False
    then have "split_attributes (i # l # m # xs) = ([], i # l # m # xs)"
      by (simp only: split_attributes.simps Let_def n_def [symmetric] if_False)
    then show ?thesis
      by (rule iterate_stop [OF "1.prems"])
  next
    case True
    have split: "split_attributes (i # l # m # xs)
        = ((i, take n xs) # fst (split_attributes (drop n xs)), snd (split_attributes (drop n xs)))"
      using True by (simp only: split_attributes.simps Let_def n_def [symmetric] if_True)
    obtain data' b' where rn: "nan_attribute_read_next b aid alen data = Some (3 + int n, i, ?ml, data', b')"
      and b': "sim b' (Some (drop n xs))" "bdata b' = bdata b"
      and new: "sim (buf_new_const (drop (unat data') (bdata b)) (ucast ?ml)) (Some (take n xs))"
      using read_next_complete [OF "1.prems" n_def True, of aid alen data] by blast
    obtain r s1 where handle: "handle i ?ml (buf_new_const (drop (unat data') (bdata b)) (ucast ?ml)) s = Some (r, s1)"
      and effect: "effect i (take n xs) (view s) = (r, view s1)"
      using handled [OF new, of ?ml i s] True by (auto simp: n_def buf_new_const_def simp del: of_le_bytes.simps)
    show ?thesis
    proof (cases "r < 0")
      case True
      then show ?thesis
        using rn handle effect
        by (simp add: nan_iterate_loop.simps [of handle b] split b'(2) del: of_le_bytes.simps split_attributes.simps)
    next
      case False
      have "last_length (unat alen) ((i, take n xs) # fst (split_attributes (drop n xs)))
          = last_length (unat ?ml) (fst (split_attributes (drop n xs)))"
        using True by (simp add: last_length_def n_def del: of_le_bytes.simps)
      then show ?thesis
        using rn handle effect False "1.IH"(1) [OF n_def True b'(1), of i ?ml data' r s1]
        by (simp add: nan_iterate_loop.simps [of handle b] split b'(2) del: of_le_bytes.simps split_attributes.simps)
    qed
  qed
qed (erule iterate_stop, simp)+

theorem iterate_attributes:
  assumes "sim b (Some xs)"
  shows "\<exists>r b' s'. NAN_ITERATE_ATTRIBUTES handle j b result s = Some (r, b', s')
    \<and> iterate_effect effect (unat (rj_u16 j)) xs result (view s) = (r, view s')"
  using iterate_loop [OF assms, of "rj_u8 j" "rj_u16 j" "rj_u64 j" result s]
  by (auto simp: NAN_ITERATE_ATTRIBUTES_def iterate_effect_def)

end

section \<open>The handlers satisfy the contract\<close>

interpretation beacon_attributes: attribute_handler "beacon_attribute j" beacon_effect "\<lambda>p. p" for j
proof unfold_locales
  fix b body alen aid and s :: nan_peer
  assume b: "sim b (Some body)"
  show "\<exists>r s'. beacon_attribute j aid alen b s = Some (r, s') \<and> beacon_effect aid body s = (r, s')"
    using nan_parse_master_indication_spec [OF b, of j s] nan_parse_cluster_spec [OF b, of j s]
    by (auto simp: beacon_attribute_def beacon_effect_def)
qed

text \<open>A field that starts with its length.\<close>

definition counted :: "u8 list \<Rightarrow> (u8 list \<times> u8 list) option" where
  "counted xs = (case xs of [] \<Rightarrow> None
     | n # ys \<Rightarrow> if unat n \<le> length ys then Some (take (unat n) ys, drop (unat n) ys) else None)"

text \<open>A service descriptor attribute; \<open>a\<close> is what the memory of the result held before.\<close>

definition sda_of :: "nan_service_descriptor_attribute \<Rightarrow> u8 list \<Rightarrow> nan_service_descriptor_attribute option" where
  "sda_of a body = (if length body < 9 then None else
     let c = body ! 8;
         a = a\<lparr>sda_service_id := take 6 body, sda_instance_id := body ! 6,
               sda_requestor_instance_id := body ! 7, sda_control := c\<rparr>
     in do { xs \<leftarrow> (if sdc_binding_bitmap_present c then skip_bytes 2 (drop 9 body) else Some (drop 9 body));
             xs \<leftarrow> (if sdc_matching_filter_present c then map_option snd (counted xs) else Some xs);
             xs \<leftarrow> (if sdc_service_response_filter_present c then map_option snd (counted xs) else Some xs);
             if sdc_service_info_present c
             then map_option (\<lambda>(info, _). a\<lparr>sda_service_info_length := of_nat (length info), sda_service_info := info\<rparr>)
                    (counted xs)
             else Some a })"

text \<open>
  A service descriptor extension attribute. When the length of the service information is
  below 4, the number of its bytes wraps around and nothing is noticed.
\<close>

definition sdea_of ::
  "nan_service_descriptor_extension_attribute \<Rightarrow> u8 list \<Rightarrow> nan_service_descriptor_extension_attribute option" where
  "sdea_of a body = (if length body < 3 then None else
     let c = of_le_bytes (take 2 (drop 1 body));
         p = 3 + (if sdec_range_limit_present c then 4 else 0);
         q = p + (if sdec_service_update_indicator_present c then 1 else 0);
         a = a\<lparr>sdea_instance_id := body ! 0, sdea_control := c\<rparr>;
         a = (if sdec_service_update_indicator_present c then a\<lparr>sdea_service_update_indicator := body ! p\<rparr> else a);
         n = (of_le_bytes (take 2 (drop q body)) :: u16)
     in if length body < q then None
        else if length body \<le> q + 2 then Some a
        else if length body < q + 6 + (unat n - 4) then None
        else Some (a\<lparr>sdea_oui := take 3 (drop (q + 2) body),
                     sdea_service_specific_info_length := word_of_int (uint n - 4),
                     sdea_service_specific_info := of_nat (q + 6)\<rparr>))"

definition service_discovery_effect :: "rx_junk \<Rightarrow> u8 \<Rightarrow> u8 list \<Rightarrow> descriptors \<Rightarrow> int \<times> descriptors" where
  "service_discovery_effect j aid body ds =
     (if aid = attribute_type_val SERVICE_DESCRIPTOR_ATTRIBUTE
      then (case sda_of (rj_sda j) body of None \<Rightarrow> (rx_result_val RX_TOO_SHORT, ds)
            | Some a \<Rightarrow> (rx_result_val RX_OK, fst ds @ [a], snd ds))
      else if aid = attribute_type_val SERVICE_DESCRIPTOR_EXTENSION_ATTRIBUTE
      then (case sdea_of (rj_sdea j) body of None \<Rightarrow> (rx_result_val RX_TOO_SHORT, ds)
            | Some a \<Rightarrow> (rx_result_val RX_OK, fst ds, snd ds @ [a]))
      else (rx_result_val RX_IGNORE, ds))"

text \<open>The arrays a parser copies into have their declared sizes.\<close>

definition junk_ok :: "rx_junk \<Rightarrow> bool" where
  "junk_ok j \<longleftrightarrow> length (rj_oui j) = OUI_LEN \<and> length (sda_service_id (rj_sda j)) = NAN_SERVICE_ID_LENGTH
     \<and> length (sdea_oui (rj_sdea j)) = OUI_LEN"

lemma sim_skip_counted:
  assumes "sim b i"
  shows "\<exists>b'. skip_counted j b = Some b' \<and> sim b' (Option.bind i (\<lambda>xs. map_option snd (counted xs)))"
proof -
  obtain r n b1 where 1: "read_u8 b (rj_u8 j) = Some (r, n, b1)" "sim b1 (step 1 i)"
      "\<forall>xs. i = Some xs \<longrightarrow> 1 \<le> length xs \<longrightarrow> n = hd (take 1 xs)"
    unfolding read_u8_def by (rule sim_readE [OF assms])
  have "sim (snd (buf_advance b1 (ucast n))) (step (unat n) (step 1 i))"
    using sim_advance [OF 1(2), of "ucast n"] small_u8 [of n] by (simp add: unat_ucast_u8)
  moreover have "step (unat n) (step 1 i) = Option.bind i (\<lambda>xs. map_option snd (counted xs))"
    using 1(3) by (cases i) (auto simp: skip_bytes_def counted_def split: list.splits)
  ultimately show ?thesis by (simp add: skip_counted_def 1(1))
qed

lemma sim_copyE:
  assumes "sim b i" "unat n < 2 ^ 31" "unat n = length dst"
  obtains r v b' where "read_bytes_copy b dst n = Some (r, v, b')" "sim b' (step (unat n) i)"
    "\<forall>xs. i = Some xs \<longrightarrow> unat n \<le> length xs \<longrightarrow> v = take (unat n) xs"
  using sim_read_copy [OF assms(1,2), of dst] assms(3) by auto

text \<open>The service information of a descriptor, at its end.\<close>

lemma sim_service_info:
  assumes b: "sim b i"
  shows "\<exists>a' b'. do { (_, n, b) \<leftarrow> read_u8 b (sda_service_info_length a);
                    (_, info, b) \<leftarrow> read_bytes_copy b (map (rj_mem j) [0..<unat n]) (ucast n);
                    Some (a\<lparr>sda_service_info_length := n, sda_service_info := info\<rparr>, b) } = Some (a', b')
    \<and> sim b' (Option.bind i (\<lambda>xs. map_option snd (counted xs)))
    \<and> (\<forall>xs info t. i = Some xs \<longrightarrow> counted xs = Some (info, t) \<longrightarrow>
        a' = a\<lparr>sda_service_info_length := of_nat (length info), sda_service_info := info\<rparr>)"
proof -
  obtain r n b1 where 1: "read_u8 b (sda_service_info_length a) = Some (r, n, b1)" "sim b1 (step 1 i)"
      "\<forall>xs. i = Some xs \<longrightarrow> 1 \<le> length xs \<longrightarrow> n = hd (take 1 xs)"
    unfolding read_u8_def by (rule sim_readE [OF b])
  obtain r2 info b2 where 2: "read_bytes_copy b1 (map (rj_mem j) [0..<unat n]) (ucast n) = Some (r2, info, b2)"
      "sim b2 (step (unat n) (step 1 i))"
      "\<forall>xs. step 1 i = Some xs \<longrightarrow> unat n \<le> length xs \<longrightarrow> info = take (unat n) xs"
    using sim_copyE [OF 1(2), of "ucast n" "map (rj_mem j) [0..<unat n]"] small_u8 [of n]
    by (auto simp: unat_ucast_u8)
  have "step (unat n) (step 1 i) = Option.bind i (\<lambda>xs. map_option snd (counted xs))"
    using 1(3) by (cases i) (auto simp: skip_bytes_def counted_def split: list.splits)
  moreover have "n = of_nat (length info') \<and> info = info'" if "i = Some xs" "counted xs = Some (info', t)" for xs info' t
    using that 1(3) 2(3) by (auto simp: skip_bytes_def counted_def split: list.splits if_splits)
  ultimately show ?thesis using 2(2) by (fastforce simp: 1(1) 2(1))
qed

lemma nan_parse_sda_spec:
  assumes b: "sim b (Some body)" and j: "junk_ok j"
  shows "\<exists>b'. nan_parse_sda j b sdas = Some
    (case sda_of (rj_sda j) body of None \<Rightarrow> (rx_result_val RX_TOO_SHORT, b', sdas)
     | Some a \<Rightarrow> (rx_result_val RX_OK, b', sdas @ [a]))"
proof -
  let ?a = "rj_sda j"
  obtain r1 sid b1 where 1: "read_bytes_copy b (sda_service_id ?a) (of_nat NAN_SERVICE_ID_LENGTH) = Some (r1, sid, b1)"
      "sim b1 (step 6 (Some body))" "\<forall>xs. Some body = Some xs \<longrightarrow> 6 \<le> length xs \<longrightarrow> sid = take 6 xs"
    using sim_copyE [OF b, of "of_nat NAN_SERVICE_ID_LENGTH" "sda_service_id ?a"] j
    by (auto simp: junk_ok_def)
  obtain r2 i b2 where 2: "read_u8 b1 (sda_instance_id ?a) = Some (r2, i, b2)" "sim b2 (step 1 (step 6 (Some body)))"
      "\<forall>xs. step 6 (Some body) = Some xs \<longrightarrow> 1 \<le> length xs \<longrightarrow> i = hd (take 1 xs)"
    unfolding read_u8_def by (rule sim_readE [OF 1(2)])
  obtain r3 q b3 where 3: "read_u8 b2 (sda_requestor_instance_id ?a) = Some (r3, q, b3)"
      "sim b3 (step 1 (step 1 (step 6 (Some body))))"
      "\<forall>xs. step 1 (step 6 (Some body)) = Some xs \<longrightarrow> 1 \<le> length xs \<longrightarrow> q = hd (take 1 xs)"
    unfolding read_u8_def by (rule sim_readE [OF 2(2)])
  obtain r4 c b4 where 4: "read_u8 b3 (sda_control ?a) = Some (r4, c, b4)"
      "sim b4 (step 1 (step 1 (step 1 (step 6 (Some body)))))"
      "\<forall>xs. step 1 (step 1 (step 6 (Some body))) = Some xs \<longrightarrow> 1 \<le> length xs \<longrightarrow> c = hd (take 1 xs)"
    unfolding read_u8_def by (rule sim_readE [OF 3(2)])
  define i4 where "i4 = (if length body < 9 then None else Some (drop 9 body))"
  have i4: "step 1 (step 1 (step 1 (step 6 (Some body)))) = i4"
    by (auto simp: i4_def skip_bytes_def)
  have v: "sid = take 6 body \<and> i = body ! 6 \<and> q = body ! 7 \<and> c = body ! 8" if "\<not> length body < 9"
  proof -
    have "step 6 (Some body) = Some (drop 6 body)" "step 1 (Some (drop 6 body)) = Some (drop 7 body)"
        "step 1 (Some (drop 7 body)) = Some (drop 8 body)"
      using that by (simp_all add: skip_bytes_def)
    then show ?thesis using that 1(3) 2(3) 3(3) 4(3) by (simp add: hd_drop_nth del: step_simps)
  qed
  define b5 where "b5 = (if sdc_binding_bitmap_present c then snd (buf_advance b4 2) else b4)"
  define i5 where "i5 = (if sdc_binding_bitmap_present c then step 2 i4 else i4)"
  have 5: "sim b5 i5"
    using 4(2) [unfolded i4] sim_advance [OF 4(2) [unfolded i4], of 2] by (simp add: b5_def i5_def)
  define i6 where "i6 = (if sdc_matching_filter_present c then Option.bind i5 (\<lambda>xs. map_option snd (counted xs)) else i5)"
  obtain b6 where 6: "(if sdc_matching_filter_present c then skip_counted j b5 else Some b5) = Some b6" "sim b6 i6"
    using 5 sim_skip_counted [OF 5, of j] by (cases "sdc_matching_filter_present c") (auto simp: i6_def)
  define i7 where "i7 = (if sdc_service_response_filter_present c then Option.bind i6 (\<lambda>xs. map_option snd (counted xs)) else i6)"
  obtain b7 where 7: "(if sdc_service_response_filter_present c then skip_counted j b6 else Some b6) = Some b7" "sim b7 i7"
    using 6(2) sim_skip_counted [OF 6(2), of j] by (cases "sdc_service_response_filter_present c") (auto simp: i7_def)
  define a where "a = ?a\<lparr>sda_service_id := sid, sda_instance_id := i, sda_requestor_instance_id := q, sda_control := c\<rparr>"
  define i8 where "i8 = (if sdc_service_info_present c then Option.bind i7 (\<lambda>xs. map_option snd (counted xs)) else i7)"
  obtain a8 b8 where 8: "(if sdc_service_info_present c
        then do { (_, n, b) \<leftarrow> read_u8 b7 (sda_service_info_length a);
                  (_, info, b) \<leftarrow> read_bytes_copy b (map (rj_mem j) [0..<unat n]) (ucast n);
                  Some (a\<lparr>sda_service_info_length := n, sda_service_info := info\<rparr>, b) }
        else Some (a, b7)) = Some (a8, b8)" "sim b8 i8"
      "\<forall>xs info t. sdc_service_info_present c \<longrightarrow> i7 = Some xs \<longrightarrow> counted xs = Some (info, t) \<longrightarrow>
        a8 = a\<lparr>sda_service_info_length := of_nat (length info), sda_service_info := info\<rparr>"
      "\<not> sdc_service_info_present c \<longrightarrow> a8 = a"
    using 7(2) sim_service_info [OF 7(2), of a j] by (cases "sdc_service_info_present c") (auto simp: i8_def)
  have parse: "nan_parse_sda j b sdas = Some
      (if i8 = None then (rx_result_val RX_TOO_SHORT, b8, sdas) else (rx_result_val RX_OK, b8, sdas @ [a8]))"
    unfolding nan_parse_sda_def Let_def 1(1) 2(1) 3(1) 4(1) Option.bind.simps prod.case
      b5_def [symmetric] 6(1) 7(1) a_def [symmetric] 8(1)
    using sim_error [OF 8(2)] by (simp only: if_distrib [of Some])
  show ?thesis
  proof (cases "length body < 9")
    case True
    then have "i8 = None" by (simp add: i8_def i7_def i6_def i5_def i4_def)
    then show ?thesis using True by (simp add: parse sda_of_def)
  next
    case False
    have "sda_of ?a body = (case i8 of None \<Rightarrow> None | Some _ \<Rightarrow> Some a8)"
    proof -
      have v': "sid = take 6 body" "i = body ! 6" "q = body ! 7" "body ! 8 = c" using v [OF False] by simp_all
      have i4': "i4 = Some (drop 9 body)" using False by (simp add: i4_def)
      have i5': "(if sdc_binding_bitmap_present c then skip_bytes 2 (drop 9 body) else Some (drop 9 body)) = i5"
        by (simp add: i5_def i4')
      have "Option.bind i5 (\<lambda>xs. if sdc_matching_filter_present c then map_option snd (counted xs) else Some xs) = i6"
        by (simp add: i6_def)
      moreover have "Option.bind i6 (\<lambda>xs. if sdc_service_response_filter_present c then map_option snd (counted xs) else Some xs) = i7"
        by (simp add: i7_def)
      ultimately have "sda_of ?a body = Option.bind i7 (\<lambda>xs. if sdc_service_info_present c
            then map_option (\<lambda>(info, _). a\<lparr>sda_service_info_length := of_nat (length info), sda_service_info := info\<rparr>)
                   (counted xs)
            else Some a)"
        using False
        by (simp only: sda_of_def Let_def v'(4) i5' if_False v'(1-3) [symmetric] a_def [symmetric] bind_assoc [symmetric])
      also have "\<dots> = (case i8 of None \<Rightarrow> None | Some _ \<Rightarrow> Some a8)"
        using 8(3,4) by (cases i7) (auto simp: i8_def split: option.splits)
      finally show ?thesis .
    qed
    then show ?thesis by (auto simp: parse split: option.splits)
  qed
qed

text \<open>How far a buffer has been read.\<close>

lemma bend_read: "read_macro n to b w = Some (r, v, b') \<Longrightarrow> bend b' = bend b"
  by (auto simp: read_macro_def get_bytes_def split: if_splits bind_splits)

lemma bend_advance: "bend (snd (buf_advance b n)) = bend b"
  by (simp add: buf_advance_def)

lemma sim_consumed:
  assumes b: "sim b (Some ys)" and b': "sim b' (Some (drop k ys))" and "bend b' = bend b" "k \<le> length ys"
  shows "bcurrent b' = bcurrent b + of_nat k" "unat (bcurrent b') = unat (bcurrent b) + k"
proof -
  have "room b = length ys" "room b' = length ys - k"
    using length_inp [OF sim_wf [OF b]] length_inp [OF sim_wf [OF b']] b b' by (simp_all add: sim_def)
  moreover have "unat (bcurrent b) \<le> nat (bend b)" "unat (bcurrent b') \<le> nat (bend b')"
    using b b' by (simp_all add: sim_def wf_buf_def)
  ultimately show "unat (bcurrent b') = unat (bcurrent b) + k"
    using assms(3,4) by (simp add: room_def)
  then show "bcurrent b' = bcurrent b + of_nat k"
    using unat_skip [OF sim_wf [OF b], of k] assms(4) \<open>room b = length ys\<close> by (simp add: word_unat_eq_iff)
qed

lemma read_bytes_info:
  assumes b: "sim b i" and c: "i \<noteq> None \<Longrightarrow> 4 \<le> unat (bcurrent b)"
  shows "buf_error (snd (snd (read_bytes b w (word_of_int (uint (n :: u16) - 4))))) \<noteq> 0
      \<longleftrightarrow> (case i of None \<Rightarrow> True | Some xs \<Rightarrow> length xs < unat n - 4)"
    and "\<And>xs. i = Some xs \<Longrightarrow> unat n - 4 \<le> length xs \<Longrightarrow>
      fst (snd (read_bytes b w (word_of_int (uint n - 4)))) = bcurrent b"
proof -
  let ?m = "word_of_int (uint n - 4) :: size_t"
  have "(buf_error (snd (snd (read_bytes b w ?m))) \<noteq> 0
      \<longleftrightarrow> (case i of None \<Rightarrow> True | Some xs \<Rightarrow> length xs < unat n - 4))
    \<and> (\<forall>xs. i = Some xs \<longrightarrow> unat n - 4 \<le> length xs \<longrightarrow> fst (snd (read_bytes b w ?m)) = bcurrent b)"
  proof (cases "4 \<le> unat n")
    case True
    then have "uint n - 4 = int (unat n - 4)" by (simp add: of_nat_diff)
    then have m: "?m = of_nat (unat n - 4)" by simp
    have "unat n - 4 < 2 ^ 31" using small_u16 [of n] by simp
    then have "unat ?m = unat n - 4" "unat ?m < 2 ^ 31" unfolding m by (simp_all add: unat_size_of_nat)
    then show ?thesis
      using b length_inp [OF sim_wf [OF b]]
      by (auto simp: read_bytes_wf sim_def buf_error_def not_le split: option.splits)
  next
    case False
    then have "uint n - 4 = - int (4 - unat n)" by (simp add: of_nat_diff)
    then have m: "?m = - of_nat (4 - unat n)" by simp
    show ?thesis
    proof (cases i)
      case None
      then show ?thesis using b by (simp add: sim_def error_after_read_bytes buf_error_def)
    next
      case (Some xs)
      have "0 < 4 - unat n" "4 - unat n \<le> unat (bcurrent b)" using c Some False by simp_all
      then obtain b' where "read_bytes b w ?m = (- int (4 - unat n), bcurrent b, b')" "berror b' = berror b"
        using read_bytes_backwards [OF sim_wf [OF b], of "4 - unat n" w] unfolding m by blast
      then show ?thesis using Some b False by (simp add: sim_def buf_error_def)
    qed
  qed
  then show "buf_error (snd (snd (read_bytes b w ?m))) \<noteq> 0
      \<longleftrightarrow> (case i of None \<Rightarrow> True | Some xs \<Rightarrow> length xs < unat n - 4)"
    and "\<And>xs. i = Some xs \<Longrightarrow> unat n - 4 \<le> length xs \<Longrightarrow> fst (snd (read_bytes b w ?m)) = bcurrent b"
    by blast+
qed

lemma sim_sdea_info:
  assumes b: "sim b i" and a: "length (sdea_oui a) = OUI_LEN"
  shows "\<exists>(n :: u16) oui p b'. do { (_, n, b) \<leftarrow> read_le16 b (rj_u16 j);
                    (_, oui, b) \<leftarrow> read_bytes_copy b (sdea_oui a) (of_nat OUI_LEN);
                    let b = snd (buf_advance b 1);
                    let info_length = word_of_int (uint n - 4);
                    let (_, info, b) = read_bytes b (sdea_service_specific_info a) info_length;
                    Some (a\<lparr>sdea_oui := oui, sdea_service_specific_info_length := info_length,
                            sdea_service_specific_info := info\<rparr>, b) }
      = Some (a\<lparr>sdea_oui := oui, sdea_service_specific_info_length := word_of_int (uint n - 4),
                sdea_service_specific_info := p\<rparr>, b')
    \<and> (buf_error b' = 0 \<longleftrightarrow> (\<exists>xs. i = Some xs \<and> 6 + (unat (of_le_bytes (take 2 xs) :: u16) - 4) \<le> length xs))
    \<and> (buf_error b' = 0 \<longrightarrow> n = of_le_bytes (take 2 (the i)) \<and> oui = take 3 (drop 2 (the i))
        \<and> p = bcurrent b + 6)"
proof -
  obtain r1 n b1 where 1: "read_le16 b (rj_u16 j) = Some (r1, n, b1)" "sim b1 (step 2 i)"
      "\<forall>xs. i = Some xs \<longrightarrow> 2 \<le> length xs \<longrightarrow> n = of_le_bytes (take 2 xs)"
    unfolding read_le16_def by (rule sim_readE [OF b])
  obtain r2 oui b2 where 2: "read_bytes_copy b1 (sdea_oui a) (of_nat OUI_LEN) = Some (r2, oui, b2)"
      "sim b2 (step 3 (step 2 i))" "\<forall>xs. step 2 i = Some xs \<longrightarrow> 3 \<le> length xs \<longrightarrow> oui = take 3 xs"
    using sim_copyE [OF 1(2), of "of_nat OUI_LEN" "sdea_oui a"] a by auto
  define b3 where "b3 = snd (buf_advance b2 1)"
  have 3: "sim b3 (step 1 (step 3 (step 2 i)))"
    using sim_advance [OF 2(2), of 1] by (simp add: b3_def)
  have bend: "bend b3 = bend b"
    using 1(1) 2(1) by (auto simp: b3_def bend_advance read_le16_def read_bytes_copy_def mem_store_def
        split: if_splits bind_splits dest: bend_read)
  have cursor: "bcurrent b3 = bcurrent b + 6 \<and> 4 \<le> unat (bcurrent b3)"
    if "step 1 (step 3 (step 2 i)) \<noteq> None"
  proof -
    from that obtain ys where ys: "i = Some ys" "6 \<le> length ys" "step 1 (step 3 (step 2 i)) = Some (drop 6 ys)"
      by (cases i) (auto simp: skip_bytes_def split: if_splits)
    show ?thesis
      using sim_consumed [of b ys b3 6] b 3 [unfolded ys(3)] ys(1,2) bend by simp
  qed
  define rb where "rb = read_bytes b3 (sdea_service_specific_info a) (word_of_int (uint n - 4))"
  have run: "do { (_, n, b) \<leftarrow> read_le16 b (rj_u16 j);
                (_, oui, b) \<leftarrow> read_bytes_copy b (sdea_oui a) (of_nat OUI_LEN);
                let b = snd (buf_advance b 1);
                let info_length = word_of_int (uint n - 4);
                let (_, info, b) = read_bytes b (sdea_service_specific_info a) info_length;
                Some (a\<lparr>sdea_oui := oui, sdea_service_specific_info_length := info_length,
                        sdea_service_specific_info := info\<rparr>, b) }
      = Some (a\<lparr>sdea_oui := oui, sdea_service_specific_info_length := word_of_int (uint n - 4),
                sdea_service_specific_info := fst (snd rb)\<rparr>, snd (snd rb))"
    unfolding 1(1) 2(1) Option.bind.simps prod.case Let_def b3_def [symmetric] rb_def [symmetric]
    by (simp only: split_beta)
  note info = read_bytes_info [OF 3, where w = "sdea_service_specific_info a" and n = n, folded rb_def]
  have "(buf_error (snd (snd rb)) = 0 \<longleftrightarrow> (\<exists>xs. i = Some xs \<and> 6 + (unat (of_le_bytes (take 2 xs) :: u16) - 4) \<le> length xs))
    \<and> (buf_error (snd (snd rb)) = 0 \<longrightarrow> n = of_le_bytes (take 2 (the i)) \<and> oui = take 3 (drop 2 (the i))
        \<and> fst (snd rb) = bcurrent b + 6)"
  proof (cases "\<exists>xs. i = Some xs \<and> 6 \<le> length xs")
    case True
    then obtain xs where xs: "i = Some xs" "6 \<le> length xs" by blast
    then have s: "step 1 (step 3 (step 2 i)) = Some (drop 6 xs)" by (auto simp: skip_bytes_def)
    have n: "n = of_le_bytes (take 2 xs)" "oui = take 3 (drop 2 xs)"
      using 1(3) 2(3) xs by (auto simp: skip_bytes_def)
    show ?thesis
      using info(1) [OF cursor [THEN conjunct2], unfolded s option.case]
        info(2) [OF cursor [THEN conjunct2] s] cursor [unfolded s] xs n
      by (auto simp: not_less)
  next
    case False
    then have s: "step 1 (step 3 (step 2 i)) = None" by (cases i) (auto simp: skip_bytes_def)
    show ?thesis using info(1) [OF cursor [THEN conjunct2], unfolded s option.case] False by auto
  qed
  then show ?thesis unfolding run
    by (intro exI [of _ n] exI [of _ oui] exI [of _ "fst (snd rb)"] exI [of _ "snd (snd rb)"] conjI [OF refl])
qed

text \<open>The input after \<open>k\<close> bytes.\<close>

definition at_byte :: "u8 list \<Rightarrow> nat \<Rightarrow> u8 list option" where
  "at_byte body k = (if length body < k then None else Some (drop k body))"

lemma step_at: "step n (at_byte body k) = at_byte body (k + n)"
  by (auto simp: at_byte_def skip_bytes_def add.commute)

lemma at_0: "at_byte body 0 = Some body"
  by (simp add: at_byte_def)

lemma sim_readE_at:
  assumes "sim b (at_byte body k)"
  obtains r v b' where "read_macro n to b w = Some (r, v, b')" "sim b' (at_byte body (k + n))"
    "k + n \<le> length body \<longrightarrow> v = to (take n (drop k body))" "bend b' = bend b"
proof (rule sim_readE [OF assms, of n to w])
  fix r v b'
  assume "read_macro n to b w = Some (r, v, b')" "sim b' (step n (at_byte body k))"
    "\<forall>xs. at_byte body k = Some xs \<longrightarrow> n \<le> length xs \<longrightarrow> v = to (take n xs)"
  then show ?thesis
    by (intro that [of r v b']) (auto simp: step_at bend_read, auto simp: at_byte_def)
qed

lemma sim_copyE_at:
  assumes "sim b (at_byte body k)" "length dst = OUI_LEN"
  obtains r v b' where "read_bytes_copy b dst (of_nat OUI_LEN) = Some (r, v, b')" "sim b' (at_byte body (k + 3))"
    "k + 3 \<le> length body \<longrightarrow> v = take 3 (drop k body)"
proof (rule sim_copyE [OF assms(1), of "of_nat OUI_LEN" dst])
  fix r v b'
  assume a: "read_bytes_copy b dst (of_nat OUI_LEN) = Some (r, v, b')"
    "sim b' (step (unat (of_nat OUI_LEN :: size_t)) (at_byte body k))"
    "\<forall>ys. at_byte body k = Some ys \<longrightarrow> unat (of_nat OUI_LEN :: size_t) \<le> length ys \<longrightarrow>
      v = take (unat (of_nat OUI_LEN :: size_t)) ys"
  have "sim b' (at_byte body (k + 3))" using a(2) by (simp add: step_at)
  with a(1,3) show ?thesis by (intro that [of r v b']) (auto simp: at_byte_def)
qed (use assms(2) in simp_all)

lemma sim_advance_at:
  "sim b (at_byte body k) \<Longrightarrow> unat n < 2 ^ 31 \<Longrightarrow> sim (snd (buf_advance b n)) (at_byte body (k + unat n))"
  using sim_advance [of b "at_byte body k" n] by (simp add: step_at)

lemma sim_range_limit: "sim b (at_byte body k) \<Longrightarrow> sim (snd (buf_advance b 4)) (at_byte body (k + 4))"
  using sim_advance_at [of b body k 4] by simp

lemma nan_parse_sdea_spec:
  assumes b: "sim b (Some body)" "bcurrent b = 0" and j: "junk_ok j" and len: "unat len = length body"
  shows "\<exists>b'. nan_parse_sdea j b len sdeas = Some
    (case sdea_of (rj_sdea j) body of None \<Rightarrow> (rx_result_val RX_TOO_SHORT, b', sdeas)
     | Some a \<Rightarrow> (rx_result_val RX_OK, b', sdeas @ [a]))"
proof -
  let ?a = "rj_sdea j"
  have 0: "sim b (at_byte body 0)" using b(1) by (simp add: at_0)
  obtain r1 i b1 where 1: "read_u8 b (sdea_instance_id ?a) = Some (r1, i, b1)" "sim b1 (at_byte body (0 + 1))"
      "0 + 1 \<le> length body \<longrightarrow> i = hd (take 1 (drop 0 body))" "bend b1 = bend b"
    unfolding read_u8_def by (rule sim_readE_at [OF 0])
  obtain r2 c b2 where 2: "read_le16 b1 (sdea_control ?a) = Some (r2, c, b2)" "sim b2 (at_byte body (0 + 1 + 2))"
      "0 + 1 + 2 \<le> length body \<longrightarrow> c = of_le_bytes (take 2 (drop (0 + 1) body))" "bend b2 = bend b1"
    unfolding read_le16_def by (rule sim_readE_at [OF 1(2)])
  define a where "a = ?a\<lparr>sdea_instance_id := i, sdea_control := c\<rparr>"
  define p where "p = 3 + (if sdec_range_limit_present c then 4 else 0 :: nat)"
  define q where "q = p + (if sdec_service_update_indicator_present c then 1 else 0 :: nat)"
  define b3 where "b3 = (if sdec_range_limit_present c then snd (buf_advance b2 4) else b2)"
  have 3: "sim b3 (at_byte body p)" "bend b3 = bend b"
    using 2(2) sim_range_limit [OF 2(2)] 2(4) 1(4) by (simp_all add: b3_def p_def bend_advance numeral_3_eq_3)
  have v: "i = body ! 0 \<and> c = of_le_bytes (take 2 (drop 1 body))" if "\<not> length body < 3"
    using that 1(3) 2(3) by (auto simp: hd_nth)
  define a4 where "a4 = (if sdec_service_update_indicator_present c
      then a\<lparr>sdea_service_update_indicator := body ! p\<rparr> else a)"
  obtain u b4 where 4: "(if sdec_service_update_indicator_present c
        then do { (_, u, b) \<leftarrow> read_u8 b3 (sdea_service_update_indicator a);
                  Some (a\<lparr>sdea_service_update_indicator := u\<rparr>, b) }
        else Some (a, b3)) = Some (u, b4)" "sim b4 (at_byte body q)" "q \<le> length body \<longrightarrow> u = a4"
      "sdea_oui u = sdea_oui ?a" "bend b4 = bend b"
  proof (cases "sdec_service_update_indicator_present c")
    case True
    obtain r u b4 where "read_u8 b3 (sdea_service_update_indicator a) = Some (r, u, b4)"
        "sim b4 (at_byte body (p + 1))" "p + 1 \<le> length body \<longrightarrow> u = hd (take 1 (drop p body))" "bend b4 = bend b3"
      unfolding read_u8_def by (rule sim_readE_at [OF 3(1)])
    then show ?thesis
      using True 3(2)
      by (intro that [of "a\<lparr>sdea_service_update_indicator := u\<rparr>" b4]) (auto simp: a4_def q_def a_def hd_drop_nth)
  next
    case False
    then show ?thesis using 3 by (intro that [of a b3]) (auto simp: a4_def q_def a_def)
  qed
  have "bend b = int (length body)"
    using b length_inp [OF sim_wf [OF b(1)]] by (auto simp: sim_def room_def wf_buf_def)
  then have pos: "buf_position b4 + 2 < len \<longleftrightarrow> \<not> length body \<le> q + 2" "bcurrent b4 = of_nat q"
    if "\<not> length body < q"
  proof -
    have k: "bcurrent b4 = of_nat q" "unat (bcurrent b4) = q"
      using sim_consumed [of b body b4 q] b 4(2,5) that by (simp_all add: at_byte_def)
    have "q \<le> 8" by (simp add: q_def p_def)
    then show "buf_position b4 + 2 < len \<longleftrightarrow> \<not> length body \<le> q + 2"
      using k(2) wf_buf_position [OF sim_wf [OF 4(2)]] len
      by (simp add: word_less_nat_alt unat_word_ariths not_le)
    show "bcurrent b4 = of_nat q" by (rule k(1))
  qed
  have "length (sdea_oui u) = OUI_LEN" using j 4(4) by (simp add: junk_ok_def)
  from sim_sdea_info [OF 4(2) this, of j] obtain n :: u16 and oui w b5 where
    5: "do { (_, n, b) \<leftarrow> read_le16 b4 (rj_u16 j);
           (_, oui, b) \<leftarrow> read_bytes_copy b (sdea_oui u) (of_nat OUI_LEN);
           let b = snd (buf_advance b 1);
           let info_length = word_of_int (uint n - 4);
           let (_, info, b) = read_bytes b (sdea_service_specific_info u) info_length;
           Some (u\<lparr>sdea_oui := oui, sdea_service_specific_info_length := info_length,
                   sdea_service_specific_info := info\<rparr>, b) }
        = Some (u\<lparr>sdea_oui := oui, sdea_service_specific_info_length := word_of_int (uint n - 4),
                  sdea_service_specific_info := w\<rparr>, b5)"
    "buf_error b5 = 0 \<longleftrightarrow> (\<exists>xs. at_byte body q = Some xs \<and> 6 + (unat (of_le_bytes (take 2 xs) :: u16) - 4) \<le> length xs)"
    "buf_error b5 = 0 \<longrightarrow> n = of_le_bytes (take 2 (the (at_byte body q)))
        \<and> oui = take 3 (drop 2 (the (at_byte body q))) \<and> w = bcurrent b4 + 6"
    by (elim exE conjE) (rule that)
  have parse: "nan_parse_sdea j b len sdeas =
     (let (a, b) = (if buf_position b4 + 2 < len
          then (u\<lparr>sdea_oui := oui, sdea_service_specific_info_length := word_of_int (uint n - 4),
                  sdea_service_specific_info := w\<rparr>, b5) else (u, b4))
      in if buf_error b \<noteq> 0 then Some (rx_result_val RX_TOO_SHORT, b, sdeas)
         else Some (rx_result_val RX_OK, b, sdeas @ [a]))"
    unfolding nan_parse_sdea_def 1(1) 2(1) Option.bind.simps prod.case Let_def a_def [symmetric] b3_def [symmetric] 4(1)
    by (cases "buf_position b4 + 2 < len") (simp_all only: if_True if_False 5(1) [unfolded Let_def] Option.bind.simps prod.case)
  have sdea: "sdea_of ?a body = (let n = (of_le_bytes (take 2 (drop q body)) :: u16) in
        if length body < q then None
        else if length body \<le> q + 2 then Some a4
        else if length body < q + 6 + (unat n - 4) then None
        else Some (a4\<lparr>sdea_oui := take 3 (drop (q + 2) body),
                     sdea_service_specific_info_length := word_of_int (uint n - 4),
                     sdea_service_specific_info := of_nat (q + 6)\<rparr>))"
  proof (cases "length body < 3")
    case True
    then show ?thesis by (simp add: sdea_of_def q_def p_def)
  next
    case False
    then have v': "i = body ! 0" "of_le_bytes (take 2 (drop 1 body)) = c" using v by simp_all
    show ?thesis
      using False
      by (simp only: sdea_of_def Let_def v'(2) v'(1) [symmetric] p_def [symmetric] q_def [symmetric] a_def [symmetric]
          a4_def [symmetric] if_False)
  qed
  show ?thesis
  proof (cases "length body < q")
    case True
    then have "buf_error b4 \<noteq> 0" "buf_error b5 \<noteq> 0"
      using 5(2) sim_error [OF 4(2)] by (simp_all add: at_byte_def)
    then show ?thesis using True by (simp add: parse sdea Let_def)
  next
    case False
    then have "buf_error b4 = 0" "u = a4" using 4(3) sim_error [OF 4(2)] by (simp_all add: at_byte_def)
    then show ?thesis
      using 5(2,3) False pos [OF False]
      by (auto simp: parse sdea Let_def at_byte_def add.commute)
  qed
qed

text \<open>
  The handler of a service discovery frame needs arrays of their declared sizes; \<open>sized\<close> cuts or
  fills arbitrary contents to these sizes.
\<close>

definition fill :: "nat \<Rightarrow> u8 list \<Rightarrow> u8 list" where
  "fill n xs = take n (xs @ replicate n 0)"

definition sized :: "rx_junk \<Rightarrow> rx_junk" where
  "sized j = j\<lparr>rj_oui := fill OUI_LEN (rj_oui j),
     rj_sda := (rj_sda j)\<lparr>sda_service_id := fill NAN_SERVICE_ID_LENGTH (sda_service_id (rj_sda j))\<rparr>,
     rj_sdea := (rj_sdea j)\<lparr>sdea_oui := fill OUI_LEN (sdea_oui (rj_sdea j))\<rparr>\<rparr>"

lemma length_fill: "length (fill n xs) = n"
  by (simp add: fill_def)

lemma fill_same: "length xs = n \<Longrightarrow> fill n xs = xs"
  by (simp add: fill_def)

lemma junk_ok_sized: "junk_ok (sized j)"
  by (simp add: junk_ok_def sized_def length_fill)

lemma sized_same: "junk_ok j \<Longrightarrow> sized j = j"
  by (simp add: junk_ok_def sized_def fill_same)

interpretation service_discovery_attributes:
  attribute_handler "service_discovery_attribute (sized j)" "service_discovery_effect (sized j)" "\<lambda>ds. ds" for j
proof unfold_locales
  fix b body aid and alen :: u16 and s :: descriptors
  assume b: "sim b (Some body)" "bcurrent b = 0" "length body = unat alen"
  have len: "unat (ucast alen :: size_t) = length body" using b(3) by (simp add: unat_ucast_u16)
  show "\<exists>r s'. service_discovery_attribute (sized j) aid alen b s = Some (r, s')
      \<and> service_discovery_effect (sized j) aid body s = (r, s')"
    using nan_parse_sda_spec [OF b(1) junk_ok_sized, of j "fst s"]
      nan_parse_sdea_spec [OF b(1,2) junk_ok_sized len, of j "snd s"]
    by (auto simp: service_discovery_attribute_def service_discovery_effect_def split: option.splits)
qed

section \<open>What a frame's attributes amount to\<close>

lemma beacon_iterate:
  assumes "sim b (Some xs)"
  shows "\<exists>b'. NAN_ITERATE_ATTRIBUTES (beacon_attribute j) j b result peer
    = Some (fst (iterate_effect beacon_effect (unat (rj_u16 j)) xs result peer), b',
            snd (iterate_effect beacon_effect (unat (rj_u16 j)) xs result peer))"
  using beacon_attributes.iterate_attributes [OF assms, of j j result peer] by auto

lemma service_discovery_iterate:
  assumes "sim b (Some xs)" "junk_ok j"
  shows "\<exists>b'. NAN_ITERATE_ATTRIBUTES (service_discovery_attribute j) j b result ds
    = Some (fst (iterate_effect (service_discovery_effect j) (unat (rj_u16 j)) xs result ds), b',
            snd (iterate_effect (service_discovery_effect j) (unat (rj_u16 j)) xs result ds))"
  using service_discovery_attributes.iterate_attributes [OF assms(1), of j j result ds] assms(2)
  by (auto simp: sized_same)

section \<open>The header of a beacon\<close>

text \<open>
  Time stamp, interval, capability, element id and length, OUI and type; of the last four only
  the OUI and its type are looked at.
\<close>

definition beacon_header_of :: "u8 list \<Rightarrow> int \<times> u64" where
  "beacon_header_of xs =
     (if length xs < 18 then (rx_result_val RX_TOO_SHORT, of_le_bytes (take 8 xs))
      else (if \<not> oui_equal (oui_of (take 3 (drop 14 xs))) NAN_OUI \<or> xs ! 17 \<noteq> NAN_OUI_TYPE_BEACON
            then rx_result_val RX_IGNORE_OUI
            else if nan_get_beacon_type (of_le_bytes (take 2 (drop 8 xs))) < 0
            then rx_result_val RX_UNEXPECTED_TYPE else rx_result_val RX_OK,
            of_le_bytes (take 8 xs)))"

lemma nan_parse_beacon_header_spec:
  assumes b: "sim b (Some xs)" and j: "junk_ok j"
  shows "\<exists>r bt ts b'. nan_parse_beacon_header j b bt0 ts0 = Some (r, bt, ts, b')
    \<and> r = fst (beacon_header_of xs)
    \<and> (r = rx_result_val RX_OK \<longrightarrow> bt = nan_get_beacon_type (of_le_bytes (take 2 (drop 8 xs)))
        \<and> ts = of_le_bytes (take 8 xs) \<and> sim b' (Some (drop 18 xs)))"
proof -
  have 0: "sim b (at_byte xs 0)" using b by (simp add: at_0)
  obtain r1 ts b1 where 1: "read_le64 b ts0 = Some (r1, ts, b1)" "sim b1 (at_byte xs (0 + 8))"
      "0 + 8 \<le> length xs \<longrightarrow> ts = of_le_bytes (take 8 (drop 0 xs))" "bend b1 = bend b"
    unfolding read_le64_def by (rule sim_readE_at [OF 0])
  obtain r2 iv b2 where 2: "read_le16 b1 (rj_u16 j) = Some (r2, iv, b2)" "sim b2 (at_byte xs (0 + 8 + 2))"
      "0 + 8 + 2 \<le> length xs \<longrightarrow> iv = of_le_bytes (take 2 (drop (0 + 8) xs))" "bend b2 = bend b1"
    unfolding read_le16_def by (rule sim_readE_at [OF 1(2)])
  obtain r3 cap b3 where 3: "read_le16 b2 (rj_u16 j) = Some (r3, cap, b3)" "sim b3 (at_byte xs (0 + 8 + 2 + 2))"
      "0 + 8 + 2 + 2 \<le> length xs \<longrightarrow> cap = of_le_bytes (take 2 (drop (0 + 8 + 2) xs))" "bend b3 = bend b2"
    unfolding read_le16_def by (rule sim_readE_at [OF 2(2)])
  obtain r4 eid b4 where 4: "read_u8 b3 (rj_u8 j) = Some (r4, eid, b4)" "sim b4 (at_byte xs (0 + 8 + 2 + 2 + 1))"
      "0 + 8 + 2 + 2 + 1 \<le> length xs \<longrightarrow> eid = hd (take 1 (drop (0 + 8 + 2 + 2) xs))" "bend b4 = bend b3"
    unfolding read_u8_def by (rule sim_readE_at [OF 3(2)])
  obtain r5 len b5 where 5: "read_u8 b4 (rj_u8 j) = Some (r5, len, b5)" "sim b5 (at_byte xs (0 + 8 + 2 + 2 + 1 + 1))"
      "0 + 8 + 2 + 2 + 1 + 1 \<le> length xs \<longrightarrow> len = hd (take 1 (drop (0 + 8 + 2 + 2 + 1) xs))" "bend b5 = bend b4"
    unfolding read_u8_def by (rule sim_readE_at [OF 4(2)])
  have l: "length (rj_oui j) = OUI_LEN" using j by (simp add: junk_ok_def)
  obtain r6 oui b6 where 6: "read_bytes_copy b5 (rj_oui j) (of_nat OUI_LEN) = Some (r6, oui, b6)"
      "sim b6 (at_byte xs (0 + 8 + 2 + 2 + 1 + 1 + 3))"
      "0 + 8 + 2 + 2 + 1 + 1 + 3 \<le> length xs \<longrightarrow> oui = take 3 (drop (0 + 8 + 2 + 2 + 1 + 1) xs)"
    by (rule sim_copyE_at [OF 5(2) l])
  obtain r7 oui_type b7 where 7: "read_u8 b6 (rj_u8 j) = Some (r7, oui_type, b7)" "sim b7 (at_byte xs (0 + 8 + 2 + 2 + 1 + 1 + 3 + 1))"
      "0 + 8 + 2 + 2 + 1 + 1 + 3 + 1 \<le> length xs \<longrightarrow> oui_type = hd (take 1 (drop (0 + 8 + 2 + 2 + 1 + 1 + 3) xs))" "bend b7 = bend b6"
    unfolding read_u8_def by (rule sim_readE_at [OF 6(2)])
  have e: "buf_error b7 \<noteq> 0 \<longleftrightarrow> length xs < 18"
    unfolding sim_error [OF 7(2)] by (simp add: at_byte_def)
  have v: "ts = of_le_bytes (take 8 xs) \<and> iv = of_le_bytes (take 2 (drop 8 xs)) \<and> oui = take 3 (drop 14 xs)
      \<and> oui_type = xs ! 17 \<and> sim b7 (Some (drop 18 xs))" if "\<not> length xs < 18"
    using that 1(3) 2(3) 6(3) 7(2,3) by (simp add: hd_drop_nth at_byte_def)
  show ?thesis
    unfolding nan_parse_beacon_header_def 1(1) 2(1) 3(1) 4(1) 5(1) 6(1) 7(1) Option.bind.simps prod.case e
      beacon_header_of_def
    using v by (cases "length xs < 18") (auto simp: Let_def)
qed

section \<open>Properties\<close>

text \<open>
  C3: Over any bytes the iteration over the attributes of a beacon ends, reads nothing
  outside the frame, and amounts to handling the attributes the bytes split into in order; the
  only incomplete ends it accepts are those of \<open>end_accepted\<close>.
\<close>

theorem beacon_attributes_refine:
  assumes "wf_buf frame" "berror frame = 0"
  shows "\<exists>frame'. NAN_ITERATE_ATTRIBUTES (beacon_attribute j) j frame result peer
    = Some (fst (iterate_effect beacon_effect (unat (rj_u16 j)) (inp frame) result peer), frame',
            snd (iterate_effect beacon_effect (unat (rj_u16 j)) (inp frame) result peer))"
  using assms by (intro beacon_iterate) (simp add: sim_def)

theorem beacon_attributes_refine_witness:
  "\<forall>j peer. \<exists>frame'. NAN_ITERATE_ATTRIBUTES (beacon_attribute j) j (buf_new_const [0, 2, 0, 128, 5, 9] 6) 0 peer
     = Some (rx_result_val RX_OK, frame', nan_peer_set_master_indication peer 128 5)"
proof (intro allI)
  fix j :: rx_junk and peer :: nan_peer
  have new: "wf_buf (buf_new_const [0, 2, 0, 128, 5, 9] 6)" "berror (buf_new_const [0, 2, 0, 128, 5, 9] 6) = 0"
      "inp (buf_new_const [0, 2, 0, 128, 5, 9] 6) = [0, 2, 0, 128, 5, 9]"
    using buf_new_const_wf [of 6 "[0, 2, 0, 128, 5, 9]"] by simp_all
  have "iterate_effect beacon_effect (unat (rj_u16 j)) [0, 2, 0, 128, 5, 9] 0 peer
      = (rx_result_val RX_OK, nan_peer_set_master_indication peer 128 5)"
    by (simp add: iterate_effect_def beacon_effect_def master_indication_effect_def end_accepted_def)
  then show "\<exists>frame'. NAN_ITERATE_ATTRIBUTES (beacon_attribute j) j (buf_new_const [0, 2, 0, 128, 5, 9] 6) 0 peer
     = Some (rx_result_val RX_OK, frame', nan_peer_set_master_indication peer 128 5)"
    using beacon_attributes_refine [OF new(1,2), of j 0 peer] by (simp add: new(3))
qed

text \<open>
  C8: The same holds for the attributes of a service discovery frame: the descriptors that are
  collected are those the bytes of each attribute encode, and the parser stops at the first
  attribute that is too short.
\<close>

theorem service_discovery_attributes_refine:
  assumes "wf_buf frame" "berror frame = 0" "junk_ok j"
  shows "\<exists>frame'. NAN_ITERATE_ATTRIBUTES (service_discovery_attribute j) j frame result ds
    = Some (fst (iterate_effect (service_discovery_effect j) (unat (rj_u16 j)) (inp frame) result ds), frame',
            snd (iterate_effect (service_discovery_effect j) (unat (rj_u16 j)) (inp frame) result ds))"
  using assms by (intro service_discovery_iterate) (simp_all add: sim_def)

text \<open>A descriptor of service 1..6 with the service information 7, 8.\<close>

theorem service_discovery_attributes_refine_witness:
  "\<forall>j. \<exists>frame'. NAN_ITERATE_ATTRIBUTES (service_discovery_attribute (sized j)) (sized j)
       (buf_new_const [3, 12, 0, 1, 2, 3, 4, 5, 6, 9, 0, 16, 2, 7, 8] 15) 0 ([], [])
     = Some (rx_result_val RX_OK, frame',
        [(rj_sda (sized j))\<lparr>sda_service_id := [1, 2, 3, 4, 5, 6], sda_instance_id := 9,
           sda_requestor_instance_id := 0, sda_control := 16, sda_service_info_length := 2,
           sda_service_info := [7, 8]\<rparr>], [])"
proof (intro allI)
  fix j :: rx_junk
  let ?b = "buf_new_const [3, 12, 0, 1, 2, 3, 4, 5, 6, 9, 0, 16, 2, 7, 8] 15"
  have new: "wf_buf ?b" "berror ?b = 0" "inp ?b = [3, 12, 0, 1, 2, 3, 4, 5, 6, 9, 0, 16, 2, 7, 8]"
    using buf_new_const_wf [of 15 "[3, 12, 0, 1, 2, 3, 4, 5, 6, 9, 0, 16, 2, 7, 8]"] by simp_all
  have "iterate_effect (service_discovery_effect (sized j)) (unat (rj_u16 (sized j)))
      [3, 12, 0, 1, 2, 3, 4, 5, 6, 9, 0, 16, 2, 7, 8] 0 ([], []) = (rx_result_val RX_OK,
        [(rj_sda (sized j))\<lparr>sda_service_id := [1, 2, 3, 4, 5, 6], sda_instance_id := 9,
           sda_requestor_instance_id := 0, sda_control := 16, sda_service_info_length := 2,
           sda_service_info := [7, 8]\<rparr>], [])"
    by (simp add: iterate_effect_def service_discovery_effect_def sda_of_def counted_def end_accepted_def
        sdc_binding_bitmap_present_def sdc_matching_filter_present_def sdc_service_response_filter_present_def
        sdc_service_info_present_def field_get_def)
  then show "\<exists>frame'. NAN_ITERATE_ATTRIBUTES (service_discovery_attribute (sized j)) (sized j) ?b 0 ([], [])
     = Some (rx_result_val RX_OK, frame',
        [(rj_sda (sized j))\<lparr>sda_service_id := [1, 2, 3, 4, 5, 6], sda_instance_id := 9,
           sda_requestor_instance_id := 0, sda_control := 16, sda_service_info_length := 2,
           sda_service_info := [7, 8]\<rparr>], [])"
    using service_discovery_attributes_refine [OF new(1,2) junk_ok_sized, of j 0 "([], [])"] by (simp add: new(3))
qed

end
