(* ===== verification/Nan_Rx_Safety.thy ===== *)
theory Nan_Rx_Safety
  imports Nan_Rx_Attributes
begin

text \<open>
  The reception as a whole, on any bytes: no access outside the frame, no use of freed memory,
  no loop without end, and the well-formedness \<open>device_ok\<close> of the state is kept. The
  exception (\<open>clock_ok\<close>) are the time stamps that make \<^verbatim>\<open>nan_timer_sync_error\<close> or
  \<^verbatim>\<open>nan_timer_sync_time\<close> compute \<^verbatim>\<open>abs(INT_MIN)\<close>.
\<close>

section \<open>Well-formed devices\<close>

text \<open>The generator yields acceptable numbers again and again.\<close>

definition rng_live :: "rng \<Rightarrow> bool" where
  "rng_live r \<longleftrightarrow> (\<forall>k. \<exists>m\<ge>k. rng_draw r m < RAND_MAX - 255)"

text \<open>Every known peer has a window for its signal strength.\<close>

definition averages_ok :: "nan_peer_state \<Rightarrow> peer_heap \<Rightarrow> bool" where
  "averages_ok ps h \<longleftrightarrow> (\<forall>a v. lookup_peer ps h a = Some v \<longrightarrow> ma_inv (pe_rssi_average_state v))"

text \<open>The queued frames are allocated, once each, well-formed and complete from their first byte on.\<close>

definition queue_ok :: "circular_buf \<Rightarrow> buf store \<Rightarrow> bool" where
  "queue_ok cb fh \<longleftrightarrow> cbuf_inv cb \<and> wf_store fh \<and> distinct (cbuf_contents cb)
     \<and> (\<forall>p \<in> set (cbuf_contents cb). \<exists>b. cells fh p = Some b \<and> wf_buf b \<and> bstart b = 0)"

text \<open>
  The window of the clock error: it holds accepted errors, of at most 512 time units, and until
  it is full the average is one.
\<close>

definition error_window :: "nan_timer_state \<Rightarrow> bool" where
  "error_window timer \<longleftrightarrow> ma_inv (average_error_state timer) \<and> ma_buffer_size (average_error_state timer) = 32
     \<and> (\<forall>e \<in> set (ma_buffer (average_error_state timer)). \<bar>e\<bar> \<le> 512 * 1024)
     \<and> (\<not> ma_buffer_full (average_error_state timer) \<longrightarrow> \<bar>average_error timer\<bar> \<le> 512 * 1024)"

definition device_ok :: "nan_state \<Rightarrow> nan_memory \<Rightarrow> bool" where
  "device_ok state mem \<longleftrightarrow> state_ok state mem \<and> averages_ok (st_peers state) (mm_peers mem)
     \<and> error_window (st_timer state) \<and> rng_live (mm_rng mem)
     \<and> queue_ok (st_buffer state) (mm_frames mem)"

lemmas device_defs = device_ok_def state_ok_def

section \<open>Peers\<close>

lemma peer_of_lookup:
  assumes ok: "peers_ok ps h" and v: "lookup_peer ps h a = Some v"
  shows "\<exists>p. nan_peer_get ps h a = Some (PEER_OK, p) \<and> p \<in> set (peers ps) \<and> p \<noteq> NULL
    \<and> cells h p = Some v \<and> pe_addr v = a \<and> peer_at h p = v"
proof -
  from v obtain p where fnd: "find (\<lambda>p. pe_addr (peer_at h p) = a) (peers ps) = Some p" and at: "v = peer_at h p"
    by (auto simp: lookup_peer_def)
  from fnd have p: "p \<in> set (peers ps)" "pe_addr (peer_at h p) = a" by (auto simp: find_peer_iff [OF ok])
  show ?thesis
    using p peers_ok_nonNULL [OF ok p(1)] peers_ok_live [OF ok p(1)]
    by (intro exI [of _ p]) (simp add: nan_peer_get_find [OF ok] fnd at)
qed

lemma peer_known:
  "peers_ok ps h \<Longrightarrow> p \<in> set (peers ps) \<Longrightarrow> lookup_peer ps h (pe_addr (peer_at h p)) = Some (peer_at h p)"
  by (auto simp: lookup_peer_Some)

lemma averages_peer:
  "peers_ok ps h \<Longrightarrow> averages_ok ps h \<Longrightarrow> p \<in> set (peers ps) \<Longrightarrow> ma_inv (pe_rssi_average_state (peer_at h p))"
  using peer_known unfolding averages_ok_def by blast

lemma added_peer_average:
  "(\<And>v. old = Some v \<Longrightarrow> ma_inv (pe_rssi_average_state v)) \<Longrightarrow>
     ma_inv (pe_rssi_average_state (added_peer junk old a cl now_usec))"
  using ma_inv_init [of 32]
  by (auto simp: added_peer_def nan_peer_new_def moving_average_init_def split: option.splits)

text \<open>Everything of the table but its entries, and calls of the add callback on known peers.\<close>

definition peer_config :: "nan_peer_state \<Rightarrow> nan_peer_state" where
  "peer_config ps = ps\<lparr>peers := []\<rparr>"

definition calls_ok :: "nan_peer_state \<Rightarrow> peer_call list \<Rightarrow> bool" where
  "calls_ok ps calls \<longleftrightarrow> (\<forall>(f, p, d) \<in> set calls.
     f = peer_add_callback ps \<and> d = peer_add_callback_data ps \<and> p \<in> set (peers ps))"

lemma calls_ok_Nil [simp]: "calls_ok ps []"
  by (simp add: calls_ok_def)

lemma nan_peer_add_safe:
  assumes ok: "peers_ok ps h" and avg: "averages_ok ps h"
  shows "\<exists>status ps' h' calls p. nan_peer_add junk ps h a cl now_usec = Some (status, ps', h', calls)
    \<and> status \<noteq> PEER_MISSING \<and> status \<noteq> PEER_INTERNAL \<and> peers_ok ps' h' \<and> averages_ok ps' h'
    \<and> peer_config ps' = peer_config ps \<and> calls_ok ps' calls
    \<and> nan_peer_get ps' h' a = Some (PEER_OK, p) \<and> p \<in> set (peers ps') \<and> p \<noteq> NULL
    \<and> peer_at h' p = added_peer junk (lookup_peer ps h a) a cl now_usec
    \<and> lookup_peer ps' h' = (lookup_peer ps h)(a \<mapsto> added_peer junk (lookup_peer ps h a) a cl now_usec)"
proof -
  have "\<exists>status ps' h' calls. nan_peer_add junk ps h a cl now_usec = Some (status, ps', h', calls)
      \<and> status \<noteq> PEER_MISSING \<and> status \<noteq> PEER_INTERNAL \<and> peers_ok ps' h'
      \<and> peer_config ps' = peer_config ps \<and> calls_ok ps' calls
      \<and> lookup_peer ps' h' = (lookup_peer ps h)(a \<mapsto> added_peer junk (lookup_peer ps h a) a cl now_usec)"
  proof (cases "lookup_peer ps h a")
    case None
    from nan_peer_add_missing [OF ok None, of junk cl now_usec] None show ?thesis
      by (auto simp: peer_config_def calls_ok_def)
  next
    case (Some v)
    from nan_peer_add_known [OF ok Some, of junk cl now_usec] Some show ?thesis by auto
  qed
  then obtain status ps' h' calls where r: "nan_peer_add junk ps h a cl now_usec = Some (status, ps', h', calls)"
      "status \<noteq> PEER_MISSING" "status \<noteq> PEER_INTERNAL" and ok': "peers_ok ps' h'"
      and rc: "peer_config ps' = peer_config ps" "calls_ok ps' calls"
      and lk: "lookup_peer ps' h' = (lookup_peer ps h)(a \<mapsto> added_peer junk (lookup_peer ps h a) a cl now_usec)"
    by blast
  have "averages_ok ps' h'"
    using avg added_peer_average [of "lookup_peer ps h a" junk a cl now_usec]
    by (auto simp: averages_ok_def lk)
  moreover obtain p where "nan_peer_get ps' h' a = Some (PEER_OK, p)" "p \<in> set (peers ps')" "p \<noteq> NULL"
      "peer_at h' p = added_peer junk (lookup_peer ps h a) a cl now_usec"
    using peer_of_lookup [OF ok', of a] lk by auto
  ultimately show ?thesis using r ok' rc lk by blast
qed

lemma write_peer:
  assumes ok: "peers_ok ps h" and avg: "averages_ok ps h" and p: "p \<in> set (peers ps)"
    and v: "pe_addr v = pe_addr (peer_at h p)" "ma_inv (pe_rssi_average_state v)"
  shows "\<exists>h'. store_put p v h = Some h' \<and> peers_ok ps h' \<and> averages_ok ps h' \<and> peer_at h' p = v
    \<and> lookup_peer ps h' = (lookup_peer ps h)(pe_addr v \<mapsto> v)"
proof -
  let ?h' = "h\<lparr>cells := (cells h)(p \<mapsto> v)\<rparr>"
  have "store_put p v h = Some ?h'" using peers_ok_live [OF ok p] by (simp add: store_put_def)
  moreover have "averages_ok ps ?h'"
    using avg v(2) unfolding averages_ok_def peers_ok_put(2) [OF ok p v(1) refl] by auto
  ultimately show ?thesis using peers_ok_put [OF ok p v(1) refl] by (simp add: peer_at_put)
qed

lemma fold_attributes_keeps:
  assumes "\<And>i body s. P (snd (effect i body s)) = P s"
  shows "P (snd (fold_attributes effect as result s)) = P s"
  by (induction as arbitrary: result s) (auto simp: assms)

lemma iterate_effect_keeps:
  assumes "\<And>i body s. P (snd (effect i body s)) = P s"
  shows "P (snd (iterate_effect effect n xs result s)) = P s"
  using fold_attributes_keeps [of P effect, OF assms] by (simp add: iterate_effect_def case_prod_beta)

text \<open>The attributes of a beacon change neither the address of the peer nor its window.\<close>

lemma beacon_effect_keeps:
  "pe_addr (snd (beacon_effect i body v)) = pe_addr v"
  "pe_rssi_average_state (snd (beacon_effect i body v)) = pe_rssi_average_state v"
  by (simp_all add: beacon_effect_def master_indication_effect_def cluster_effect_def
      nan_peer_set_master_indication_def nan_peer_set_anchor_master_information_def Let_def)

lemmas beacon_iterate_keeps =
  iterate_effect_keeps [of pe_addr beacon_effect, OF beacon_effect_keeps(1)]
  iterate_effect_keeps [of pe_rssi_average_state beacon_effect, OF beacon_effect_keeps(2)]

lemma set_beacon_information_safe:
  "ma_inv (pe_rssi_average_state v) \<Longrightarrow> \<exists>v'. nan_peer_set_beacon_information v rssi ts = Some v'
     \<and> pe_addr v' = pe_addr v \<and> ma_inv (pe_rssi_average_state v')"
  using moving_average_add_inv [of "pe_rssi_average_state v" "pe_rssi_average v" rssi]
  by (auto simp: nan_peer_set_beacon_information_def)

lemma check_master_candidate_keeps:
  "pe_addr (nan_check_master_candidate s v) = pe_addr v"
  "pe_rssi_average_state (nan_check_master_candidate s v) = pe_rssi_average_state v"
  by (simp_all add: nan_check_master_candidate_def Let_def)

section \<open>Random numbers and time\<close>

lemma rng_live_rand: "rng_live r \<Longrightarrow> mn \<le> mx \<Longrightarrow> \<exists>v r'. get_rand_num mn mx r = Some (v, r') \<and> rng_live r'"
proof -
  assume live: "rng_live r" and le: "mn \<le> mx"
  from live obtain k where k: "rng_pos r \<le> k" "rng_draw r k < RAND_MAX - 255" unfolding rng_live_def by blast
  from get_rand_num_defined [OF le k] obtain v r' where v: "get_rand_num mn mx r = Some (v, r')" by blast
  from get_rand_num_SomeD [OF le v] have "rng_draw r' = rng_draw r" by auto
  with live v show ?thesis by (auto simp: rng_live_def)
qed

lemma update_preference_safe:
  assumes "rng_live r"
  shows "\<exists>b s' r'. nan_update_master_preference s peer now_usec r = Some (b, s', r') \<and> rng_live r'"
proof -
  obtain v r' where "get_rand_num 0 255 r = Some (v, r')" "rng_live r'"
    using rng_live_rand [OF assms, of 0 255] by auto
  then show ?thesis using assms
    by (auto simp: nan_update_master_preference_def Let_def case_prod_beta)
qed

text \<open>The difference \<^verbatim>\<open>nan_timer_sync_error\<close> takes the absolute value of.\<close>

definition clock_error :: "nan_timer_state \<Rightarrow> u64 \<Rightarrow> u64 \<Rightarrow> int" where
  "clock_error timer now_usec timestamp =
     c_int (uint (word_of_int (c_int (uint (nan_timer_get_synced_time_usec timer now_usec))) - timestamp))"

text \<open>The difference in time units \<^verbatim>\<open>nan_timer_sync_time\<close> takes the absolute value of.\<close>

definition clock_ahead :: "nan_timer_state \<Rightarrow> u64 \<Rightarrow> u64 \<Rightarrow> int" where
  "clock_ahead timer now_usec timestamp =
     c_int (sint (nan_timer_get_synced_time_usec timer now_usec - timestamp) sdiv 1024)"

text \<open>What a full window makes of the average error.\<close>

definition next_average :: "nan_timer_state \<Rightarrow> int \<Rightarrow> int" where
  "next_average timer e = (let w = average_error_state timer
     in average_error timer + (e - ma_buffer w ! ma_position w) sdiv int (ma_buffer_size w))"

text \<open>
  A time stamp for which neither difference is the least \<^verbatim>\<open>int\<close>, and which does not take the
  average error out of the range of \<^verbatim>\<open>int\<close>.
\<close>

definition clock_ok :: "nan_timer_state \<Rightarrow> u64 \<Rightarrow> u64 \<Rightarrow> bool" where
  "clock_ok timer now_usec timestamp \<longleftrightarrow> clock_error timer now_usec timestamp \<noteq> - (2 ^ 31)
     \<and> clock_ahead timer now_usec timestamp \<noteq> - (2 ^ 31)
     \<and> (ma_buffer_full (average_error_state timer) \<longrightarrow> \<bar>clock_error timer now_usec timestamp\<bar> \<le> 512 * 1024
        \<longrightarrow> element_ok Signed_Int (next_average timer (clock_error timer now_usec timestamp)))"

lemma error_window_add:
  assumes w: "error_window timer" and e: "\<bar>e\<bar> \<le> 512 * 1024"
    and full: "ma_buffer_full (average_error_state timer) \<Longrightarrow> element_ok Signed_Int (next_average timer e)"
  shows "\<exists>a m. moving_average_add Signed_Int (average_error_state timer) (average_error timer) e = Some (a, m)
    \<and> error_window (timer\<lparr>average_error := a, average_error_state := m\<rparr>)"
proof -
  let ?w = "average_error_state timer" and ?a = "average_error timer"
  have inv: "ma_inv ?w" "ma_buffer_size ?w = 32" and bound: "\<And>x. x \<in> set (ma_buffer ?w) \<Longrightarrow> \<bar>x\<bar> \<le> 512 * 1024"
    using w by (auto simp: error_window_def)
  have "\<exists>a m. moving_average_add Signed_Int ?w ?a e = Some (a, m) \<and> (\<not> ma_buffer_full ?w \<longrightarrow> \<bar>a\<bar> \<le> 512 * 1024)"
  proof (cases "ma_buffer_full ?w")
    case True
    have "ma_buffer ?w ! ma_position ?w \<in> set (ma_buffer ?w)" using inv(1) by (simp add: ma_inv_def)
    then have "element_ok Signed_Int (e - ma_buffer ?w ! ma_position ?w)"
      using e bound by (fastforce simp: element_ok_def)
    from moving_average_add_full [OF inv(1) True this, of ?a] full [OF True] True show ?thesis
      by (auto simp: next_average_def Let_def)
  next
    case False
    then have "\<bar>?a\<bar> \<le> 512 * 1024" using w by (simp add: error_window_def)
    with moving_average_add_between [OF inv(1) False, of "- (512 * 1024)" e "512 * 1024" ?a Signed_Int] e show ?thesis
      by (auto simp: element_ok_def inv(2) abs_le_iff)
  qed
  then obtain a m where add: "moving_average_add Signed_Int ?w ?a e = Some (a, m)"
      "\<not> ma_buffer_full ?w \<longrightarrow> \<bar>a\<bar> \<le> 512 * 1024" by blast
  note st = moving_average_add_state [OF inv(1) add(1)]
  have "element_conv Signed_Int e = e" using e by (intro element_ok_conv) (auto simp: element_ok_def)
  then have "set (ma_buffer m) \<subseteq> insert e (set (ma_buffer ?w))" using st set_update_subset_insert by metis
  then have "error_window (timer\<lparr>average_error := a, average_error_state := m\<rparr>)"
    using st add(2) e bound inv(2) by (auto simp: error_window_def)
  with add(1) show ?thesis by blast
qed

lemma timer_sync_error_safe:
  assumes w: "error_window timer" and ok: "clock_ok timer now_usec timestamp"
  shows "\<exists>timer'. nan_timer_sync_error timer now_usec timestamp = Some timer' \<and> error_window timer'"
proof -
  let ?e = "clock_error timer now_usec timestamp"
  have e: "?e \<noteq> - (2 ^ 31)" using ok by (simp add: clock_ok_def)
  show ?thesis
  proof (cases "\<bar>?e\<bar> \<le> 512 * 1024")
    case True
    from error_window_add [OF w True] ok True obtain a m where
      "moving_average_add Signed_Int (average_error_state timer) (average_error timer) ?e = Some (a, m)"
      "error_window (timer\<lparr>average_error := a, average_error_state := m\<rparr>)" by (auto simp: clock_ok_def)
    then show ?thesis using e True by (simp add: nan_timer_sync_error_def Let_def flip: clock_error_def)
  next
    case False
    then show ?thesis using e w by (simp add: nan_timer_sync_error_def Let_def flip: clock_error_def)
  qed
qed

lemma timer_sync_time_safe:
  assumes "clock_ok timer now_usec timestamp"
  shows "\<exists>timer'. nan_timer_sync_time timer now_usec timestamp = Some timer'
    \<and> error_window timer' = error_window timer"
  using assms by (simp add: clock_ok_def nan_timer_sync_time_def error_window_def Let_def flip: clock_ahead_def)

lemma timer_keeps_window:
  "error_window (nan_timer_initial_scan_cancel timer) = error_window timer"
  "clock_ok (nan_timer_initial_scan_cancel timer) = clock_ok timer"
  by (simp_all add: nan_timer_initial_scan_cancel_def error_window_def clock_ok_def clock_error_def
      clock_ahead_def next_average_def fun_eq_iff nan_timer_get_synced_time_usec_def)

section \<open>Beacons\<close>

lemma selection_inv: "sync_inv s \<Longrightarrow> sync_inv (nan_anchor_master_selection s peer t)"
  using sync_inv_same_identity [OF _ selection_identity selection_rank] unfolding sync_inv_def by blast

lemma rx_beacon_cluster_safe:
  assumes s: "sync_inv (st_sync state)" and t: "error_window (st_timer state)"
    and e: "clock_ok (st_timer state) now_usec timestamp"
  shows "\<exists>c sy tm. rx_beacon_cluster state v status cl type timestamp now_usec
      = Some (state\<lparr>st_cluster := c, st_sync := sy, st_timer := tm\<rparr>)
    \<and> sync_inv sy \<and> error_window tm"
proof -
  define c2 where "c2 = (st_cluster state)\<lparr>cluster_id := cl\<rparr>"
  define s2 where "s2 = nan_anchor_master_selection (st_sync state) v
     (nan_timer_get_synced_time_tu (st_timer state) now_usec)"
  obtain t3 where t3: "nan_timer_sync_error (st_timer state) now_usec timestamp = Some t3"
      "error_window t3"
    using timer_sync_error_safe [OF t e] by blast
  obtain t2 where t2: "nan_timer_sync_time (st_timer state) now_usec timestamp = Some t2"
      "error_window t2"
    using timer_sync_time_safe [OF e] t by auto
  have inv: "sync_inv s2" using selection_inv [OF s] by (simp add: s2_def)
  have keep: "state = state\<lparr>st_cluster := st_cluster state, st_sync := st_sync state, st_timer := st_timer state\<rparr>"
      "state\<lparr>st_cluster := c2, st_timer := t2\<rparr> = state\<lparr>st_cluster := c2, st_sync := st_sync state, st_timer := t2\<rparr>"
      "state\<lparr>st_sync := s2\<rparr> = state\<lparr>st_cluster := st_cluster state, st_sync := s2, st_timer := st_timer state\<rparr>"
      "\<And>t. state\<lparr>st_sync := s2, st_timer := t\<rparr> = state\<lparr>st_cluster := st_cluster state, st_sync := s2, st_timer := t\<rparr>"
    by simp_all
  have "rx_beacon_cluster state v status cl type timestamp now_usec
      \<in> {Some state, Some (state\<lparr>st_cluster := c2, st_timer := t2\<rparr>), Some (state\<lparr>st_sync := s2, st_timer := t2\<rparr>),
         Some (state\<lparr>st_sync := s2, st_timer := t3\<rparr>), Some (state\<lparr>st_sync := s2\<rparr>)}"
    using t2(1) t3(1) by (simp add: rx_beacon_cluster_def Let_def flip: c2_def s2_def)
  then show ?thesis
    using s t inv t2(2) t3(2) keep by (elim insertE emptyE) metis+
qed

text \<open>What a peer announces in its beacons.\<close>

definition announced_by :: "nan_peer \<Rightarrow> u8 \<times> u8 \<times> u64 \<times> u32 \<times> u8" where
  "announced_by v = (pe_master_preference v, pe_random_factor v, pe_anchor_master_rank v, pe_ambtt v, pe_hop_count v)"

text \<open>The sender's entry after the attributes of a beacon have been read, and their result.\<close>

definition beacon_sender ::
  "rx_junk \<Rightarrow> nan_state \<Rightarrow> nan_memory \<Rightarrow> ether_addr \<Rightarrow> ether_addr \<Rightarrow> u64 \<Rightarrow> u8 list \<Rightarrow> int \<times> nan_peer" where
  "beacon_sender j state mem a cl now_usec xs =
     iterate_effect beacon_effect (unat (rj_u16 j)) (drop 18 xs) (rx_result_val RX_OK)
       (added_peer (rj_peer j) (lookup_peer (st_peers state) (mm_peers mem) a) a cl now_usec)"

lemma announced_by_keeps:
  "nan_peer_set_beacon_information v rssi ts = Some v' \<Longrightarrow> announced_by v' = announced_by v \<and> pe_last_timestamp v' = ts"
  "announced_by (nan_check_master_candidate s v) = announced_by v"
  "pe_last_timestamp (nan_check_master_candidate s v) = pe_last_timestamp v"
  by (auto simp: nan_peer_set_beacon_information_def nan_check_master_candidate_def announced_by_def Let_def
      split: bind_splits)

lemma added_peer_addr: "(\<And>v. old = Some v \<Longrightarrow> pe_addr v = a) \<Longrightarrow> pe_addr (added_peer junk old a cl now_usec) = a"
  by (auto simp: added_peer_def nan_peer_new_def moving_average_init_def split: option.splits)

lemma device_okI:
  assumes "device_ok state mem" "peers_ok ps h" "averages_ok ps h" "sync_inv sy"
    "error_window tm" "rng_live r"
  shows "device_ok (state\<lparr>st_peers := ps, st_cluster := c, st_sync := sy, st_timer := tm\<rparr>)
     (mem\<lparr>mm_peers := h, mm_rng := r\<rparr>)"
  using assms by (simp add: device_defs)

lemma rx_beacon_run:
  assumes ok: "device_ok state mem" and j: "junk_ok j" and b: "sim frame (Some xs)"
    and e: "18 \<le> length xs \<Longrightarrow> clock_ok (st_timer state) now_usec (of_le_bytes (take 8 xs))"
  shows "\<exists>r frame' state' mem' calls. nan_rx_beacon j frame state mem a cl rssi now_usec
      = Some (r, frame', state', mem', calls) \<and> device_ok state' mem'
    \<and> st_services state' = st_services state \<and> st_events state' = st_events state
    \<and> mm_services mem' = mm_services mem \<and> mm_listeners mem' = mm_listeners mem
    \<and> st_buffer state' = st_buffer state \<and> mm_frames mem' = mm_frames mem
    \<and> peer_config (st_peers state') = peer_config (st_peers state) \<and> calls_ok (st_peers state') calls
    \<and> (if fst (beacon_header_of xs) \<noteq> rx_result_val RX_OK
       then r = fst (beacon_header_of xs) \<and> state' = state \<and> mem' = mem \<and> calls = []
       else r = min 0 (fst (beacon_sender j state mem a cl now_usec xs))
         \<and> (\<exists>v. lookup_peer (st_peers state') (mm_peers mem')
                = (lookup_peer (st_peers state) (mm_peers mem))(a \<mapsto> v)
              \<and> announced_by v = announced_by (snd (beacon_sender j state mem a cl now_usec xs))
              \<and> (0 \<le> r \<longrightarrow> pe_last_timestamp v = of_le_bytes (take 8 xs))))"
proof -
  from nan_parse_beacon_header_spec [OF b j, of 0 0] obtain r bt ts b1 where
    hd: "nan_parse_beacon_header j frame 0 0 = Some (r, bt, ts, b1)" "r = fst (beacon_header_of xs)"
      "r = rx_result_val RX_OK \<longrightarrow> ts = of_le_bytes (take 8 xs) \<and> sim b1 (Some (drop 18 xs))" by blast
  show ?thesis
  proof (cases "r = rx_result_val RX_OK")
    case False
    with hd(1,2) ok show ?thesis by (simp add: nan_rx_beacon_def)
  next
    case True
    with hd(3) have ts: "ts = of_le_bytes (take 8 xs)" and b1: "sim b1 (Some (drop 18 xs))" by simp_all
    have len: "18 \<le> length xs"
      using True hd(2) by (simp add: beacon_header_of_def split: if_splits)
    let ?L = "lookup_peer (st_peers state) (mm_peers mem)"
    have ok0: "peers_ok (st_peers state) (mm_peers mem)" "averages_ok (st_peers state) (mm_peers mem)"
      using ok by (simp_all add: device_defs)
    from nan_peer_add_safe [OF ok0, of "rj_peer j" a cl now_usec] obtain status ps h1 calls p where
      add: "nan_peer_add (rj_peer j) (st_peers state) (mm_peers mem) a cl now_usec = Some (status, ps, h1, calls)"
        "status \<noteq> PEER_MISSING" "status \<noteq> PEER_INTERNAL" and ok1: "peers_ok ps h1" "averages_ok ps h1"
      and rc: "peer_config ps = peer_config (st_peers state)" "calls_ok ps calls"
      and p: "nan_peer_get ps h1 a = Some (PEER_OK, p)" "p \<in> set (peers ps)" "p \<noteq> NULL"
        "peer_at h1 p = added_peer (rj_peer j) (?L a) a cl now_usec"
      and lk: "lookup_peer ps h1 = ?L(a \<mapsto> added_peer (rj_peer j) (?L a) a cl now_usec)" by blast
    define v0 where "v0 = peer_at h1 p"
    define res where "res = fst (beacon_sender j state mem a cl now_usec xs)"
    define v1 where "v1 = snd (beacon_sender j state mem a cl now_usec xs)"
    from beacon_iterate [OF b1, of j "rx_result_val RX_OK" v0] obtain b2 where
      it: "NAN_ITERATE_ATTRIBUTES (beacon_attribute j) j b1 (rx_result_val RX_OK) v0 = Some (res, b2, v1)"
      by (auto simp: v0_def p(4) res_def v1_def beacon_sender_def)
    have a1: "pe_addr v1 = pe_addr v0" "pe_rssi_average_state v1 = pe_rssi_average_state v0"
      unfolding v1_def beacon_sender_def v0_def p(4) by (rule beacon_iterate_keeps)+
    have addr: "pe_addr v0 = a"
      using lookup_peer_Some [OF ok0(1)] unfolding v0_def p(4) by (intro added_peer_addr) blast
    have avg: "ma_inv (pe_rssi_average_state v1)"
      using averages_peer [OF ok1 p(2)] a1(2) by (simp add: v0_def)
    from write_peer [OF ok1 p(2), of v1] a1 avg obtain h2 where
      h2: "store_put p v1 h1 = Some h2" "peers_ok ps h2" "averages_ok ps h2" "peer_at h2 p = v1"
        "lookup_peer ps h2 = (lookup_peer ps h1)(a \<mapsto> v1)" by (auto simp: v0_def addr [unfolded v0_def])
    define tm where "tm = (if \<not> nan_timer_initial_scan_done (st_timer state) now_usec
       then nan_timer_initial_scan_cancel (st_timer state) else st_timer state)"
    have tm: "error_window tm" "clock_ok tm = clock_ok (st_timer state)"
      using ok by (simp_all add: tm_def timer_keeps_window device_defs)
    have st: "(if \<not> nan_timer_initial_scan_done (st_timer (state\<lparr>st_peers := ps\<rparr>)) now_usec
        then state\<lparr>st_peers := ps, st_timer := nan_timer_initial_scan_cancel (st_timer (state\<lparr>st_peers := ps\<rparr>))\<rparr>
        else state\<lparr>st_peers := ps\<rparr>) = state\<lparr>st_peers := ps, st_timer := tm\<rparr>"
      by (simp add: tm_def)
    note live = peers_ok_live [OF ok1(1) p(2), folded v0_def]
    note run = nan_rx_beacon_def hd(1) True add(1) Option.bind.simps prod.case Let_def
    have run1: "nan_rx_beacon j frame state mem a cl rssi now_usec =
      (if res < 0 then Some (res, b2, state\<lparr>st_peers := ps, st_timer := tm\<rparr>, mem\<lparr>mm_peers := h2\<rparr>, calls) else
       do { v \<leftarrow> nan_peer_set_beacon_information v1 rssi ts;
            (_, sync, r) \<leftarrow> nan_update_master_preference (st_sync state) v now_usec (mm_rng mem);
            let v = nan_check_master_candidate sync v;
            ph \<leftarrow> store_put p v h2;
            state \<leftarrow> rx_beacon_cluster (state\<lparr>st_peers := ps, st_timer := tm, st_sync := sync\<rparr>) v status cl bt ts now_usec;
            Some (rx_result_val RX_OK, b2, state, mem\<lparr>mm_peers := ph, mm_rng := r\<rparr>, calls) })"
      using add(2,3) p(3) unfolding run by (simp add: p(1) live it [simplified] h2(1) tm_def)
    show ?thesis
    proof (cases "res < 0")
      case neg: True
      have "device_ok (state\<lparr>st_peers := ps, st_timer := tm\<rparr>) (mem\<lparr>mm_peers := h2\<rparr>)"
        using ok h2(2,3) tm(1) by (simp add: device_defs)
      moreover have "lookup_peer ps h2 = ?L(a \<mapsto> v1)" unfolding h2(5) lk by simp
      ultimately show ?thesis
        using run1 neg hd(2) True by (auto simp: rc res_def v1_def)
    next
      case nonneg: False
      from set_beacon_information_safe [OF avg, of rssi ts] obtain v2 where
        v2: "nan_peer_set_beacon_information v1 rssi ts = Some v2" "pe_addr v2 = pe_addr v1"
          "ma_inv (pe_rssi_average_state v2)" by blast
      have "rng_live (mm_rng mem)" "sync_inv (st_sync state)" using ok by (simp_all add: device_defs)
      with update_preference_safe obtain bl sync rg where
        up: "nan_update_master_preference (st_sync state) v2 now_usec (mm_rng mem) = Some (bl, sync, rg)"
          "rng_live rg" "sync_inv sync"
        using update_preference_inv by metis
      define v3 where "v3 = nan_check_master_candidate sync v2"
      have v3: "pe_addr v3 = a" "ma_inv (pe_rssi_average_state v3)"
        using v2(2,3) a1(1) addr by (simp_all add: v3_def check_master_candidate_keeps)
      have "pe_addr v3 = pe_addr (peer_at h2 p)" by (simp add: v3(1) h2(4) a1(1) addr)
      from write_peer [OF h2(2,3) p(2) this v3(2)] obtain h3 where
        h3: "store_put p v3 h2 = Some h3" "peers_ok ps h3" "averages_ok ps h3"
          "lookup_peer ps h3 = (lookup_peer ps h2)(a \<mapsto> v3)" by (auto simp: v3(1))
      let ?st = "state\<lparr>st_peers := ps, st_timer := tm, st_sync := sync\<rparr>"
      from rx_beacon_cluster_safe [of ?st now_usec ts v3 status cl bt] up(3) tm e [OF len] obtain c sy tm' where
        cl: "rx_beacon_cluster ?st v3 status cl bt ts now_usec
            = Some (?st\<lparr>st_cluster := c, st_sync := sy, st_timer := tm'\<rparr>)"
          "sync_inv sy" "error_window tm'" by (auto simp: ts)
      let ?st' = "state\<lparr>st_peers := ps, st_cluster := c, st_sync := sy, st_timer := tm'\<rparr>"
      have run2: "nan_rx_beacon j frame state mem a cl rssi now_usec
          = Some (rx_result_val RX_OK, b2, ?st', mem\<lparr>mm_peers := h3, mm_rng := rg\<rparr>, calls)"
        unfolding run1 using nonneg cl(1) by (simp add: v2(1) up(1) h3(1) flip: v3_def)
      have "device_ok ?st' (mem\<lparr>mm_peers := h3, mm_rng := rg\<rparr>)"
        by (rule device_okI [OF ok h3(2,3) cl(2,3) up(2)])
      moreover have "announced_by v3 = announced_by v1" "pe_last_timestamp v3 = ts"
        using announced_by_keeps(1) [OF v2(1)] by (simp_all add: v3_def announced_by_keeps)
      moreover have "lookup_peer ps h3 = ?L(a \<mapsto> v3)" unfolding h3(4) h2(5) lk by simp
      ultimately show ?thesis
        using run2 nonneg hd(2) True by (auto simp: rc res_def v1_def ts)
    qed
  qed
qed

end
