(* ===== verification/Nan_Rx_Frames.thy ===== *)
theory Nan_Rx_Frames
  imports Nan_Rx_Safety
begin

text \<open>
  Service discovery frames, action frames and whole frames with their radiotap and 802.11
  headers: what their reception does, and that it is safe on any bytes.
\<close>

section \<open>Listeners\<close>

text \<open>
  What the reception relies on of listeners: a listener that is \<open>known\<close>, called with the data
  of its event, returns; it keeps the device well-formed and its listeners known, and leaves
  the peers alone.
\<close>

definition event_data_fits :: "nan_event_type \<Rightarrow> nan_event_data \<Rightarrow> bool" where
  "event_data_fits event data \<longleftrightarrow> (case data of
     Discovery_Result _ \<Rightarrow> event = EVENT_DISCOVERY_RESULT | Receive _ \<Rightarrow> event = EVENT_RECEIVE)"

definition all_known :: "(nan_event_listeners_item \<Rightarrow> bool) \<Rightarrow> nan_state \<Rightarrow> nan_memory \<Rightarrow> bool" where
  "all_known known state mem \<longleftrightarrow> (\<forall>it \<in> set (listener_items (st_events state) (mm_listeners mem)). known it)"

definition call_known :: "(nan_event_listeners_item \<Rightarrow> bool) \<Rightarrow> nan_event_data listener_call \<Rightarrow> bool" where
  "call_known known call \<longleftrightarrow> (case call of (listener, event, data, additional_data) \<Rightarrow>
     event_data_fits event data \<and> (\<exists>it. known it \<and> li_event it = event \<and> li_listener it = listener
       \<and> li_additional_data it = additional_data))"

definition listen_ok :: "listen \<Rightarrow> (nan_event_listeners_item \<Rightarrow> bool) \<Rightarrow> bool" where
  "listen_ok listen known \<longleftrightarrow> (\<forall>call state mem. call_known known call \<longrightarrow> device_ok state mem \<longrightarrow> all_known known state mem
     \<longrightarrow> (\<exists>state' mem'. listen call state mem = Some (state', mem') \<and> device_ok state' mem' \<and> all_known known state' mem'
          \<and> st_peers state' = st_peers state \<and> mm_peers mem' = mm_peers mem))"

lemma listen_okE:
  assumes "listen_ok listen known" "call_known known call" "device_ok state mem" "all_known known state mem"
  obtains state' mem' where "listen call state mem = Some (state', mem')" "device_ok state' mem'" "all_known known state' mem'"
    "st_peers state' = st_peers state" "mm_peers mem' = mm_peers mem"
proof -
  from assms(1) have "call_known known call \<Longrightarrow> device_ok state mem \<Longrightarrow> all_known known state mem \<Longrightarrow>
      \<exists>state' mem'. listen call state mem = Some (state', mem') \<and> device_ok state' mem' \<and> all_known known state' mem'
        \<and> st_peers state' = st_peers state \<and> mm_peers mem' = mm_peers mem"
    unfolding listen_ok_def by blast
  with assms(2-4) that show thesis by blast
qed

lemma call_listeners_run:
  assumes "listen_ok listen known"
  shows "\<forall>c \<in> set calls. call_known known c \<Longrightarrow> device_ok state mem \<Longrightarrow> all_known known state mem \<Longrightarrow>
    \<exists>state' mem'. call_listeners listen calls state mem = Some (state', mem') \<and> device_ok state' mem'
      \<and> all_known known state' mem' \<and> st_peers state' = st_peers state \<and> mm_peers mem' = mm_peers mem"
proof (induction calls arbitrary: state mem)
  case Nil
  then show ?case by simp
next
  case (Cons c calls)
  from Cons.prems have "call_known known c" by simp
  from listen_okE [OF assms this Cons.prems(2,3)] obtain s1 m1 where
    1: "listen c state mem = Some (s1, m1)" "device_ok s1 m1" "all_known known s1 m1"
      "st_peers s1 = st_peers state" "mm_peers m1 = mm_peers mem" .
  from Cons.IH [OF _ 1(2,3)] Cons.prems(1) show ?case by (simp add: 1)
qed

text \<open>The events a descriptor causes are for registered listeners.\<close>

lemma received_events_known:
  assumes "all_known known state mem"
  shows "\<forall>c \<in> set (received_events pubs subs (st_events state) (mm_listeners mem) self source destination sd). call_known known c"
proof -
  have "\<forall>c \<in> set (event_calls (st_events state) (mm_listeners mem) e v d). call_known known c" if "event_data_fits e d" for e v d
  proof
    fix c assume "c \<in> set (event_calls (st_events state) (mm_listeners mem) e v d)"
    then obtain it where it: "it \<in> set (listener_items (st_events state) (mm_listeners mem))" "li_event it = e"
        "c = (li_listener it, e, d, li_additional_data it)"
      unfolding event_calls_def wants_def by auto
    with assms that have "known it" by (simp add: all_known_def)
    with it that show "call_known known c" unfolding call_known_def it(3) prod.case by blast
  qed
  then have known: "event_data_fits e d \<Longrightarrow> c \<in> set (event_calls (st_events state) (mm_listeners mem) e v d) \<Longrightarrow>
      call_known known c" for e v d c by blast
  have fits: "event_data_fits EVENT_DISCOVERY_RESULT (discovery_result source sd v)"
      "event_data_fits EVENT_RECEIVE (follow_up source sd v)" for v
    by (simp_all add: event_data_fits_def discovery_result_def follow_up_def)
  let ?set = "\<lambda>e v d. set (event_calls (st_events state) (mm_listeners mem) e v d)"
  show ?thesis
  proof
    fix c
    assume "c \<in> set (received_events pubs subs (st_events state) (mm_listeners mem) self source destination sd)"
    then have "(\<exists>v. c \<in> ?set EVENT_DISCOVERY_RESULT v (discovery_result source sd v))
        \<or> (\<exists>v. c \<in> ?set EVENT_RECEIVE v (follow_up source sd v))"
      unfolding received_events_def Let_def by (simp split: option.splits if_splits; blast)
    then show "call_known known c" using known [OF fits(1)] known [OF fits(2)] by blast
  qed
qed

section \<open>Descriptors\<close>

text \<open>
  What handling the descriptors of a frame does, over the lists of services: one after the
  other, a descriptor marks a published service or causes events, whose listeners run before
  the next descriptor is looked at.
\<close>

definition marked :: "nan_service_descriptor_attribute \<Rightarrow> nan_service list \<Rightarrow> nan_service list" where
  "marked sd vs = (if sdc_service_control_type (sda_control sd) = 1 then mark_first (sda_service_id sd) vs else vs)"

definition events_of ::
  "nan_state \<Rightarrow> nan_memory \<Rightarrow> ether_addr \<Rightarrow> ether_addr \<Rightarrow> nan_service_descriptor_attribute
   \<Rightarrow> nan_event_data listener_call list" where
  "events_of state mem source destination sd =
     received_events (published (st_services state) (mm_services mem)) (subscribed (st_services state) (mm_services mem))
       (st_events state) (mm_listeners mem) (st_interface_address state) source destination sd"

inductive descriptors_handled ::
  "listen \<Rightarrow> ether_addr \<Rightarrow> ether_addr \<Rightarrow> nan_service_descriptor_attribute list \<Rightarrow> nan_state \<times> nan_memory
   \<Rightarrow> nan_event_data listener_call list \<Rightarrow> nan_state \<times> nan_memory \<Rightarrow> bool"
  for listen source destination where
  all_handled: "descriptors_handled listen source destination [] s [] s"
| handled_next: "\<lbrakk>published (st_services state) h = marked sd (published (st_services state) (mm_services mem));
     subscribed (st_services state) h = subscribed (st_services state) (mm_services mem);
     call_listeners listen (events_of state mem source destination sd) state (mem\<lparr>mm_services := h\<rparr>) = Some s1;
     descriptors_handled listen source destination sds s1 calls s2\<rbrakk>
   \<Longrightarrow> descriptors_handled listen source destination (sd # sds) (state, mem)
        (events_of state mem source destination sd @ calls) s2"

inductive_cases descriptors_handled_Nil [elim!]: "descriptors_handled listen source destination [] s calls s'"

lemma handle_descriptors_run:
  assumes listen: "listen_ok listen known"
  shows "device_ok state mem \<Longrightarrow> all_known known state mem \<Longrightarrow> cells (mm_peers mem) peer = Some v \<Longrightarrow>
    \<exists>state' mem' calls. handle_descriptors listen state mem peer destination sds = Some (state', mem', calls)
      \<and> descriptors_handled listen (pe_addr v) destination sds (state, mem) calls (state', mem')
      \<and> device_ok state' mem' \<and> all_known known state' mem'
      \<and> st_peers state' = st_peers state \<and> mm_peers mem' = mm_peers mem"
proof (induction sds arbitrary: state mem)
  case Nil
  then show ?case using descriptors_handled.all_handled by auto
next
  case (Cons sd sds)
  note ok = Cons.prems(1)
  have sok: "services_ok (st_services state) (mm_services mem)" "listeners_ok (st_events state) (mm_listeners mem)"
    using ok by (simp_all add: device_defs)
  let ?ev = "events_of state mem (pe_addr v) destination sd"
  from received_descriptor [OF sok, of "st_interface_address state" "pe_addr v" destination sd] obtain h where
    1: "nan_handle_received_service_discovery (st_services state) (mm_services mem) (st_events state)
        (mm_listeners mem) (st_interface_address state) (pe_addr v) destination sd = Some (h, ?ev)"
      "services_ok (st_services state) h"
      "subscribed (st_services state) h = subscribed (st_services state) (mm_services mem)"
      "published (st_services state) h = marked sd (published (st_services state) (mm_services mem))"
    unfolding events_of_def marked_def by blast
  have "device_ok state (mem\<lparr>mm_services := h\<rparr>)" "all_known known state (mem\<lparr>mm_services := h\<rparr>)"
    using ok 1(2) Cons.prems(2) by (simp_all add: device_defs all_known_def)
  from call_listeners_run [OF listen received_events_known [OF Cons.prems(2)] this] obtain s1 m1 where
    2: "call_listeners listen ?ev state (mem\<lparr>mm_services := h\<rparr>) = Some (s1, m1)" "device_ok s1 m1" "all_known known s1 m1"
      "st_peers s1 = st_peers state" "mm_peers m1 = mm_peers mem" unfolding events_of_def by fastforce
  have "cells (mm_peers m1) peer = Some v" using Cons.prems(3) by (simp add: 2(5))
  from Cons.IH [OF 2(2,3) this] obtain s2 m2 calls where
    3: "handle_descriptors listen s1 m1 peer destination sds = Some (s2, m2, calls)"
      "descriptors_handled listen (pe_addr v) destination sds (s1, m1) calls (s2, m2)"
      "device_ok s2 m2" "all_known known s2 m2" "st_peers s2 = st_peers s1" "mm_peers m2 = mm_peers m1" by blast
  have "handle_descriptors listen state mem peer destination (sd # sds) = Some (s2, m2, ?ev @ calls)"
    using Cons.prems(3) by (simp add: 1(1) 2(1) 3(1))
  with descriptors_handled.handled_next [OF 1(4,3) 2(1) 3(2)] 3 2(4,5) show ?case by auto
qed

section \<open>Service discovery frames\<close>

text \<open>The descriptors read from the attributes, with the result of reading them.\<close>

definition descriptors_of :: "rx_junk \<Rightarrow> u8 list \<Rightarrow> int \<times> descriptors" where
  "descriptors_of j xs = iterate_effect (service_discovery_effect j) (unat (rj_u16 j)) xs 0 ([], [])"

lemma rx_service_discovery_run:
  assumes listen: "listen_ok listen known" and ok: "device_ok state mem" "all_known known state mem"
    and j: "junk_ok j" and b: "sim frame (Some xs)" and p: "cells (mm_peers mem) p = Some v"
  shows "\<exists>frame' state' mem' calls. nan_rx_service_discovery listen j frame state mem destination p
      = Some (fst (descriptors_of j xs), frame', state', mem', calls)
    \<and> (if fst (descriptors_of j xs) < 0 then state' = state \<and> mem' = mem \<and> calls = []
       else descriptors_handled listen (pe_addr v) destination (fst (snd (descriptors_of j xs)))
              (state, mem) calls (state', mem'))
    \<and> device_ok state' mem' \<and> all_known known state' mem'
    \<and> st_peers state' = st_peers state \<and> mm_peers mem' = mm_peers mem"
proof -
  obtain r sdas sdeas where d: "descriptors_of j xs = (r, sdas, sdeas)" by (metis prod_cases3)
  from service_discovery_iterate [OF b j, of 0 "([], [])"] obtain b' where
    it: "NAN_ITERATE_ATTRIBUTES (service_discovery_attribute j) j frame 0 ([], []) = Some (r, b', sdas, sdeas)"
    by (auto simp: d simp flip: descriptors_of_def)
  show ?thesis
  proof (cases "r < 0")
    case True
    then show ?thesis using ok by (simp add: nan_rx_service_discovery_def it d)
  next
    case False
    from handle_descriptors_run [OF listen ok p, of destination sdas] False show ?thesis
      by (auto simp: nan_rx_service_discovery_def it d)
  qed
qed

section \<open>Action frames\<close>

lemma sim_inp: "wf_buf b \<Longrightarrow> berror b = 0 \<Longrightarrow> sim b (Some (inp b))"
  by (simp add: sim_def)

lemma sim_rest: "sim b (Some xs) \<Longrightarrow> buf_rest b = int (length xs)"
  by (auto simp: sim_def wf_buf_rest length_inp)

lemma sim_load: "sim b (Some xs) \<Longrightarrow> n \<le> length xs \<Longrightarrow>
    mem_load (bdata b) (unat (buf_current b)) n = Some (take n xs)"
  by (auto simp: sim_def inp_load length_inp buf_current_def)

text \<open>The outcome of an action frame with the bytes \<open>xs\<close> from a peer, as a result code.\<close>

definition action_result :: "rx_junk \<Rightarrow> u8 list \<Rightarrow> int" where
  "action_result j xs =
     (if length xs < 7 then rx_result_val RX_TOO_SHORT
      else if \<not> oui_equal (oui_of (take 3 (drop 2 xs))) NAN_OUI then rx_result_val RX_IGNORE_OUI
      else if xs ! 5 = NAN_OUT_TYPE_SERVICE_DISCOVERY then fst (descriptors_of j (drop 6 xs))
      else if xs ! 5 \<noteq> NAN_OUI_TYPE_ACTION then rx_result_val RX_IGNORE
      else rx_result_val RX_OK)"

text \<open>Whether the sender is recorded, and whether its descriptors are handled.\<close>

definition action_known :: "u8 list \<Rightarrow> bool" where
  "action_known xs \<longleftrightarrow> 7 \<le> length xs \<and> oui_equal (oui_of (take 3 (drop 2 xs))) NAN_OUI"

definition action_discovery :: "rx_junk \<Rightarrow> u8 list \<Rightarrow> bool" where
  "action_discovery j xs \<longleftrightarrow> action_known xs \<and> xs ! 5 = NAN_OUT_TYPE_SERVICE_DISCOVERY
     \<and> 0 \<le> fst (descriptors_of j (drop 6 xs))"

abbreviation (input) st_published :: "nan_state \<Rightarrow> nan_memory \<Rightarrow> nan_service list" where
  "st_published state mem \<equiv> published (st_services state) (mm_services mem)"

abbreviation (input) st_subscribed :: "nan_state \<Rightarrow> nan_memory \<Rightarrow> nan_service list" where
  "st_subscribed state mem \<equiv> subscribed (st_services state) (mm_services mem)"

abbreviation (input) st_lookup :: "nan_state \<Rightarrow> nan_memory \<Rightarrow> ether_addr \<Rightarrow> nan_peer option" where
  "st_lookup state mem \<equiv> lookup_peer (st_peers state) (mm_peers mem)"

text \<open>What an action frame leaves of the state besides the peers.\<close>

definition action_handled ::
  "listen \<Rightarrow> rx_junk \<Rightarrow> u8 list \<Rightarrow> ether_addr \<Rightarrow> ether_addr \<Rightarrow> nan_state \<times> nan_memory
   \<Rightarrow> nan_event_data listener_call list \<Rightarrow> nan_state \<times> nan_memory \<Rightarrow> bool" where
  "action_handled listen j xs source destination s events s' \<longleftrightarrow>
     (if action_discovery j xs
      then descriptors_handled listen source destination (fst (snd (descriptors_of j (drop 6 xs)))) s events s'
      else s' = s \<and> events = [])"

lemma rx_action_run:
  assumes listen: "listen_ok listen known" and ok: "device_ok state mem" "all_known known state mem"
    and j: "junk_ok j" and b: "sim frame (Some xs)"
  shows "\<exists>frame' ps ph state' mem' calls events. nan_rx_action listen j frame state mem a destination cl now_usec
      = Some (action_result j xs, frame', state', mem', calls, events)
    \<and> action_handled listen j xs a destination (state\<lparr>st_peers := ps\<rparr>, mem\<lparr>mm_peers := ph\<rparr>) events (state', mem')
    \<and> st_peers state' = ps \<and> mm_peers mem' = ph
    \<and> device_ok state' mem' \<and> all_known known state' mem'
    \<and> peer_config ps = peer_config (st_peers state) \<and> calls_ok ps calls
    \<and> lookup_peer ps ph = (if action_known xs
         then (st_lookup state mem)(a \<mapsto> added_peer (rj_peer j) (st_lookup state mem a) a cl now_usec)
         else st_lookup state mem)"
proof (cases "action_known xs")
  case False
  then have "nan_rx_action listen j frame state mem a destination cl now_usec
      = Some (action_result j xs, frame, state, mem, [], [])"
    using sim_load [OF b, of 7]
    by (auto simp: nan_rx_action_def sim_rest [OF b] action_result_def action_known_def not_less drop_take)
  moreover have "action_handled listen j xs a destination (state\<lparr>st_peers := st_peers state\<rparr>, mem\<lparr>mm_peers := mm_peers mem\<rparr>)
      [] (state, mem)"
    using False by (simp add: action_handled_def action_discovery_def)
  ultimately show ?thesis using ok False
    by (intro exI [of _ frame] exI [of _ "st_peers state"] exI [of _ "mm_peers mem"] exI [of _ state] exI [of _ mem]
        exI [of _ "[]"]) simp
next
  case True
  then have len: "7 \<le> length xs" and oui: "oui_equal (oui_of (take 3 (drop 2 xs))) NAN_OUI"
    by (simp_all add: action_known_def)
  have oui': "take 3 (drop 2 (take 7 xs)) = take 3 (drop 2 xs)" "take 7 xs ! 5 = xs ! 5"
    by (simp_all add: drop_take)
  have ok0: "peers_ok (st_peers state) (mm_peers mem)" "averages_ok (st_peers state) (mm_peers mem)"
    using ok by (simp_all add: device_defs)
  from nan_peer_add_safe [OF ok0, of "rj_peer j" a cl now_usec] obtain status ps h1 calls p where
    add: "nan_peer_add (rj_peer j) (st_peers state) (mm_peers mem) a cl now_usec = Some (status, ps, h1, calls)"
      "status \<noteq> PEER_MISSING" "status \<noteq> PEER_INTERNAL" and ok1: "peers_ok ps h1" "averages_ok ps h1"
    and rc: "peer_config ps = peer_config (st_peers state)" "calls_ok ps calls"
    and p: "nan_peer_get ps h1 a = Some (PEER_OK, p)" "p \<in> set (peers ps)" "p \<noteq> NULL"
      "peer_at h1 p = added_peer (rj_peer j) (st_lookup state mem a) a cl now_usec"
    and lk: "lookup_peer ps h1 = (st_lookup state mem)(a \<mapsto> added_peer (rj_peer j) (st_lookup state mem a) a cl now_usec)"
    by blast
  let ?st = "state\<lparr>st_peers := ps\<rparr>" and ?mem = "mem\<lparr>mm_peers := h1\<rparr>"
  have run: "nan_rx_action listen j frame state mem a destination cl now_usec =
    (if xs ! 5 = NAN_OUT_TYPE_SERVICE_DISCOVERY then
       do { (r, frame, state, mem, events) \<leftarrow>
              nan_rx_service_discovery listen j (snd (buf_advance frame 6)) ?st ?mem destination p;
            Some (r, frame, state, mem, calls, events) }
     else if xs ! 5 \<noteq> NAN_OUI_TYPE_ACTION then Some (rx_result_val RX_IGNORE, frame, ?st, ?mem, calls, [])
     else Some (rx_result_val RX_OK, snd (buf_advance frame 7), ?st, ?mem, calls, []))"
    using len oui add(2,3) p(3)
    by (simp add: nan_rx_action_def sim_rest [OF b] sim_load [OF b len] oui' add(1) p(1) Let_def)
  have known: "action_result j xs = (if xs ! 5 = NAN_OUT_TYPE_SERVICE_DISCOVERY then fst (descriptors_of j (drop 6 xs))
      else if xs ! 5 \<noteq> NAN_OUI_TYPE_ACTION then rx_result_val RX_IGNORE else rx_result_val RX_OK)"
    using len oui by (simp add: action_result_def)
  have ok2: "device_ok ?st ?mem" "all_known known ?st ?mem" using ok ok1 by (simp_all add: device_defs all_known_def)
  show ?thesis
  proof (cases "xs ! 5 = NAN_OUT_TYPE_SERVICE_DISCOVERY")
    case False
    then have "action_handled listen j xs a destination (?st, ?mem) [] (?st, ?mem)"
      by (simp add: action_handled_def action_discovery_def)
    moreover obtain frame' where "nan_rx_action listen j frame state mem a destination cl now_usec
        = Some (action_result j xs, frame', ?st, ?mem, calls, [])"
      using run False known by (cases "xs ! 5 = NAN_OUI_TYPE_ACTION") auto
    ultimately show ?thesis using ok2 True rc lk
      by (intro exI [of _ frame'] exI [of _ ps] exI [of _ h1] exI [of _ ?st] exI [of _ ?mem] exI [of _ calls]
          exI [of _ "[]"]) simp
  next
    case sd: True
    have adv: "sim (snd (buf_advance frame 6)) (Some (drop 6 xs))"
      using sim_advance [OF b, of 6] len by (simp add: skip_bytes_def)
    have live: "cells (mm_peers ?mem) p = Some (peer_at h1 p)" using peers_ok_live [OF ok1(1) p(2)] by simp
    have "(\<And>v. st_lookup state mem a = Some v \<Longrightarrow> pe_addr v = a)" using lookup_peer_Some [OF ok0(1)] by blast
    then have addr: "pe_addr (peer_at h1 p) = a" unfolding p(4) by (rule added_peer_addr)
    from rx_service_discovery_run [OF listen ok2 j adv live, of destination, unfolded addr]
    obtain frame' s' m' events where
      r: "nan_rx_service_discovery listen j (snd (buf_advance frame 6)) ?st ?mem destination p
        = Some (fst (descriptors_of j (drop 6 xs)), frame', s', m', events)"
      and eff: "if fst (descriptors_of j (drop 6 xs)) < 0 then s' = ?st \<and> m' = ?mem \<and> events = []
         else descriptors_handled listen a destination (fst (snd (descriptors_of j (drop 6 xs)))) (?st, ?mem) events (s', m')"
      and ok3: "device_ok s' m'" "all_known known s' m'" "st_peers s' = ps" "mm_peers m' = h1"
      by auto
    have "action_handled listen j xs a destination (?st, ?mem) events (s', m')"
      using eff True sd by (auto simp: action_handled_def action_discovery_def split: if_splits)
    moreover have "nan_rx_action listen j frame state mem a destination cl now_usec
        = Some (action_result j xs, frame', s', m', calls, events)"
      using run r sd known by simp
    ultimately show ?thesis using ok3 True rc lk
      by (intro exI [of _ frame'] exI [of _ ps] exI [of _ h1] exI [of _ s'] exI [of _ m'] exI [of _ calls]
          exI [of _ events]) simp
  qed
qed

section \<open>Whole frames\<close>

text \<open>
  What the code relies on of the radiotap library: initialising an iterator fails unless the
  header with its length field fits into the bytes given; an iterator (\<open>I\<close>) moves on only
  finitely often (\<open>m\<close> decreases), and a field it has found has the size of its type.
\<close>

definition field_fits :: "'it radiotap_lib \<Rightarrow> 'it \<Rightarrow> bool" where
  "field_fits rt it \<longleftrightarrow> (rt_is_radiotap_ns rt it \<longrightarrow>
     (if rt_this_arg_index rt it = RADIOTAP_TSFT rt then 8 else 1) \<le> length (rt_this_arg rt it))"

definition radiotap_ok :: "'it radiotap_lib \<Rightarrow> ('it \<Rightarrow> bool) \<Rightarrow> ('it \<Rightarrow> nat) \<Rightarrow> bool" where
  "radiotap_ok rt I m \<longleftrightarrow>
     (\<forall>bs n. 0 \<le> fst (rt_iterator_init rt bs n) \<longrightarrow>
        int (rt_it_len rt + 2) \<le> n \<and> I (snd (rt_iterator_init rt bs n)))
     \<and> (\<forall>it. I it \<longrightarrow> fst (rt_iterator_next rt it) = 0 \<longrightarrow>
          I (snd (rt_iterator_next rt it)) \<and> m (snd (rt_iterator_next rt it)) < m it
          \<and> field_fits rt (snd (rt_iterator_next rt it)))"

lemma radiotap_field_defined: "field_fits rt it \<Longrightarrow> \<exists>vs'. radiotap_field rt it vs = Some vs'"
  by (cases "rt_this_arg_index rt it = RADIOTAP_TSFT rt")
    (auto simp: radiotap_field_def field_fits_def mem_load_def split: option.splits)

lemma radiotap_loop_defined:
  assumes rt: "radiotap_ok rt I m"
  shows "I it \<Longrightarrow> \<exists>err vs'. radiotap_loop rt it vs = Some (err, vs')"
proof (induction "m it" arbitrary: it vs rule: less_induct)
  case less
  show ?case
  proof (cases "fst (rt_iterator_next rt it) = 0")
    case False
    then show ?thesis by (subst radiotap_loop.simps) simp
  next
    case True
    let ?it = "snd (rt_iterator_next rt it)"
    have n: "I ?it" "m ?it < m it" and a: "field_fits rt ?it"
      using rt less.prems True unfolding radiotap_ok_def by blast+
    from radiotap_field_defined [OF a] obtain vs' where "radiotap_field rt ?it vs = Some vs'" by blast
    with less.hyps [OF n(2,1), of vs'] True show ?thesis by (subst radiotap_loop.simps) simp
  qed
qed

text \<open>The length a radiotap header announces.\<close>

definition radiotap_length :: "'it radiotap_lib \<Rightarrow> u8 list \<Rightarrow> nat" where
  "radiotap_length rt xs = unat (of_le_bytes (take 2 (drop (rt_it_len rt) xs)) :: u16)"

lemma sim_load_at:
  assumes b: "sim b (Some xs)" and k: "k + n \<le> length xs"
  shows "mem_load (bdata b) (unat (buf_current b) + k) n = Some (take n (drop k xs))"
proof -
  have wf: "wf_buf b" and xs: "inp b = xs" using b by (simp_all add: sim_def)
  have "k \<le> room b" "n \<le> room (skip k b)"
    using k length_inp [OF wf] room_skip [OF wf, of k] by (simp_all add: xs)
  with inp_load [OF wf_buf_skip [OF wf], of k n] inp_skip [OF wf, of k] unat_skip [OF wf, of k]
  show ?thesis by (simp add: xs buf_current_def)
qed

lemma parse_radiotap_header_run:
  assumes rt: "radiotap_ok rt I m" and b: "sim frame (Some xs)"
  shows "\<exists>r vs' frame'. ieee80211_parse_radiotap_header rt frame vs = Some (r, vs', frame')
    \<and> (0 \<le> r \<longrightarrow> sim frame' (Some (drop (radiotap_length rt xs) xs)))"
proof -
  let ?n = "unat (buf_current frame)"
  obtain err it where init: "rt_iterator_init rt (drop ?n (bdata frame)) (buf_rest frame) = (err, it)" by fastforce
  show ?thesis
  proof (cases "err < 0")
    case True
    then show ?thesis by (simp add: ieee80211_parse_radiotap_header_def init)
  next
    case False
    with rt init have fits: "int (rt_it_len rt + 2) \<le> buf_rest frame" and it: "I it"
      unfolding radiotap_ok_def by (metis fst_conv not_less, metis fst_conv snd_conv not_less)
    from radiotap_loop_defined [OF rt it, of vs] obtain err' vs' where
      loop: "radiotap_loop rt it vs = Some (err', vs')" by blast
    let ?l = "of_le_bytes (take 2 (drop (rt_it_len rt) xs)) :: u16"
    have load: "mem_load (bdata frame) (?n + rt_it_len rt) 2 = Some (take 2 (drop (rt_it_len rt) xs))"
      using sim_load_at [OF b, of "rt_it_len rt" 2] fits by (simp add: sim_rest [OF b])
    have small: "unat (ucast ?l :: size_t) < 2 ^ 31" "unat (ucast ?l :: size_t) = radiotap_length rt xs"
      using small_u16 [of ?l] by (simp_all add: unat_ucast_u16 radiotap_length_def)
    have "0 \<le> fst (buf_advance frame (ucast ?l)) \<longrightarrow> sim (snd (buf_advance frame (ucast ?l))) (Some (drop (radiotap_length rt xs) xs))"
      using sim_advance [OF b small(1)] small length_inp [OF sim_wf [OF b]] b
      by (auto simp: buf_advance_wf [OF sim_wf [OF b] small(1)] skip_bytes_def sim_def)
    then show ?thesis
      using False by (auto simp: ieee80211_parse_radiotap_header_def init loop load Let_def case_prod_beta)
  qed
qed

lemma parse_fcs_run:
  assumes b: "sim frame (Some xs)" and r: "ieee80211_parse_fcs rt frame flags = (r, frame')" "0 \<le> r"
  shows "\<exists>n. sim frame' (Some (take n xs))"
proof (cases "flags AND RADIOTAP_F_BADFCS rt \<noteq> 0 \<or> flags AND RADIOTAP_F_FCS rt = 0")
  case True
  then have "frame' = frame" using r by (auto simp: ieee80211_parse_fcs_def split: if_splits)
  then show ?thesis using b by (intro exI [of _ "length xs"]) simp
next
  case False
  have wf: "wf_buf frame" and xs: "inp frame = xs" using b by (simp_all add: sim_def)
  from False r have "4 \<le> room frame" "frame' = frame\<lparr>bend := bend frame - int 4\<rparr>"
    by (auto simp: ieee80211_parse_fcs_def buf_take_wf [OF wf] split: if_splits)
  with wf_buf_take [OF wf, of 4] b show ?thesis
    by (intro exI [of _ "room frame - 4"]) (simp add: sim_def xs)
qed

text \<open>The bytes the reception takes for the time stamp of a beacon.\<close>

definition rx_timestamp :: "'it radiotap_lib \<Rightarrow> u8 list \<Rightarrow> u64" where
  "rx_timestamp rt xs = of_le_bytes (take 8 (drop (radiotap_length rt xs + 24) xs))"

lemma rx_timestamp_cut:
  "18 \<le> length (drop 24 (take n (drop k xs))) \<Longrightarrow>
     take 8 (drop 24 (take n (drop k xs))) = take 8 (drop (k + 24) xs)"
  by (simp add: drop_take add.commute)

lemma nan_rx_run:
  assumes rt: "radiotap_ok rt I m" and listen: "listen_ok listen known" and ok: "device_ok state mem"
    and kn: "all_known known state mem" and j: "junk_ok j" and b: "sim frame (Some xs)"
    and e: "clock_ok (st_timer state) now_usec (rx_timestamp rt xs)"
  shows "\<exists>r frame' state' mem' calls events. nan_rx rt listen j frame state mem now_usec
      = Some (r, frame', state', mem', calls, events) \<and> device_ok state' mem' \<and> all_known known state' mem'
    \<and> peer_config (st_peers state') = peer_config (st_peers state) \<and> calls_ok (st_peers state') calls"
proof -
  let ?vs = "\<lparr>rv_rssi = rj_rssi j, rv_flags = rj_flags j, rv_tsft = None\<rparr>"
  from parse_radiotap_header_run [OF rt b, of ?vs] obtain r1 vs b1 where
    1: "ieee80211_parse_radiotap_header rt frame ?vs = Some (r1, vs, b1)"
      "0 \<le> r1 \<longrightarrow> sim b1 (Some (drop (radiotap_length rt xs) xs))" by blast
  obtain r2 b2 where 2: "ieee80211_parse_fcs rt b1 (rv_flags vs) = (r2, b2)" by fastforce
  show ?thesis
  proof (cases "r1 < 0 \<or> r2 < 0")
    case True
    then show ?thesis using 1 2 ok kn by (auto simp: nan_rx_def)
  next
    case False
    from parse_fcs_run [OF _ 2] 1(2) False obtain n where
      b2: "sim b2 (Some (take n (drop (radiotap_length rt xs) xs)))" by auto
    define ys where "ys = take n (drop (radiotap_length rt xs) xs)"
    note b2 = b2 [folded ys_def]
    note run0 = nan_rx_def 1(1) 2 Option.bind.simps prod.case Let_def
    show ?thesis
    proof (cases "length ys < 24")
      case True
      have "nan_rx rt listen j frame state mem now_usec = Some (rx_result_val RX_TOO_SHORT, b2, state, mem, [], [])"
        unfolding run0 using False True by (simp add: sim_rest [OF b2])
      with ok kn calls_ok_Nil show ?thesis by blast
    next
      case long: False
      define hdr where "hdr = ieee80211_hdr_of (take 24 ys)"
      define b3 where "b3 = snd (buf_advance b2 24)"
      define fc where "fc = hdr_frame_control hdr AND (IEEE80211_FCTL_FTYPE OR IEEE80211_FCTL_STYPE)"
      have small: "unat (24 :: size_t) < 2 ^ 31" "24 \<le> length ys" using long by simp_all
      have adv: "buf_advance b2 24 = (24, b3)" and b3: "sim b3 (Some (drop 24 ys))"
        using sim_advance [OF b2 small(1)] small b2 length_inp [OF sim_wf [OF b2]]
        by (auto simp: b3_def buf_advance_wf [OF sim_wf [OF b2] small(1)] skip_bytes_def sim_def)
      have run: "nan_rx rt listen j frame state mem now_usec =
        (if ether_addr_equal (hdr_addr2 hdr) (st_self_address state)
         then Some (rx_result_val RX_IGNORE_FROM_SELF, b2, state, mem, [], [])
         else if fc = IEEE80211_FTYPE_MGMT OR IEEE80211_STYPE_BEACON then
           do { (r, frame, state, mem, calls) \<leftarrow>
                  nan_rx_beacon j b3 state mem (hdr_addr2 hdr) (hdr_addr3 hdr) (rv_rssi vs) now_usec;
                Some (r, frame, state, mem, calls, []) }
         else if fc = IEEE80211_FTYPE_MGMT OR IEEE80211_STYPE_ACTION then
           nan_rx_action listen j b3 state mem (hdr_addr2 hdr) (hdr_addr1 hdr) (hdr_addr3 hdr) now_usec
         else Some (rx_result_val RX_UNEXPECTED_TYPE, b3, state, mem, [], []))"
        unfolding run0 using False long
        by (simp add: sim_rest [OF b2] sim_load [OF b2 small(2)] adv Let_def fc_def flip: hdr_def)
      have e': "18 \<le> length (drop 24 ys) \<Longrightarrow>
          clock_ok (st_timer state) now_usec (of_le_bytes (take 8 (drop 24 ys)))"
        unfolding ys_def using e by (simp only: rx_timestamp_cut rx_timestamp_def)
      from rx_beacon_run [OF ok j b3 e', of "hdr_addr2 hdr" "hdr_addr3 hdr" "rv_rssi vs"]
      obtain r frame' state' mem' calls where
        beacon: "nan_rx_beacon j b3 state mem (hdr_addr2 hdr) (hdr_addr3 hdr) (rv_rssi vs) now_usec
            = Some (r, frame', state', mem', calls)" "device_ok state' mem'"
          "peer_config (st_peers state') = peer_config (st_peers state)" "calls_ok (st_peers state') calls"
          "st_events state' = st_events state" "mm_listeners mem' = mm_listeners mem" by blast
      have "all_known known state' mem'" using kn beacon(5,6) by (simp add: all_known_def)
      note beacon = beacon(1-4) this
      from rx_action_run [OF listen ok kn j b3, of "hdr_addr2 hdr" "hdr_addr1 hdr" "hdr_addr3 hdr" now_usec]
      obtain rs frame2 state2 mem2 calls2 events where
        action: "nan_rx_action listen j b3 state mem (hdr_addr2 hdr) (hdr_addr1 hdr) (hdr_addr3 hdr) now_usec
            = Some (rs, frame2, state2, mem2, calls2, events)" "device_ok state2 mem2" "all_known known state2 mem2"
          "peer_config (st_peers state2) = peer_config (st_peers state)" "calls_ok (st_peers state2) calls2" by blast
      show ?thesis
        unfolding run using ok kn beacon action by (auto simp: if_splits)
    qed
  qed
qed

section \<open>A device to start from\<close>

definition booted :: "nan_state \<Rightarrow> nan_state" where
  "booted s = s\<lparr>st_buffer := \<lparr>cb_buffer = replicate 16 0, cb_head = 0, cb_tail = 0, cb_capacity = 16, cb_full = False\<rparr>,
     st_sync := nan_sync_state_init (Ether_Addr 2 0 0 0 0 1), st_peers := nan_peer_state_init (st_peers s),
     st_timer := nan_timer_state_init (st_timer s) 0, st_events := nan_event_state_init (st_events s),
     st_services := nan_service_state_init (st_services s), st_self_address := Ether_Addr 2 0 0 0 0 1\<rparr>"

definition empty_memory :: nan_memory where
  "empty_memory = \<lparr>mm_peers = store_empty, mm_listeners = store_empty, mm_services = store_empty,
     mm_frames = store_empty, mm_rng = \<lparr>rng_draw = \<lambda>_. 7, rng_pos = 0\<rparr>\<rparr>"

lemma sync_inv_init: "sync_inv (nan_sync_state_init a)"
  by (rule sync_reachable_inv) (rule sync_reachable.init)

lemma averages_ok_init: "averages_ok (nan_peer_state_init s) h"
  by (simp add: averages_ok_def lookup_peer_def nan_peer_state_init_def)

lemma timer_window_init: "error_window (nan_timer_state_init s now_usec)"
  using ma_inv_init [of 32] by (simp add: nan_timer_state_init_def error_window_def Let_def moving_average_init_def)

lemma device_ok_booted: "device_ok (booted s) empty_memory"
proof -
  have "rng_live \<lparr>rng_draw = \<lambda>_. 7, rng_pos = 0\<rparr>" by (auto simp: rng_live_def)
  moreover have "listeners_ok (nan_event_state_init (st_events s)) store_empty"
    by (simp add: listeners_ok_def nan_event_state_init_def)
  moreover have "queue_ok \<lparr>cb_buffer = replicate 16 0, cb_head = 0, cb_tail = 0, cb_capacity = 16, cb_full = False\<rparr> store_empty"
    by (simp add: queue_ok_def cbuf_defs cbuf_contents_def)
  ultimately show ?thesis
    by (simp add: device_defs booted_def empty_memory_def peers_ok_init services_ok_init sync_inv_init
        averages_ok_init timer_window_init)
qed

lemma booted_simps:
  "st_lookup (booted s) empty_memory a = None" "st_published (booted s) empty_memory = []"
  "base_time_usec (st_timer (booted s)) = 0" "\<not> ma_buffer_full (average_error_state (st_timer (booted s)))"
  "st_self_address (booted s) = Ether_Addr 2 0 0 0 0 1"
  by (simp_all add: booted_def lookup_peer_def nan_peer_state_init_def published_def nan_service_state_init_def
      nan_timer_state_init_def Let_def moving_average_init_def)

lemma clock_ok_1000: "clock_ok (st_timer (booted s)) 1000 0"
  by (simp add: clock_ok_def clock_error_def clock_ahead_def nan_timer_get_synced_time_usec_def booted_simps c_int_id)

section \<open>Properties\<close>

text \<open>
  C6: A beacon with a valid header, and a time stamp that is \<open>clock_ok\<close>, is read to its end
  without leaving the frame and makes its sender a known peer: the entry has exactly the values its attributes announce, the
  other peers keep theirs, and the result is that of reading the attributes. A beacon with
  any other header changes nothing.
\<close>

theorem nan_rx_beacon_records_sender:
  assumes "device_ok state mem" "junk_ok j" "wf_buf frame" "berror frame = 0"
    and "18 \<le> length (inp frame) \<Longrightarrow>
      clock_ok (st_timer state) now_usec (of_le_bytes (take 8 (inp frame)))"
  shows "\<exists>r frame' state' mem' calls. nan_rx_beacon j frame state mem a cl rssi now_usec
      = Some (r, frame', state', mem', calls)
    \<and> (if fst (beacon_header_of (inp frame)) \<noteq> rx_result_val RX_OK
       then r = fst (beacon_header_of (inp frame)) \<and> state' = state \<and> mem' = mem \<and> calls = []
       else r = min 0 (fst (beacon_sender j state mem a cl now_usec (inp frame)))
         \<and> (\<exists>v. st_lookup state' mem' = (st_lookup state mem)(a \<mapsto> v)
              \<and> announced_by v = announced_by (snd (beacon_sender j state mem a cl now_usec (inp frame)))))"
  using rx_beacon_run [OF assms(1,2) sim_inp [OF assms(3,4)] assms(5), of a cl rssi] by fastforce

text \<open>A synchronisation beacon of a device with master preference 128 and random factor 5.\<close>

theorem nan_rx_beacon_records_sender_witness:
  "\<forall>s j. \<exists>frame' state' mem' calls v. nan_rx_beacon (sized j) (buf_new_const
      [0, 0, 0, 0, 0, 0, 0, 0, 0, 2, 0x20, 4, 0xdd, 25, 0x50, 0x6f, 0x9a, 0x13, 0, 2, 0, 128, 5] 23)
      (booted s) empty_memory (Ether_Addr 2 0 0 0 0 9) (Ether_Addr 0x50 0x6f 0x9a 1 0 0) (- 50) 1000
    = Some (rx_result_val RX_OK, frame', state', mem', calls)
    \<and> st_lookup state' mem' (Ether_Addr 2 0 0 0 0 9) = Some v
    \<and> pe_master_preference v = 128 \<and> pe_random_factor v = 5"
proof (intro allI)
  fix s :: nan_state and j :: rx_junk
  let ?bs = "[0, 0, 0, 0, 0, 0, 0, 0, 0, 2, 0x20, 4, 0xdd, 25, 0x50, 0x6f, 0x9a, 0x13, 0, 2, 0, 128, 5] :: u8 list"
  let ?a = "Ether_Addr 2 0 0 0 0 9" and ?c = "Ether_Addr 0x50 0x6f 0x9a 1 0 0"
  have b: "wf_buf (buf_new_const ?bs 23)" "berror (buf_new_const ?bs 23) = 0" "inp (buf_new_const ?bs 23) = ?bs"
    using buf_new_const_wf [of 23 ?bs] by simp_all
  have hd: "fst (beacon_header_of ?bs) = rx_result_val RX_OK"
    by code_simp
  have e: "clock_ok (st_timer (booted s)) 1000 (of_le_bytes (take 8 ?bs))"
    by (simp add: clock_ok_1000)
  define v0 where "v0 = added_peer (rj_peer (sized j)) None ?a ?c 1000"
  have snd: "beacon_sender (sized j) (booted s) empty_memory ?a ?c 1000 ?bs
      = (rx_result_val RX_OK, nan_peer_set_master_indication v0 128 5)"
    by (simp add: beacon_sender_def booted_simps iterate_effect_def end_accepted_def beacon_effect_def
        master_indication_effect_def v0_def)
  from nan_rx_beacon_records_sender [OF device_ok_booted [of s] junk_ok_sized [of j] b(1,2), of 1000 ?a ?c "- 50"] e
  show "\<exists>frame' state' mem' calls v. nan_rx_beacon (sized j) (buf_new_const ?bs 23)
      (booted s) empty_memory ?a ?c (- 50) 1000 = Some (rx_result_val RX_OK, frame', state', mem', calls)
    \<and> st_lookup state' mem' ?a = Some v \<and> pe_master_preference v = 128 \<and> pe_random_factor v = 5"
    unfolding b(3) snd hd
    by (auto simp: announced_by_def nan_peer_set_master_indication_def)
qed

text \<open>
  C7: An action frame of the NAN vendor makes its sender a known peer. If it is a service
  discovery frame whose attributes can be read, its descriptors are handled in order: each
  marks the published service it asks for, or runs the listeners of its event one after the
  other, before the next descriptor is looked at in the state they left. Nothing else happens,
  and any other frame changes nothing.
\<close>

theorem nan_rx_action_effect:
  assumes "listen_ok listen known" "device_ok state mem" "all_known known state mem" "junk_ok j" "wf_buf frame" "berror frame = 0"
  shows "\<exists>frame' ps ph state' mem' calls events. nan_rx_action listen j frame state mem a destination cl now_usec
      = Some (action_result j (inp frame), frame', state', mem', calls, events)
    \<and> lookup_peer ps ph = (if action_known (inp frame)
         then (st_lookup state mem)(a \<mapsto> added_peer (rj_peer j) (st_lookup state mem a) a cl now_usec)
         else st_lookup state mem)
    \<and> action_handled listen j (inp frame) a destination (state\<lparr>st_peers := ps\<rparr>, mem\<lparr>mm_peers := ph\<rparr>) events (state', mem')
    \<and> st_peers state' = ps \<and> mm_peers mem' = ph"
  using rx_action_run [OF assms(1-4) sim_inp [OF assms(5,6)], of a destination cl now_usec] by blast

text \<open>A listener that does nothing.\<close>

definition idle_listener :: listen where
  "idle_listener call state mem = Some (state, mem)"

lemma idle_listener_ok: "listen_ok idle_listener (\<lambda>_. True)"
  by (simp add: listen_ok_def idle_listener_def all_known_def)

lemma all_known_True: "all_known (\<lambda>_. True) state mem"
  by (simp add: all_known_def)

text \<open>A frame that asks for the published service of \<open>two_state\<close> marks it.\<close>

theorem nan_rx_action_effect_witness:
  "\<forall>s j. \<exists>frame' state' mem' calls. nan_rx_action idle_listener (sized j) (buf_new_const
        [4, 9, 0x50, 0x6f, 0x9a, 0x13, 3, 9, 0, 1, 2, 3, 4, 5, 6, 9, 0, 1] 18)
      (booted s\<lparr>st_services := two_state\<rparr>) (empty_memory\<lparr>mm_services := two_services\<rparr>)
      (Ether_Addr 2 0 0 0 0 9) (Ether_Addr 2 0 0 0 0 1) (Ether_Addr 0x50 0x6f 0x9a 1 0 0) 1000
    = Some (rx_result_val RX_OK, frame', state', mem', calls, [])
    \<and> map sv_parameters_flag (st_published state' mem') = [True]
    \<and> st_lookup state' mem' (Ether_Addr 2 0 0 0 0 9)
      = Some (added_peer (rj_peer (sized j)) None (Ether_Addr 2 0 0 0 0 9) (Ether_Addr 0x50 0x6f 0x9a 1 0 0) 1000)"
proof (intro allI)
  fix s :: nan_state and j :: rx_junk
  let ?bs = "[4, 9, 0x50, 0x6f, 0x9a, 0x13, 3, 9, 0, 1, 2, 3, 4, 5, 6, 9, 0, 1] :: u8 list"
  let ?s = "booted s\<lparr>st_services := two_state\<rparr>" and ?m = "empty_memory\<lparr>mm_services := two_services\<rparr>"
  let ?a = "Ether_Addr 2 0 0 0 0 9" and ?c = "Ether_Addr 0x50 0x6f 0x9a 1 0 0"
  have b: "wf_buf (buf_new_const ?bs 18)" "berror (buf_new_const ?bs 18) = 0" "inp (buf_new_const ?bs 18) = ?bs"
    using buf_new_const_wf [of 18 ?bs] by simp_all
  have ok: "device_ok ?s ?m" using device_ok_booted [of s] services_ok_two by (simp add: device_defs)
  have known: "action_known ?bs" by code_simp
  have flags: "\<not> sdc_binding_bitmap_present 1" "\<not> sdc_matching_filter_present 1"
      "\<not> sdc_service_response_filter_present 1" "\<not> sdc_service_info_present 1" by code_simp+
  obtain sd where sd: "descriptors_of (sized j) (drop 6 ?bs) = (rx_result_val RX_OK, [sd], [])"
      "sda_service_id sd = [1, 2, 3, 4, 5, 6]" "sda_control sd = 1"
    by (auto simp: descriptors_of_def iterate_effect_def end_accepted_def service_discovery_effect_def sda_of_def flags)
  note sd' = sd(1) [simplified]
  have dis: "action_discovery (sized j) ?bs"
    using known by (simp add: action_discovery_def sd')
  have res: "action_result (sized j) ?bs = rx_result_val RX_OK"
    using known by (simp add: action_result_def sd' action_known_def)
  have ct: "sdc_service_control_type 1 = 1" by (simp add: sdc_service_control_type_def field_get_def)
  have ev: "events_of state mem src dst sd = []" for state mem src dst
    by (simp add: events_of_def received_events_def sd ct)
  have handled: "map sv_parameters_flag (st_published state' mem') = [True] \<and> events = []"
    if "descriptors_handled idle_listener src dst [sd] (?s\<lparr>st_peers := ps\<rparr>, ?m\<lparr>mm_peers := ph\<rparr>) events (state', mem')"
    for src dst ps ph events state' mem'
    using that
    by cases (auto simp: ev marked_def sd ct published_def two_state_def service_at_def two_services_def)
  from nan_rx_action_effect [OF idle_listener_ok ok all_known_True junk_ok_sized [of j] b(1,2), of ?a
      "Ether_Addr 2 0 0 0 0 1" ?c 1000]
  obtain frame' state' mem' calls events where effect:
      "nan_rx_action idle_listener (sized j) (buf_new_const ?bs 18) ?s ?m ?a (Ether_Addr 2 0 0 0 0 1) ?c 1000
        = Some (rx_result_val RX_OK, frame', state', mem', calls, events)"
      "st_lookup state' mem' ?a = Some (added_peer (rj_peer (sized j)) (st_lookup ?s ?m ?a) ?a ?c 1000)"
      "action_handled idle_listener (sized j) ?bs ?a (Ether_Addr 2 0 0 0 0 1) (?s\<lparr>st_peers := st_peers state'\<rparr>,
        ?m\<lparr>mm_peers := mm_peers mem'\<rparr>) events (state', mem')"
    unfolding b(3) res by (auto simp: known simp del: One_nat_def)
  show "\<exists>frame' state' mem' calls. nan_rx_action idle_listener (sized j) (buf_new_const ?bs 18) ?s ?m ?a
      (Ether_Addr 2 0 0 0 0 1) ?c 1000 = Some (rx_result_val RX_OK, frame', state', mem', calls, [])
    \<and> map sv_parameters_flag (st_published state' mem') = [True]
    \<and> st_lookup state' mem' ?a = Some (added_peer (rj_peer (sized j)) None ?a ?c 1000)"
    using effect handled by (auto simp: action_handled_def dis sd' booted_simps)
qed

text \<open>
  C2: Whatever bytes are received, the reception returns: it never leaves the frame, never
  uses freed or unallocated memory and never loops for ever, and it keeps the state of the
  device well-formed, provided that the listeners it calls do. The exceptions (\<open>clock_ok\<close>) are
  beacons with certain time stamps. Two make the code compute the absolute value of the least
  \<^verbatim>\<open>int\<close>: those that differ from the own time by exactly \<open>2\<^sup>3\<^sup>1\<close> microseconds modulo \<open>2\<^sup>3\<^sup>2\<close>, and
  those that differ by \<open>2\<^sup>3\<^sup>1\<close> units of 1024 microseconds, and less than one more, modulo \<open>2\<^sup>3\<^sup>2\<close>
  units. The third kind takes the average clock error, which drifts, out of the range of \<^verbatim>\<open>int\<close>.
\<close>

theorem nan_rx_safe:
  assumes "radiotap_ok rt I m" "listen_ok listen known" "device_ok state mem" "all_known known state mem" "junk_ok j"
    and "wf_buf frame" "berror frame = 0"
    and "clock_ok (st_timer state) now_usec (rx_timestamp rt (inp frame))"
  shows "\<exists>r frame' state' mem' calls events. nan_rx rt listen j frame state mem now_usec
      = Some (r, frame', state', mem', calls, events) \<and> device_ok state' mem' \<and> all_known known state' mem'"
  using nan_rx_run [OF assms(1-5) sim_inp [OF assms(6,7)] assms(8)] by blast

text \<open>
  A library whose iterator checks that the header is there and then yields the field list of
  a frame with a flags byte and a signal strength, one after the other.
\<close>

definition listing_radiotap :: "(nat \<times> u8 list) list radiotap_lib" where
  "listing_radiotap = \<lparr>rt_header_size = 8, rt_it_version = 0, rt_it_pad = 1, rt_it_len = 2, rt_it_present = 4,
     RADIOTAP_TSFT = 0, RADIOTAP_FLAGS = 1, RADIOTAP_RATE = 2, RADIOTAP_DBM_ANTSIGNAL = 5, RADIOTAP_F_FCS = 0x10,
     RADIOTAP_F_BADFCS = 0x40,
     rt_iterator_init = \<lambda>bs n. if n < 10 \<or> length bs < 10 then (- 22, [])
       else (0, [(0, []), (1, [bs ! 8]), (5, [bs ! 9])]),
     rt_iterator_next = \<lambda>fs. (if tl fs = [] then - 2 else 0, tl fs),
     rt_is_radiotap_ns = \<lambda>_. True, rt_this_arg_index = \<lambda>fs. fst (hd fs), rt_this_arg = \<lambda>fs. snd (hd fs)\<rparr>"

lemma listing_radiotap_ok:
  "radiotap_ok listing_radiotap (\<lambda>fs. \<forall>f \<in> set (tl fs). fst f \<noteq> 0 \<and> 1 \<le> length (snd f)) length"
proof -
  have "field_fits listing_radiotap (tl fs)" "length (tl fs) < length fs"
    if "\<forall>f \<in> set (tl fs). fst f \<noteq> 0 \<and> 1 \<le> length (snd f)" "tl fs \<noteq> []" for fs :: "(nat \<times> u8 list) list"
    using that by (cases fs; cases "tl fs"; simp add: field_fits_def listing_radiotap_def)+
  then show ?thesis
    by (auto simp: radiotap_ok_def listing_radiotap_def dest: list.set_sel(2) split: if_splits)
qed

text \<open>Five zero bytes after the radiotap header are too short for a header.\<close>

theorem nan_rx_safe_witness:
  "\<forall>s j. \<exists>r frame' state' mem' calls events. nan_rx listing_radiotap idle_listener (sized j)
      (buf_new_const [0, 0, 10, 0, 0x22, 0, 0, 0, 0, 200, 1, 2, 3, 4, 5] 15) (booted s) empty_memory 1000
    = Some (r, frame', state', mem', calls, events) \<and> device_ok state' mem'"
proof (intro allI)
  fix s :: nan_state and j :: rx_junk
  let ?bs = "[0, 0, 10, 0, 0x22, 0, 0, 0, 0, 200, 1, 2, 3, 4, 5] :: u8 list"
  have b: "wf_buf (buf_new_const ?bs 15)" "berror (buf_new_const ?bs 15) = 0" "inp (buf_new_const ?bs 15) = ?bs"
    using buf_new_const_wf [of 15 ?bs] by simp_all
  have "rx_timestamp listing_radiotap ?bs = 0"
    by (simp add: rx_timestamp_def radiotap_length_def listing_radiotap_def)
  then have "clock_ok (st_timer (booted s)) 1000 (rx_timestamp listing_radiotap (inp (buf_new_const ?bs 15)))"
    unfolding b(3) by (simp add: clock_ok_1000)
  from nan_rx_safe [OF listing_radiotap_ok idle_listener_ok device_ok_booted all_known_True junk_ok_sized b(1,2) this]
  show "\<exists>r frame' state' mem' calls events. nan_rx listing_radiotap idle_listener (sized j) (buf_new_const ?bs 15)
      (booted s) empty_memory 1000 = Some (r, frame', state', mem', calls, events) \<and> device_ok state' mem'" by blast
qed

end
