(* ===== verification/Nan_Tx_Frames.thy ===== *)
theory Nan_Tx_Frames
  imports Nan_Tx Nan_Rx_Attributes
begin

text \<open>
  What the functions of \<open>Nan_Tx\<close> write, byte for byte, when the buffer has enough room, and
  what a receiver reads from it.
\<close>

section \<open>A buffer that is being filled\<close>

text \<open>\<open>filled b ys n\<close>: \<open>ys\<close> was written so far, without an error, and \<open>n\<close> more bytes fit.\<close>

definition filled :: "buf \<Rightarrow> u8 list \<Rightarrow> nat \<Rightarrow> bool" where
  "filled b ys n \<longleftrightarrow> wf_buf b \<and> written b = ys \<and> room b = n \<and> berror b = 0 \<and> bstart b = 0"

lemma filled_wf: "filled b ys n \<Longrightarrow> wf_buf b"
  by (simp add: filled_def)

lemma filled_current: "filled b ys n \<Longrightarrow> unat (bcurrent b) = length ys"
  by (auto simp: filled_def written_def wf_buf_def)

lemma filled_bound:
  assumes "filled b ys n"
  shows "length ys + n < 2 ^ 31"
proof -
  obtain k e where "unat (bcurrent b) = k" "bend b = int e" "k \<le> e" "e < 2 ^ 31"
    using wf_bufE [OF filled_wf [OF assms]] by metis
  moreover have "room b = n" using assms by (simp add: filled_def)
  ultimately show ?thesis using filled_current [OF assms] by (simp add: room_def)
qed

lemma filled_memory:
  assumes "filled b ys n"
  shows "length ys + n \<le> length (bdata b)" "take (length ys) (bdata b) = ys"
  using assms wf_buf_cursor [OF filled_wf [OF assms]] filled_current [OF assms]
  by (auto simp: filled_def written_def)

lemma filled_load:
  assumes "filled b ys n" "i + k \<le> length ys"
  shows "mem_load (bdata b) i k = Some (take k (drop i ys))"
proof -
  have "take k (drop i (bdata b)) = take k (drop i (take (length ys) (bdata b)))"
    using assms(2) by (simp add: drop_take min_absorb1)
  then show ?thesis
    using assms(2) filled_memory [OF assms(1)] by (simp add: mem_load_def)
qed

lemma filled_patch:
  assumes f: "filled b ys n" and i: "i + length bs \<le> length ys"
  obtains b' where "put_struct i bs b = Some b'" "filled b' (take i ys @ bs @ drop (i + length bs) ys) n"
proof -
  have "i + length bs \<le> unat (bcurrent b) + room b" using i filled_current [OF f] by simp
  from put_struct_wf [OF filled_wf [OF f] this] obtain b' where
    b': "put_struct i bs b = Some b'" "wf_buf b'" "bcurrent b' = bcurrent b" "berror b' = berror b" "room b' = room b"
      "bstart b' = bstart b" "bdata b' = take i (bdata b) @ bs @ drop (i + length bs) (bdata b)" by blast
  have len: "length ys \<le> length (bdata b)" and ys: "take (length ys) (bdata b) = ys"
    using filled_memory [OF f] by simp_all
  have "written b' = take (length ys) (take i (bdata b) @ bs @ drop (i + length bs) (bdata b))"
    using b'(3,7) filled_current [OF f] by (simp add: written_def)
  also have "\<dots> = take i (bdata b) @ bs @ take (length ys - (i + length bs)) (drop (i + length bs) (bdata b))"
    using i len by (simp add: min_absorb1)
  also have "take (length ys - (i + length bs)) (drop (i + length bs) (bdata b)) = drop (i + length bs) ys"
    by (metis ys drop_take)
  also have "take i (bdata b) = take i ys"
    using i ys by (metis add_leE min.absorb1 take_take)
  finally show ?thesis using that [OF b'(1)] f b' by (simp add: filled_def)
qed

lemma filled_struct:
  assumes f: "filled b ys n" and bs: "length bs \<le> n" "unat k = length bs"
  obtains b' where "put_struct (unat (buf_current b)) bs b = Some b'" "filled (snd (buf_advance b' k)) (ys @ bs) (n - length bs)"
proof -
  have "unat (bcurrent b) + length bs \<le> unat (bcurrent b) + room b" using bs f by (simp add: filled_def)
  from put_struct_wf [OF filled_wf [OF f] this] obtain b' where
    b': "put_struct (unat (bcurrent b)) bs b = Some b'" "wf_buf b'" "bcurrent b' = bcurrent b" "berror b' = berror b"
      "room b' = room b" "bstart b' = bstart b"
      "bdata b' = take (unat (bcurrent b)) (bdata b) @ bs @ drop (unat (bcurrent b) + length bs) (bdata b)" by blast
  have k: "unat k < 2 ^ 31" "unat k \<le> room b'"
    using filled_bound [OF f] bs f b'(5) by (simp_all add: filled_def)
  have "k = of_nat (length bs)" unfolding bs(2) [symmetric] by simp
  have u: "unat (bcurrent b' + of_nat (length bs)) = length ys + length bs"
    using unat_skip [OF b'(2), of "length bs"] k b'(3) filled_current [OF f] bs(2) by simp
  have l: "length ys + n \<le> length (bdata b)" "take (length ys) (bdata b) = ys"
    using filled_memory [OF f] .
  have "filled (snd (buf_advance b' k)) (ys @ bs) (n - length bs)"
    using wf_buf_skip [OF b'(2), of "length bs"] room_skip [OF b'(2), of "length bs"] k u b'(3-7) f l bs
    by (simp add: buf_advance_wf [OF b'(2)] filled_def written_def filled_current [OF f])
  then show ?thesis using that b'(1) by (simp add: buf_current_def)
qed

lemma filled_put:
  assumes f: "filled b ys n" and bs: "length bs \<le> n"
  obtains b' where "put_bytes bs b = Some b'" "filled b' (ys @ bs) (n - length bs)"
proof -
  have r: "length bs \<le> room b" using f bs by (simp add: filled_def)
  from put_bytes_wf [OF filled_wf [OF f] r] obtain b' where
    b': "put_bytes bs b = Some b'" "wf_buf b'" "written b' = written b @ bs" "room b' = room b - length bs"
      "berror b' = berror b" by blast
  have "bstart b' = bstart b" using b'(1) by (auto simp: put_bytes_def split: bind_splits)
  with b' f show ?thesis by (intro that [of b']) (simp_all add: filled_def)
qed

lemma filled_write:
  assumes f: "filled b ys n" and bs: "length bs \<le> n"
  obtains b' where "write_macro b bs = Some (int (length bs), b')" "filled b' (ys @ bs) (n - length bs)"
proof (rule filled_put [OF f bs])
  fix b'
  assume "put_bytes bs b = Some b'" "filled b' (ys @ bs) (n - length bs)"
  moreover have "\<not> room b < length bs" using f bs by (simp add: filled_def)
  ultimately show ?thesis
    by (intro that [of b']) (simp_all add: write_macro_def wf_buf_check [OF filled_wf [OF f]])
qed

lemma filled_write_bytes:
  assumes f: "filled b ys n" and m: "unat m \<le> n" "unat m \<le> length src"
  obtains b' where "write_bytes b src m = Some (int (unat m), b')" "filled b' (ys @ take (unat m) src) (n - unat m)"
proof (rule filled_put [OF f, of "take (unat m) src"])
  fix b'
  assume "put_bytes (take (unat m) src) b = Some b'" "filled b' (ys @ take (unat m) src) (n - length (take (unat m) src))"
  moreover have "unat m < 2 ^ 31" "\<not> room b < unat m" using filled_bound [OF f] f m by (simp_all add: filled_def)
  ultimately show ?thesis
    using m by (intro that [of b'])
      (simp_all add: write_bytes_def c_int_uint wf_buf_check_size [OF filled_wf [OF f]] mem_load_def)
qed (use m in simp)

lemma filled_advance:
  assumes f: "filled b ys n" and m: "unat m \<le> n"
  obtains zs b' where "length zs = unat m" "buf_advance b m = (int (unat m), b')" "filled b' (ys @ zs) (n - unat m)"
proof -
  have r: "unat m \<le> room b" "unat m < 2 ^ 31" using f m filled_bound [OF f] by (simp_all add: filled_def)
  have "length (inp b) = room b" by (rule length_inp [OF filled_wf [OF f]])
  then show ?thesis
    using r f wf_buf_skip [OF filled_wf [OF f] r(1)] room_skip [OF filled_wf [OF f] r(1)]
      written_skip [OF filled_wf [OF f] r(1)]
    by (intro that [of "take (unat m) (inp b)" "skip (unat m) b"])
      (simp_all add: buf_advance_wf [OF filled_wf [OF f]] filled_def)
qed

text \<open>The same with the room split into what is written now and later.\<close>

lemma fill_u8: "filled b ys (1 + k) \<Longrightarrow> \<exists>b'. write_u8 b x = Some (1, b') \<and> filled b' (ys @ [x]) k"
  using filled_write [of b ys "1 + k" "[x]"] by (auto simp: write_u8_def)

lemma fill_le16: "filled b ys (2 + k) \<Longrightarrow> \<exists>b'. write_le16 b x = Some (2, b') \<and> filled b' (ys @ le_bytes 2 x) k"
  using filled_write [of b ys "2 + k" "le_bytes 2 x"] by (auto simp: write_le16_def simp del: le_bytes_numeral)

lemma fill_le32: "filled b ys (4 + k) \<Longrightarrow> \<exists>b'. write_le32 b x = Some (4, b') \<and> filled b' (ys @ le_bytes 4 x) k"
  using filled_write [of b ys "4 + k" "le_bytes 4 x"] by (auto simp: write_le32_def simp del: le_bytes_numeral)

lemma fill_bytes:
  "filled b ys (unat m + k) \<Longrightarrow> unat m \<le> length src \<Longrightarrow>
     \<exists>b'. write_bytes b src m = Some (int (unat m), b') \<and> filled b' (ys @ take (unat m) src) k"
  using filled_write_bytes [of b ys "unat m + k" m src] by auto

lemma fill_id:
  "filled b ys (6 + k) \<Longrightarrow> length src = 6 \<Longrightarrow>
     \<exists>b'. write_bytes b src (of_nat NAN_SERVICE_ID_LENGTH) = Some (6, b') \<and> filled b' (ys @ src) k"
  using fill_bytes [of b ys 6 k src] by auto

lemma fill_advance:
  "filled b ys (unat m + k) \<Longrightarrow> \<exists>zs b'. length zs = unat m \<and> buf_advance b m = (int (unat m), b') \<and> filled b' (ys @ zs) k"
  by (erule filled_advance [of b ys "unat m + k" m]) auto

lemma length_1E: "length zs = 1 \<Longrightarrow> \<exists>x. zs = [x]"
  by (cases zs) auto

lemma length_2E: "length zs = 2 \<Longrightarrow> \<exists>x y. zs = [x, y]"
  by (cases zs; cases "tl zs") auto

lemma fill_advance_1:
  assumes "filled b ys (1 + k)"
  shows "\<exists>x b'. buf_advance b 1 = (1, b') \<and> filled b' (ys @ [x]) k"
proof -
  obtain zs b' where "length zs = 1" "buf_advance b 1 = (1, b')" "filled b' (ys @ zs) k"
    using fill_advance [of b ys 1 k] assms by auto
  with length_1E [of zs] show ?thesis by blast
qed

lemma fill_advance_2:
  assumes "filled b ys (2 + k)"
  shows "\<exists>x y b'. buf_advance b 2 = (2, b') \<and> filled b' (ys @ [x, y]) k"
proof -
  obtain zs b' where "length zs = 2" "buf_advance b 2 = (2, b')" "filled b' (ys @ zs) k"
    using fill_advance [of b ys 2 k] assms by auto
  with length_2E [of zs] show ?thesis by blast
qed

lemma fill_struct:
  "filled b ys (length bs + k) \<Longrightarrow> unat m = length bs \<Longrightarrow>
     \<exists>b'. put_struct (unat (buf_current b)) bs b = Some b' \<and> filled (snd (buf_advance b' m)) (ys @ bs) k"
  using filled_struct [of b ys "length bs + k" bs m] by auto

lemma fill_patch:
  "filled b ys k \<Longrightarrow> i + length bs \<le> length ys \<Longrightarrow>
     \<exists>b'. put_struct i bs b = Some b' \<and> filled b' (take i ys @ bs @ drop (i + length bs) ys) k"
  using filled_patch [of b ys k i bs] by auto

section \<open>The attributes\<close>

definition attribute_bytes :: "nan_attribute_type \<Rightarrow> u8 list \<Rightarrow> u8 list" where
  "attribute_bytes t body = nan_attribute_header_bytes (attribute_type_val t) (of_nat (length body)) @ body"

lemma nan_add_master_indication_attribute_ok:
  assumes f: "filled b ys n" and n: "5 \<le> n"
  obtains b' where "nan_add_master_indication_attribute b state = Some (5, b')"
    "filled b' (ys @ attribute_bytes MASTER_INDICATION_ATTRIBUTE
        [sy_master_preference (st_sync state), sy_random_factor (st_sync state)]) (n - 5)"
proof -
  let ?a = "\<lparr>mi_id = attribute_type_val MASTER_INDICATION_ATTRIBUTE, mi_length = 2,
              mi_master_preference = sy_master_preference (st_sync state),
              mi_random_factor = sy_random_factor (st_sync state)\<rparr>"
  obtain b1 where "put_struct (unat (buf_current b)) (nan_master_indication_attribute_bytes ?a) b = Some b1"
    "filled (snd (buf_advance b1 5)) (ys @ nan_master_indication_attribute_bytes ?a) (n - 5)"
    using filled_struct [OF f, of "nan_master_indication_attribute_bytes ?a" 5] n by auto
  then show ?thesis
    by (intro that [of "snd (buf_advance b1 5)"])
      (simp_all add: nan_add_master_indication_attribute_def attribute_bytes_def
        nan_master_indication_attribute_bytes_def)
qed

lemma nan_add_cluster_attribute_ok:
  assumes f: "filled b ys n" and n: "16 \<le> n"
  obtains b' where "nan_add_cluster_attribute b state = Some (16, b')"
    "filled b' (ys @ attribute_bytes CLUSTER_ATTRIBUTE
        (le_bytes 8 (sy_anchor_master_rank (st_sync state)) @ [sy_hop_count (st_sync state)]
         @ le_bytes 4 (sy_ambtt (st_sync state)))) (n - 16)"
proof -
  let ?a = "\<lparr>ca_id = attribute_type_val CLUSTER_ATTRIBUTE, ca_length = 13,
              ca_anchor_master_rank = sy_anchor_master_rank (st_sync state),
              ca_hop_count = sy_hop_count (st_sync state),
              ca_anchor_master_beacon_transmission_time = sy_ambtt (st_sync state)\<rparr>"
  obtain b1 where "put_struct (unat (buf_current b)) (nan_cluster_attribute_bytes ?a) b = Some b1"
    "filled (snd (buf_advance b1 16)) (ys @ nan_cluster_attribute_bytes ?a) (n - 16)"
    using filled_struct [OF f, of "nan_cluster_attribute_bytes ?a" 16] n by auto
  then show ?thesis
    by (intro that [of "snd (buf_advance b1 16)"])
      (simp_all add: nan_add_cluster_attribute_def attribute_bytes_def nan_cluster_attribute_bytes_def
        del: le_bytes_numeral)
qed

lemma begin_attribute_ok:
  assumes f: "filled b ys n" and n: "3 \<le> n"
  obtains b' zs where "begin_attribute t b = Some b'" "length zs = 2"
    "filled b' (ys @ attribute_type_val t # zs) (n - 3)"
proof -
  define a where "a = attribute_type_val t"
  have "unat (bcurrent b) + length [a] \<le> unat (bcurrent b) + room b" using n f by (simp add: filled_def)
  from put_struct_wf [OF filled_wf [OF f] this] obtain b1 where
    b1: "put_struct (unat (bcurrent b)) [a] b = Some b1" "wf_buf b1" "bcurrent b1 = bcurrent b" "berror b1 = berror b"
      "room b1 = room b" "bstart b1 = bstart b"
      "bdata b1 = take (unat (bcurrent b)) (bdata b) @ [a] @ drop (unat (bcurrent b) + length [a]) (bdata b)" by blast
  have "written b1 = ys"
    using filled_memory [OF f] by (simp add: written_def b1(3,7) filled_current [OF f])
  then have f1: "filled b1 ys n" using f b1 by (simp add: filled_def)
  obtain zs b2 where b2: "length zs = 3" "buf_advance b1 3 = (3, b2)" "filled b2 (ys @ zs) (n - 3)"
    using filled_advance [OF f1, of 3] n by auto
  have "bdata b2 = bdata b1" using b2(2) by (auto simp: buf_advance_def split: if_splits)
  moreover have "bdata b1 ! length ys = a"
    using filled_memory(1) [OF f] by (simp add: b1(7) filled_current [OF f] nth_append)
  moreover have "take (length (ys @ zs)) (bdata b2) ! length ys = bdata b2 ! length ys"
    using b2(1) by (intro nth_take) simp
  ultimately have "(ys @ zs) ! length ys = a"
    using filled_memory(2) [OF b2(3)] by simp
  then have "zs = a # tl zs" using b2(1) by (cases zs) (auto simp: nth_append)
  then show ?thesis
    using b1(1) b2 by (intro that [of b2 "tl zs"]) (simp_all add: begin_attribute_def a_def buf_current_def)
qed

lemma end_attribute_ok:
  assumes f: "filled b (ys @ attribute_type_val t # zs @ body) n" and zs: "length zs = 2" and len: "unat len = length body"
  obtains b' where "end_attribute (length ys) len b = Some (3 + int (length body), b')"
    "filled b' (ys @ attribute_bytes t body) n"
proof -
  obtain x y where x: "zs = [x, y]" using zs by (auto simp: numeral_2_eq_2 length_Suc_conv)
  let ?n = "ucast len :: u16"
  obtain b' where b': "put_struct (length ys + 1) (le_bytes 2 ?n) b = Some b'"
    "filled b' (take (length ys + 1) (ys @ attribute_type_val t # zs @ body) @ le_bytes 2 ?n
       @ drop (length ys + 1 + 2) (ys @ attribute_type_val t # zs @ body)) n"
    using filled_patch [OF f, of "length ys + 1" "le_bytes 2 ?n"] zs by auto
  have n: "?n = of_nat (length body)" unfolding len [symmetric] by simp
  have "unat (len + 3) = length body + 3" "length body + 3 < 2 ^ 31"
    using filled_bound [OF f] zs len by (simp_all add: unat_word_ariths)
  moreover from this have "uint (len + 3) = int (length body + 3)" by (simp only: uint_nat)
  ultimately have "c_int (uint (len + 3)) = 3 + int (length body)"
    using c_int_uint [of "len + 3"] by simp
  then show ?thesis
    using b' by (intro that [of b'])
      (simp_all add: end_attribute_def attribute_bytes_def nan_attribute_header_bytes_def x n)
qed

text \<open>The service information, when it is short enough for one attribute and not the other.\<close>

definition small_info :: "u8 list option \<Rightarrow> size_t \<Rightarrow> u8 list option" where
  "small_info info n = (case info of Some bytes \<Rightarrow> if n < 256 then Some (take (unat n) bytes) else None | None \<Rightarrow> None)"

definition large_info :: "u8 list option \<Rightarrow> size_t \<Rightarrow> u8 list option" where
  "large_info info n = (case info of Some bytes \<Rightarrow> if n \<ge> 256 then Some (take (unat n) bytes) else None | None \<Rightarrow> None)"

definition sda_control_byte :: "nan_service_control_type \<Rightarrow> u8 list option \<Rightarrow> u8" where
  "sda_control_byte t info =
     (let c = sdc_set_service_control_type (service_control_type_val t) 0
      in if info = None then c else sdc_set_service_info_present 1 c)"

definition sda_body :: "nan_service \<Rightarrow> nan_service_control_type \<Rightarrow> u8 \<Rightarrow> u8 list option \<Rightarrow> u8 list" where
  "sda_body v t requestor info = sv_service_id v @ [sv_instance_id v, requestor, sda_control_byte t info]
     @ (case info of Some bytes \<Rightarrow> of_nat (length bytes) # bytes | None \<Rightarrow> [])"

definition sdea_body :: "nan_service \<Rightarrow> u8 list option \<Rightarrow> u8 list" where
  "sdea_body v info = sv_instance_id v
     # (if sv_type v = PUBLISHED then le_bytes 2 (sdec_set_service_update_indicator_present 1 0) @ [sv_update_indicator v]
        else le_bytes 2 (0 :: u16))
     @ (case info of Some bytes \<Rightarrow> le_bytes 2 (of_nat (length bytes) :: u16) @ bytes | None \<Rightarrow> [])"

lemma begin_attribute_ex:
  "filled b ys (3 + k) \<Longrightarrow> \<exists>b' zs. begin_attribute t b = Some b' \<and> length zs = 2
     \<and> filled b' (ys @ attribute_type_val t # zs) k"
  by (rule begin_attribute_ok [of b ys "3 + k" t]) auto

lemma current_length: "filled b ys k \<Longrightarrow> unat (buf_current b) = length ys"
  by (simp add: buf_current_def filled_current)

lemma nan_add_service_descriptor_attribute_ok:
  assumes f: "filled b ys (3 + length (sda_body v t r (small_info info m)) + k)"
    and v: "length (sv_service_id v) = 6" and fits: "info_fits info m"
  shows "\<exists>b'. nan_add_service_descriptor_attribute b v t r info m
      = Some (3 + int (length (sda_body v t r (small_info info m))), b')
    \<and> filled b' (ys @ attribute_bytes SERVICE_DESCRIPTOR_ATTRIBUTE (sda_body v t r (small_info info m))) k"
proof -
  let ?id = "attribute_type_val SERVICE_DESCRIPTOR_ATTRIBUTE"
  define rest where "rest = (case small_info info m of Some bytes \<Rightarrow> 1 + (length bytes + k) | None \<Rightarrow> k)"
  have "filled b ys (3 + (6 + (1 + (1 + (1 + rest)))))"
    using f v by (simp add: sda_body_def rest_def add.assoc split: option.splits)
  from begin_attribute_ex [OF this] obtain b1 zs where 1: "begin_attribute SERVICE_DESCRIPTOR_ATTRIBUTE b = Some b1"
    "length zs = 2" "filled b1 (ys @ ?id # zs) (6 + (1 + (1 + (1 + rest))))" by blast
  from fill_id [OF 1(3) v] obtain b2 where 2: "write_bytes b1 (sv_service_id v) (of_nat 6) = Some (6, b2)"
    "filled b2 ((ys @ ?id # zs) @ sv_service_id v) (1 + (1 + (1 + rest)))" by blast
  from fill_u8 [OF 2(2)] obtain b3 where 3: "write_u8 b2 (sv_instance_id v) = Some (1, b3)"
    "filled b3 (((ys @ ?id # zs) @ sv_service_id v) @ [sv_instance_id v]) (1 + (1 + rest))" by blast
  from fill_u8 [OF 3(2)] obtain b4 where 4: "write_u8 b3 r = Some (1, b4)"
    "filled b4 ((((ys @ ?id # zs) @ sv_service_id v) @ [sv_instance_id v]) @ [r]) (1 + rest)" by blast
  from fill_advance_1 [OF 4(2)] obtain x b5 where 5: "buf_advance b4 1 = (1, b5)"
    "filled b5 (((((ys @ ?id # zs) @ sv_service_id v) @ [sv_instance_id v]) @ [r]) @ [x]) rest" by blast
  define pre where "pre = (((ys @ ?id # zs) @ sv_service_id v) @ [sv_instance_id v]) @ [r]"
  define c where "c = sdc_set_service_control_type (service_control_type_val t) 0"
  have control: "unat (buf_current b4) = length pre" using current_length [OF 4(2)] by (simp add: pre_def)
  have patch: "\<exists>b'. put_struct (length pre) [z] bb = Some b' \<and> filled b' (pre @ [z]) rest"
    if "filled bb (pre @ [y]) rest" for bb y z
    using fill_patch [OF that, of "length pre" "[z]"] by simp
  obtain b6 where 6: "put_struct (length pre) [c] b5 = Some b6" "filled b6 (pre @ [c]) rest"
    using patch [of b5 x c] 5(2) by (auto simp: pre_def)
  have *: "\<exists>b7 len. (case info of
      Some bytes \<Rightarrow>
        if m < 256
        then do { b \<leftarrow> put_struct (length pre) [sdc_set_service_info_present 1 c] b6;
                  (n, b) \<leftarrow> write_u8 b (ucast m);
                  let len = 9 + word_of_int n;
                  (n, b) \<leftarrow> write_bytes b bytes m;
                  Some (len + word_of_int n, b) }
        else Some (9, b6)
    | None \<Rightarrow> Some (9, b6)) = Some (len, b7)
    \<and> filled b7 (ys @ ?id # zs @ sda_body v t r (small_info info m)) k
    \<and> unat (len :: size_t) = length (sda_body v t r (small_info info m))"
  proof (cases "small_info info m")
    case None
    then show ?thesis
      using 6(2) v
      by (auto simp: small_info_def sda_body_def rest_def pre_def sda_control_byte_def c_def split: option.splits if_splits)
  next
    case (Some bs)
    then obtain bytes where i: "info = Some bytes" "m < 256" "bs = take (unat m) bytes"
      by (auto simp: small_info_def split: option.splits if_splits)
    have m: "unat m \<le> length bytes" "unat m < 256" "length bs = unat m"
      using fits i by (simp_all add: info_fits_def word_less_nat_alt)
    obtain b7 where 7: "put_struct (length pre) [sdc_set_service_info_present 1 c] b6 = Some b7"
      "filled b7 (pre @ [sdc_set_service_info_present 1 c]) rest" using patch [OF 6(2)] by blast
    have "rest = 1 + (unat m + k)" using Some m by (simp add: rest_def)
    with 7(2) have "filled b7 (pre @ [sdc_set_service_info_present 1 c]) (1 + (unat m + k))" by simp
    from fill_u8 [OF this] obtain b8 where 8: "write_u8 b7 (ucast m) = Some (1, b8)"
      "filled b8 ((pre @ [sdc_set_service_info_present 1 c]) @ [ucast m]) (unat m + k)" by blast
    from fill_bytes [OF 8(2) m(1)] obtain b9 where 9: "write_bytes b8 bytes m = Some (int (unat m), b9)"
      "filled b9 (((pre @ [sdc_set_service_info_present 1 c]) @ [ucast m]) @ take (unat m) bytes) k" by blast
    have cm: "of_nat (unat m) = (ucast m :: u8)" by simp
    have "unat (9 + 1 + m) = 10 + unat m" using m by (simp add: unat_word_ariths)
    then show ?thesis
      using i 7(1) 8(1) 9 v m Some
      by (auto simp: sda_body_def pre_def sda_control_byte_def c_def cm add.assoc)
  qed
  then obtain b7 len where 7: "(case info of
      Some bytes \<Rightarrow>
        if m < 256
        then do { b \<leftarrow> put_struct (length pre) [sdc_set_service_info_present 1 c] b6;
                  (n, b) \<leftarrow> write_u8 b (ucast m);
                  let len = 9 + word_of_int n;
                  (n, b) \<leftarrow> write_bytes b bytes m;
                  Some (len + word_of_int n, b) }
        else Some (9, b6)
    | None \<Rightarrow> Some (9, b6)) = Some (len, b7)"
    "filled b7 (ys @ ?id # zs @ sda_body v t r (small_info info m)) k"
    "unat (len :: size_t) = length (sda_body v t r (small_info info m))" by blast
  obtain b8 where 8: "end_attribute (length ys) len b7 = Some (3 + int (length (sda_body v t r (small_info info m))), b8)"
    "filled b8 (ys @ attribute_bytes SERVICE_DESCRIPTOR_ATTRIBUTE (sda_body v t r (small_info info m))) k"
    using end_attribute_ok [OF 7(2) 1(2) 7(3)] by blast
  have cur: "unat (buf_current b) = length ys" using f by (rule current_length)
  have n9: "0 + word_of_int 6 + word_of_int 1 + word_of_int 1 + word_of_int 1 = (9 :: size_t)" by simp
  show ?thesis
    unfolding nan_add_service_descriptor_attribute_def Let_def cur 1(1) 2(1) 3(1) 4(1) control 5(1) n9
      c_def [symmetric] Option.bind.simps prod.case 6(1) 7(1) [unfolded Let_def] 8(1)
    using 8(2) by blast
qed

lemma nan_add_service_descriptor_extension_attribute_ok:
  assumes f: "filled b ys (3 + length (sdea_body v (large_info info m)) + k)" and fits: "info_fits info m"
  shows "\<exists>b'. nan_add_service_descriptor_extension_attribute b v info m
      = Some (3 + int (length (sdea_body v (large_info info m))), b')
    \<and> filled b' (ys @ attribute_bytes SERVICE_DESCRIPTOR_EXTENSION_ATTRIBUTE (sdea_body v (large_info info m))) k"
proof -
  let ?id = "attribute_type_val SERVICE_DESCRIPTOR_EXTENSION_ATTRIBUTE"
  define rest where "rest = (case large_info info m of Some bytes \<Rightarrow> 2 + (length bytes + k) | None \<Rightarrow> k)"
  define rest' where "rest' = (if sv_type v = PUBLISHED then 1 + rest else rest)"
  have "filled b ys (3 + (1 + (2 + rest')))"
    using f by (simp add: sdea_body_def rest_def rest'_def add.assoc split: option.splits if_splits)
  from begin_attribute_ex [OF this] obtain b1 zs where
    1: "begin_attribute SERVICE_DESCRIPTOR_EXTENSION_ATTRIBUTE b = Some b1"
    "length zs = 2" "filled b1 (ys @ ?id # zs) (1 + (2 + rest'))" by blast
  from fill_u8 [OF 1(3)] obtain b2 where 2: "write_u8 b1 (sv_instance_id v) = Some (1, b2)"
    "filled b2 ((ys @ ?id # zs) @ [sv_instance_id v]) (2 + rest')" by blast
  from fill_advance_2 [OF 2(2)] obtain x y b3 where 3: "buf_advance b2 2 = (2, b3)"
    "filled b3 (((ys @ ?id # zs) @ [sv_instance_id v]) @ [x, y]) rest'" by blast
  define pre where "pre = (ys @ ?id # zs) @ [sv_instance_id v]"
  have control: "unat (buf_current b2) = length pre" using current_length [OF 2(2)] by (simp add: pre_def)
  have patch: "\<exists>b'. put_struct (length pre) cs bb = Some b' \<and> filled b' (pre @ cs) j"
    if "filled bb (pre @ ds) j" "length ds = 2" "length cs = 2" for bb cs ds j
    using fill_patch [OF that(1), of "length pre" cs] that(2,3) by simp
  obtain b4 where 4: "put_struct (length pre) (le_bytes 2 (0 :: u16)) b3 = Some b4" "filled b4 (pre @ le_bytes 2 (0 :: u16)) rest'"
    using patch [of b3 "[x, y]" rest' "le_bytes 2 (0 :: u16)"] 3(2) by (auto simp: pre_def simp del: le_bytes_numeral)
  define c where "c = le_bytes 2 (sdec_set_service_update_indicator_present 1 0 :: u16)"
  define mid where "mid = (if sv_type v = PUBLISHED then c @ [sv_update_indicator v] else le_bytes 2 (0 :: u16))"
  obtain b5 where 5: "(if sv_type v = PUBLISHED
      then do { b \<leftarrow> put_struct (length pre) c b4;
                (n, b) \<leftarrow> write_u8 b (sv_update_indicator v);
                Some (3 + word_of_int n, b) }
      else Some (3, b4)) = Some (of_nat (1 + length mid) :: size_t, b5)" "filled b5 (pre @ mid) rest"
  proof (cases "sv_type v = PUBLISHED")
    case True
    obtain b5 where 5: "put_struct (length pre) c b4 = Some b5" "filled b5 (pre @ c) rest'"
      using patch [OF 4(2), of c] by (auto simp: c_def simp del: le_bytes_numeral)
    with True have "filled b5 (pre @ c) (1 + rest)" by (simp add: rest'_def)
    from fill_u8 [OF this] obtain b6 where "write_u8 b5 (sv_update_indicator v) = Some (1, b6)"
      "filled b6 ((pre @ c) @ [sv_update_indicator v]) rest" by blast
    with True 5(1) show ?thesis by (intro that [of b6]) (simp_all add: mid_def c_def)
  next
    case False
    with 4(2) show ?thesis by (intro that [of b4]) (simp_all add: mid_def rest'_def)
  qed
  have body: "sdea_body v i = [sv_instance_id v] @ mid
      @ (case i of Some bytes \<Rightarrow> le_bytes 2 (of_nat (length bytes) :: u16) @ bytes | None \<Rightarrow> [])" for i
    by (simp add: sdea_body_def mid_def c_def)
  have len_mid: "length mid \<le> 3" by (simp add: mid_def c_def)
  then have unat_mid: "unat (1 + of_nat (length mid) :: size_t) = Suc (length mid)"
    using unat_size_of_nat [of "1 + length mid"] by simp
  have "\<exists>b7 len. (case info of
      Some bytes \<Rightarrow>
        if m \<ge> 256
        then do { (n, b) \<leftarrow> write_le16 b5 (ucast m);
                  let len = of_nat (1 + length mid) + word_of_int n;
                  (n, b) \<leftarrow> write_bytes b bytes m;
                  Some (len + word_of_int n, b) }
        else Some (of_nat (1 + length mid), b5)
    | None \<Rightarrow> Some (of_nat (1 + length mid), b5)) = Some (len, b7)
    \<and> filled b7 (ys @ ?id # zs @ sdea_body v (large_info info m)) k
    \<and> unat (len :: size_t) = length (sdea_body v (large_info info m))"
  proof (cases "large_info info m")
    case None
    then show ?thesis
      using 5(2) unat_mid
      by (auto simp: large_info_def body rest_def pre_def unat_size_of_nat split: option.splits if_splits)
  next
    case (Some bs)
    then obtain bytes where i: "info = Some bytes" "256 \<le> m" "bs = take (unat m) bytes"
      by (auto simp: large_info_def split: option.splits if_splits)
    have m: "unat m \<le> length bytes" "length bs = unat m"
      using fits i by (simp_all add: info_fits_def)
    have "filled b5 (pre @ mid) (2 + (unat m + k))" using 5(2) Some m by (simp add: rest_def)
    from fill_le16 [OF this] obtain b6 where 6: "write_le16 b5 (ucast m) = Some (2, b6)"
      "filled b6 ((pre @ mid) @ le_bytes 2 (ucast m :: u16)) (unat m + k)" by blast
    from fill_bytes [OF 6(2) m(1)] obtain b7 where 7: "write_bytes b6 bytes m = Some (int (unat m), b7)"
      "filled b7 (((pre @ mid) @ le_bytes 2 (ucast m :: u16)) @ take (unat m) bytes) k" by blast
    have cm: "of_nat (unat m) = (ucast m :: u16)" by simp
    have "unat m < 2 ^ 31" using filled_bound [OF 6(2)] by simp
    then have "unat (of_nat (1 + length mid) + 2 + m) = 3 + length mid + unat m"
      using len_mid by (simp add: unat_word_ariths unat_size_of_nat)
    then show ?thesis
      using i 6(1) 7 m Some
      by (auto simp: body pre_def cm add.assoc simp del: le_bytes_numeral)
  qed
  then obtain b7 len where 7: "(case info of
      Some bytes \<Rightarrow>
        if m \<ge> 256
        then do { (n, b) \<leftarrow> write_le16 b5 (ucast m);
                  let len = of_nat (1 + length mid) + word_of_int n;
                  (n, b) \<leftarrow> write_bytes b bytes m;
                  Some (len + word_of_int n, b) }
        else Some (of_nat (1 + length mid), b5)
    | None \<Rightarrow> Some (of_nat (1 + length mid), b5)) = Some (len, b7)"
    "filled b7 (ys @ ?id # zs @ sdea_body v (large_info info m)) k"
    "unat (len :: size_t) = length (sdea_body v (large_info info m))" by blast
  obtain b8 where 8: "end_attribute (length ys) len b7 = Some (3 + int (length (sdea_body v (large_info info m))), b8)"
    "filled b8 (ys @ attribute_bytes SERVICE_DESCRIPTOR_EXTENSION_ATTRIBUTE (sdea_body v (large_info info m))) k"
    using end_attribute_ok [OF 7(2) 1(2) 7(3)] by blast
  have cur: "unat (buf_current b) = length ys" using f by (rule current_length)
  have n3: "0 + word_of_int 1 + word_of_int 2 = (3 :: size_t)" by simp
  show ?thesis
    unfolding nan_add_service_descriptor_extension_attribute_def Let_def cur 1(1) 2(1) control 3(1) n3
      c_def [symmetric] Option.bind.simps prod.case 4(1) 5(1) 7(1) [unfolded Let_def] 8(1)
    using 8(2) by blast
qed

definition device_capability_body :: "u8 list" where
  "device_capability_body = [0, 1, 0, 4, 0, 0, 0, 0, 0]"

lemma nan_add_device_capability_attribute_ok:
  assumes f: "filled b ys (12 + k)"
  shows "\<exists>b'. nan_add_device_capability_attribute b = Some (12, b')
    \<and> filled b' (ys @ attribute_bytes DEVICE_CAPABILITY_ATTRIBUTE device_capability_body) k"
proof -
  have e: "nan_device_capability_attribute_bytes
      \<lparr>dc_id = attribute_type_val DEVICE_CAPABILITY_ATTRIBUTE, dc_length = 12 - 3,
       dc_map_id = 0, dc_committed_dw_info = dc_set_dw_2_4_ghz 1 0,
       dc_supported_bands = dc_set_band_2_4_ghz 1 0, dc_operation_mode = 0,
       dc_antennas = 0, dc_max_channel_switch_time = 0, dc_capabilities = 0\<rparr>
      = attribute_bytes DEVICE_CAPABILITY_ATTRIBUTE device_capability_body"
    by code_simp
  have l: "length (attribute_bytes DEVICE_CAPABILITY_ATTRIBUTE device_capability_body) = 12"
    by (simp add: attribute_bytes_def device_capability_body_def)
  then have "filled b ys (length (attribute_bytes DEVICE_CAPABILITY_ATTRIBUTE device_capability_body) + k)"
    using f by simp
  from fill_struct [OF this, of 12] l show ?thesis
    unfolding nan_add_device_capability_attribute_def Let_def e by auto
qed

definition availability_body :: "u8 list" where
  "availability_body = [0, 1, 0, 5, 0, 1, 0, 0, 0, 0]"

lemma nan_add_availability_attribute_ok:
  assumes f: "filled b ys (13 + k)"
  shows "\<exists>b'. nan_add_availability_attribute b = Some (13, b')
    \<and> filled b' (ys @ attribute_bytes NAN_AVAILABILITY_ATTRIBUTE availability_body) k"
proof -
  let ?id = "attribute_type_val NAN_AVAILABILITY_ATTRIBUTE"
  have cur: "unat (buf_current b) = length ys" using f by (rule current_length)
  have "filled b ys (3 + (1 + (2 + (2 + (2 + (2 + (1 + k)))))))" using f by simp
  from begin_attribute_ex [OF this] obtain b1 zs where 1: "begin_attribute NAN_AVAILABILITY_ATTRIBUTE b = Some b1"
    "length zs = 2" "filled b1 (ys @ ?id # zs) (1 + (2 + (2 + (2 + (2 + (1 + k))))))" by blast
  from fill_u8 [OF 1(3)] obtain b2 where 2: "write_u8 b1 0 = Some (1, b2)"
    "filled b2 ((ys @ ?id # zs) @ [0]) (2 + (2 + (2 + (2 + (1 + k)))))" by blast
  then have "filled b2 ((ys @ ?id # zs) @ [0]) (unat (2 :: size_t) + (2 + (2 + (2 + (1 + k)))))" by simp
  from fill_bytes [OF this, of "le_bytes 2 (aac_set_map_id 1 0)"] obtain b3 where
    3: "write_bytes b2 (le_bytes 2 (aac_set_map_id 1 0)) 2 = Some (2, b3)"
    "filled b3 (((ys @ ?id # zs) @ [0]) @ le_bytes 2 (aac_set_map_id 1 0)) (2 + (2 + (2 + (1 + k))))" by auto
  from fill_le16 [OF 3(2)] obtain b4 where 4: "write_le16 b3 5 = Some (2, b4)"
    "filled b4 ((((ys @ ?id # zs) @ [0]) @ le_bytes 2 (aac_set_map_id 1 0)) @ le_bytes 2 (5 :: u16)) (2 + (2 + (1 + k)))" by blast
  let ?c = "aec_set_availability_type (availability_type_val AVAILABILITY_COMITTED) 0"
  from fill_le16 [OF 4(2)] obtain b5 where 5: "write_le16 b4 ?c = Some (2, b5)"
    "filled b5 (((((ys @ ?id # zs) @ [0]) @ le_bytes 2 (aac_set_map_id 1 0)) @ le_bytes 2 (5 :: u16)) @ le_bytes 2 ?c)
       (2 + (1 + k))" by blast
  from fill_le16 [OF 5(2)] obtain b6 where 6: "write_le16 b5 0 = Some (2, b6)"
    "filled b6 ((((((ys @ ?id # zs) @ [0]) @ le_bytes 2 (aac_set_map_id 1 0)) @ le_bytes 2 (5 :: u16)) @ le_bytes 2 ?c)
       @ le_bytes 2 (0 :: u16)) (1 + k)" by blast
  from fill_u8 [OF 6(2)] obtain b7 where 7: "write_u8 b6 0 = Some (1, b7)"
    "filled b7 (((((((ys @ ?id # zs) @ [0]) @ le_bytes 2 (aac_set_map_id 1 0)) @ le_bytes 2 (5 :: u16)) @ le_bytes 2 ?c)
       @ le_bytes 2 (0 :: u16)) @ [0]) k" by blast
  have body: "[0] @ le_bytes 2 (aac_set_map_id 1 0) @ le_bytes 2 (5 :: u16) @ le_bytes 2 ?c @ le_bytes 2 (0 :: u16) @ [0]
      = availability_body"
    by code_simp
  have "filled b7 (ys @ ?id # zs @ availability_body) k" unfolding body [symmetric] using 7(2) by simp
  from end_attribute_ok [OF this 1(2), of 10] obtain b8 where
    8: "end_attribute (length ys) 10 b7 = Some (13, b8)"
    "filled b8 (ys @ attribute_bytes NAN_AVAILABILITY_ATTRIBUTE availability_body) k"
    by (auto simp: availability_body_def)
  have n: "0 + word_of_int 1 + word_of_int 2 + word_of_int 2 + word_of_int 2 + word_of_int 2 + word_of_int 1 = (10 :: size_t)"
    by simp
  show ?thesis
    unfolding nan_add_availability_attribute_def Let_def cur 1(1) 2(1) 3(1) 4(1) 5(1) 6(1) 7(1) Option.bind.simps
      prod.case n 8(1)
    using 8(2) by blast
qed

section \<open>The headers\<close>

definition radiotap_present :: "'it radiotap_lib \<Rightarrow> ieee80211_state \<Rightarrow> u32" where
  "radiotap_present rt st = (if fcs st then ieee80211_radiotap_type_to_mask (RADIOTAP_FLAGS rt) else 0)
     OR ieee80211_radiotap_type_to_mask (RADIOTAP_RATE rt) OR ieee80211_radiotap_type_to_mask (RADIOTAP_DBM_ANTSIGNAL rt)"

definition radiotap_bytes :: "'it radiotap_lib \<Rightarrow> ieee80211_state \<Rightarrow> u8 list" where
  "radiotap_bytes rt st = [0, 0] @ le_bytes 2 (if fcs st then 11 else 10 :: u16) @ le_bytes 4 (radiotap_present rt st)
     @ (if fcs st then [RADIOTAP_F_FCS rt] else []) @ [2, 200]"

lemma length_radiotap_bytes: "length (radiotap_bytes rt st) = (if fcs st then 11 else 10)"
  by (simp add: radiotap_bytes_def)

lemma fill_patch_mid:
  assumes "filled b (ys @ pre @ old @ post) k" "length old = length bs" "h = length ys + length pre"
  shows "\<exists>b'. put_struct h bs b = Some b' \<and> filled b' (ys @ pre @ bs @ post) k"
  using fill_patch [OF assms(1), of h bs] assms(2,3) by simp

lemma ieee80211_add_radiotap_header_ok:
  assumes rt: "radiotap_layout rt" and f: "filled b ys (length (radiotap_bytes rt st) + k)"
  shows "\<exists>b'. ieee80211_add_radiotap_header rt b st = Some b' \<and> filled b' (ys @ radiotap_bytes rt st) k"
proof -
  have cur: "unat (buf_current b) = length ys" using f by (rule current_length)
  have lay: "rt_header_size rt = 8" "rt_it_version rt = 0" "rt_it_pad rt = 1" "rt_it_len rt = 2" "rt_it_present rt = 4"
    using rt by (simp_all add: radiotap_layout_def)
  have "filled b ys (unat (of_nat 8 :: size_t) + ((if fcs st then 1 else 0) + (1 + (1 + k))))"
    using f by (simp add: length_radiotap_bytes split: if_splits)
  from fill_advance [OF this] obtain zs b1 where 1: "length zs = 8" "buf_advance b (of_nat 8) = (8, b1)"
    "filled b1 (ys @ zs) ((if fcs st then 1 else 0) + (1 + (1 + k)))" by auto
  define u where "u = take 2 (drop 2 zs)"
  define w where "w = drop 4 zs"
  have uw: "length u = 2" "length w = 4" using 1(1) by (simp_all add: u_def w_def)
  obtain x y where zs: "zs = [x, y] @ u @ w"
  proof -
    have "length (take 2 zs) = 2" using 1(1) by simp
    then obtain x y where xy: "take 2 zs = [x, y]" using length_2E by blast
    have "zs = take 2 zs @ take 2 (drop 2 zs) @ drop 2 (drop 2 zs)" by (simp only: append_take_drop_id)
    then show thesis using that [of x y] xy by (simp add: u_def w_def)
  qed
  from fill_patch_mid [of b1 ys "[]" "[x]" "y # u @ w" _ "[0]" "length ys + 0"] 1(3) zs obtain b2 where
    2: "put_struct (length ys + 0) [0] b1 = Some b2"
    "filled b2 (ys @ 0 # y # u @ w) ((if fcs st then 1 else 0) + (1 + (1 + k)))" by fastforce
  from fill_patch_mid [of b2 ys "[0]" "[y]" "u @ w" _ "[0]" "length ys + 1"] 2(2) obtain b3 where
    3: "put_struct (length ys + 1) [0] b2 = Some b3"
    "filled b3 (ys @ 0 # 0 # u @ w) ((if fcs st then 1 else 0) + (1 + (1 + k)))" by fastforce
  define fl where "fl = (if fcs st then [RADIOTAP_F_FCS rt] else [])"
  have "\<exists>b4. (if fcs st
       then do { (n, b) \<leftarrow> write_u8 b3 (RADIOTAP_F_FCS rt);
                 Some (0 OR ieee80211_radiotap_type_to_mask (RADIOTAP_FLAGS rt), of_nat 8 + word_of_int n, b) }
       else Some (0, of_nat 8, b3))
     = Some (if fcs st then ieee80211_radiotap_type_to_mask (RADIOTAP_FLAGS rt) else 0,
             if fcs st then 9 else 8 :: size_t, b4)
     \<and> filled b4 ((ys @ 0 # 0 # u @ w) @ fl) (1 + (1 + k))"
    using 3(2) fill_u8 [of b3 "ys @ 0 # 0 # u @ w" "1 + (1 + k)" "RADIOTAP_F_FCS rt"]
    by (auto simp: fl_def)
  then obtain b4 where 4: "(if fcs st
       then do { (n, b) \<leftarrow> write_u8 b3 (RADIOTAP_F_FCS rt);
                 Some (0 OR ieee80211_radiotap_type_to_mask (RADIOTAP_FLAGS rt), of_nat 8 + word_of_int n, b) }
       else Some (0, of_nat 8, b3))
     = Some (if fcs st then ieee80211_radiotap_type_to_mask (RADIOTAP_FLAGS rt) else 0,
             if fcs st then 9 else 8 :: size_t, b4)"
    "filled b4 ((ys @ 0 # 0 # u @ w) @ fl) (1 + (1 + k))" by blast
  from fill_u8 [OF 4(2), of 2] obtain b5 where 5: "write_u8 b4 2 = Some (1, b5)"
    "filled b5 (((ys @ 0 # 0 # u @ w) @ fl) @ [2]) (1 + k)" by blast
  from fill_u8 [OF 5(2), of 200] obtain b6 where 6: "write_u8 b5 200 = Some (1, b6)"
    "filled b6 ((((ys @ 0 # 0 # u @ w) @ fl) @ [2]) @ [200]) k" by blast
  let ?len = "(if fcs st then 9 else 8) + word_of_int 1 + word_of_int 1 :: size_t"
  let ?lb = "le_bytes 2 (ucast ?len :: u16)"
  have "filled b6 (ys @ [0, 0] @ u @ w @ fl @ [2, 200]) k" using 6(2) by simp
  from fill_patch_mid [OF this, of ?lb "length ys + 2"] uw(1) obtain b7 where
    7: "put_struct (length ys + 2) ?lb b6 = Some b7" "filled b7 (ys @ [0, 0] @ ?lb @ w @ fl @ [2, 200]) k"
    by (auto simp del: le_bytes_numeral)
  let ?pb = "le_bytes 4 (radiotap_present rt st)"
  have "filled b7 (ys @ ([0, 0] @ ?lb) @ w @ fl @ [2, 200]) k" using 7(2) by (simp del: le_bytes_numeral)
  from fill_patch_mid [OF this, of ?pb "length ys + 4"] uw(2) obtain b8 where
    8: "put_struct (length ys + 4) ?pb b7 = Some b8" "filled b8 (ys @ ([0, 0] @ ?lb) @ ?pb @ fl @ [2, 200]) k"
    by (auto simp del: le_bytes_numeral)
  have "([0, 0] @ ?lb) @ ?pb @ fl @ [2, 200] = radiotap_bytes rt st"
    by (simp add: radiotap_bytes_def fl_def)
  with 8(2) have 9: "filled b8 (ys @ radiotap_bytes rt st) k" by simp
  have p: "(if fcs st then ieee80211_radiotap_type_to_mask (RADIOTAP_FLAGS rt) else 0)
      OR ieee80211_radiotap_type_to_mask (RADIOTAP_RATE rt) OR ieee80211_radiotap_type_to_mask (RADIOTAP_DBM_ANTSIGNAL rt)
      = radiotap_present rt st"
    by (simp add: radiotap_present_def)
  show ?thesis
    unfolding ieee80211_add_radiotap_header_def Let_def cur lay 1(2) snd_conv 2(1) 3(1) 4(1) 5(1) 6(1) Option.bind.simps
      prod.case 7(1) or.assoc p 8(1)
    using 9 by blast
qed

definition nan_header :: "ether_addr \<Rightarrow> ether_addr \<Rightarrow> ether_addr \<Rightarrow> ieee80211_state \<Rightarrow> u16 \<Rightarrow> ieee80211_hdr" where
  "nan_header src dst bssid st type =
     \<lparr>hdr_frame_control = type, hdr_duration_id = 0, hdr_addr1 = dst, hdr_addr2 = src, hdr_addr3 = bssid,
      hdr_seq_ctrl = ucast (push_bit 4 (ucast (sequence_number st) :: u32))\<rparr>"

lemma ieee80211_add_nan_header_ok:
  assumes f: "filled b ys (24 + k)"
  shows "\<exists>b'. ieee80211_add_nan_header b src dst bssid st type
      = Some (b', st\<lparr>sequence_number := sequence_number st + 1\<rparr>)
    \<and> filled b' (ys @ ieee80211_hdr_bytes (nan_header src dst bssid st type)) k"
proof -
  have "filled b ys (length (ieee80211_hdr_bytes (nan_header src dst bssid st type)) + k)" using f by simp
  from fill_struct [OF this, of 24] show ?thesis
    by (auto simp: ieee80211_add_nan_header_def ieee80211_state_next_sequence_number_def nan_header_def)
qed

definition beacon_header :: "nan_state \<Rightarrow> nan_beacon_type \<Rightarrow> u64 \<Rightarrow> u8 \<Rightarrow> nan_beacon_frame" where
  "beacon_header state type now_usec len =
     \<lparr>bf_time_stamp = nan_timer_get_synced_time_usec (st_timer state) now_usec,
      bf_beacon_interval = (if type = NAN_SYNC_BEACON then NAN_SYNC_BEACON_INTERVAL_TU
                            else NAN_DISCOVERY_BEACON_INTERVAL),
      bf_capability = 0x0420, bf_element_id = 0xdd, bf_length = len, bf_oui = NAN_OUI,
      bf_oui_type = NAN_OUI_TYPE_BEACON\<rparr>"

definition master_indication_body :: "nan_state \<Rightarrow> u8 list" where
  "master_indication_body state = [sy_master_preference (st_sync state), sy_random_factor (st_sync state)]"

definition cluster_body :: "nan_state \<Rightarrow> u8 list" where
  "cluster_body state = le_bytes 8 (sy_anchor_master_rank (st_sync state)) @ [sy_hop_count (st_sync state)]
     @ le_bytes 4 (sy_ambtt (st_sync state))"

text \<open>The beacon after the 802.11 header, without the check sequence: 39 bytes, of which its length field counts 25.\<close>

definition beacon_payload :: "nan_state \<Rightarrow> nan_beacon_type \<Rightarrow> u64 \<Rightarrow> u8 list" where
  "beacon_payload state type now_usec = nan_beacon_frame_bytes (beacon_header state type now_usec 25)
     @ attribute_bytes MASTER_INDICATION_ATTRIBUTE (master_indication_body state)
     @ attribute_bytes CLUSTER_ATTRIBUTE (cluster_body state)"

definition beacon_frame :: "'it radiotap_lib \<Rightarrow> nan_state \<Rightarrow> nan_beacon_type \<Rightarrow> u64 \<Rightarrow> u8 list" where
  "beacon_frame rt state type now_usec = radiotap_bytes rt (st_ieee80211 state)
     @ ieee80211_hdr_bytes (nan_header (st_interface_address state) NAN_BROADCAST_ADDRESS
         (cluster_id (st_cluster state)) (st_ieee80211 state) (IEEE80211_FTYPE_MGMT OR IEEE80211_STYPE_BEACON))
     @ beacon_payload state type now_usec"

text \<open>The check sequence covers everything in the buffer, the radiotap header included.\<close>

definition with_fcs :: "nan_state \<Rightarrow> u8 list \<Rightarrow> u8 list" where
  "with_fcs state bs = (if fcs (st_ieee80211 state) then bs @ le_bytes 4 (crc32 bs) else bs)"

lemma ieee80211_add_fcs_ok:
  assumes f: "filled b ys (4 + k)"
  shows "\<exists>b'. ieee80211_add_fcs b = Some b' \<and> filled b' (ys @ le_bytes 4 (crc32 ys)) k"
proof -
  have "mem_load (bdata b) (nat (buf_data b)) (unat (buf_position b)) = Some ys"
    using filled_load [OF f, of 0 "length ys"] f filled_current [OF f]
    by (simp add: buf_data_def filled_def wf_buf_position)
  moreover obtain b' where "write_le32 b (crc32 ys) = Some (4, b')" "filled b' (ys @ le_bytes 4 (crc32 ys)) k"
    using fill_le32 [OF f] by blast
  ultimately show ?thesis by (simp add: ieee80211_add_fcs_def del: le_bytes_numeral)
qed

lemma add_fcs_if:
  assumes "filled b ys ((if fcs st then 4 else 0) + k)"
  shows "\<exists>b'. (if fcs st then ieee80211_add_fcs b else Some b) = Some b'
    \<and> filled b' (if fcs st then ys @ le_bytes 4 (crc32 ys) else ys) k"
  using assms ieee80211_add_fcs_ok [of b ys k] by (auto simp del: le_bytes_numeral)

definition sent :: "nan_state \<Rightarrow> nan_state" where
  "sent state = state\<lparr>st_ieee80211 := (st_ieee80211 state)
     \<lparr>sequence_number := sequence_number (st_ieee80211 state) + 1\<rparr>\<rparr>"

lemma sent_simps [simp]:
  "st_sync (sent s) = st_sync s" "st_timer (sent s) = st_timer s" "fcs (st_ieee80211 (sent s)) = fcs (st_ieee80211 s)"
  "st_cluster (sent s) = st_cluster s" "st_buffer (sent s) = st_buffer s" "st_services (sent s) = st_services s"
  "st_peers (sent s) = st_peers s" "st_events (sent s) = st_events s"
  by (simp_all add: sent_def)

lemma nan_build_beacon_frame_ok:
  assumes rt: "radiotap_layout rt" and f: "filled b ys (length (with_fcs state (beacon_frame rt state type now_usec)) + k)"
    and ys: "ys = []"
  shows "\<exists>b'. nan_build_beacon_frame rt b state type now_usec = Some (b', sent state)
    \<and> filled b' (ys @ with_fcs state (beacon_frame rt state type now_usec)) k"
proof -
  let ?st = "st_ieee80211 state"
  let ?hdr = "nan_header (st_interface_address state) NAN_BROADCAST_ADDRESS (cluster_id (st_cluster state)) ?st
      (IEEE80211_FTYPE_MGMT OR IEEE80211_STYPE_BEACON)"
  let ?bh = "\<lambda>len. nan_beacon_frame_bytes (beacon_header state type now_usec len)"
  define tail where "tail = (if fcs ?st then 4 else 0) + k"
  have "filled b [] (length (radiotap_bytes rt ?st) + (24 + (18 + (5 + (16 + tail)))))"
    using f ys by (simp add: with_fcs_def beacon_frame_def beacon_payload_def attribute_bytes_def
        master_indication_body_def cluster_body_def tail_def add.assoc split: if_splits)
  from ieee80211_add_radiotap_header_ok [OF rt this] obtain b1 where
    1: "ieee80211_add_radiotap_header rt b ?st = Some b1"
    "filled b1 (radiotap_bytes rt ?st) (24 + (18 + (5 + (16 + tail))))" by auto
  from ieee80211_add_nan_header_ok [OF 1(2)] obtain b2 where
    2: "ieee80211_add_nan_header b1 (st_interface_address state) NAN_BROADCAST_ADDRESS (cluster_id (st_cluster state)) ?st
          (IEEE80211_FTYPE_MGMT OR IEEE80211_STYPE_BEACON)
        = Some (b2, ?st\<lparr>sequence_number := sequence_number ?st + 1\<rparr>)"
    "filled b2 (radiotap_bytes rt ?st @ ieee80211_hdr_bytes ?hdr) (18 + (5 + (16 + tail)))" by blast
  define pre where "pre = radiotap_bytes rt ?st @ ieee80211_hdr_bytes ?hdr"
  have cur: "unat (buf_current b2) = length pre" using current_length [OF 2(2)] by (simp add: pre_def)
  have "filled b2 pre (length (?bh 4) + (5 + (16 + tail)))" using 2(2) by (simp add: pre_def)
  from fill_struct [OF this, of 18] obtain b3 where 3: "put_struct (length pre) (?bh 4) b2 = Some b3"
    "filled (snd (buf_advance b3 18)) (pre @ ?bh 4) (5 + (16 + tail))" by (auto simp: cur)
  define b4 where "b4 = snd (buf_advance b3 18)"
  have header: "nan_add_beacon_header rt b state type now_usec = Some (length pre + 13, b4, sent state)"
    unfolding nan_add_beacon_header_def Let_def 1(1) 2(1) Option.bind.simps prod.case cur
    using 3(1) by (simp add: beacon_header_def b4_def sent_def)
  from nan_add_master_indication_attribute_ok [of b4 "pre @ ?bh 4" "5 + (16 + tail)" "sent state"] 3(2)
  obtain b5 where 5: "nan_add_master_indication_attribute b4 (sent state) = Some (5, b5)"
    "filled b5 ((pre @ ?bh 4) @ attribute_bytes MASTER_INDICATION_ATTRIBUTE (master_indication_body state)) (16 + tail)"
    by (auto simp: b4_def master_indication_body_def)
  from nan_add_cluster_attribute_ok [OF 5(2), of "sent state"]
  obtain b6 where 6: "nan_add_cluster_attribute b5 (sent state) = Some (16, b6)"
    "filled b6 (((pre @ ?bh 4) @ attribute_bytes MASTER_INDICATION_ATTRIBUTE (master_indication_body state))
       @ attribute_bytes CLUSTER_ATTRIBUTE (cluster_body state)) tail"
    by (auto simp: cluster_body_def)
  define as where "as = attribute_bytes MASTER_INDICATION_ATTRIBUTE (master_indication_body state)
       @ attribute_bytes CLUSTER_ATTRIBUTE (cluster_body state)"
  have split: "?bh len = take 13 (?bh 0) @ [len] @ drop 14 (?bh 0)" for len
    by (simp add: nan_beacon_frame_bytes_def beacon_header_def)
  define h1 h2 where "h1 = take 13 (?bh 0)" and "h2 = drop 14 (?bh 0)"
  have bh: "?bh len = h1 @ [len] @ h2" for len unfolding h1_def h2_def by (rule split)
  have f6: "filled b6 (pre @ h1 @ [4] @ h2 @ as) tail" using 6(2) by (simp add: bh as_def)
  have l: "length h1 = 13" by (simp add: h1_def)
  have load: "mem_load (bdata b6) (length pre + 13) 1 = Some [4]"
    using filled_load [OF f6, of "length pre + 13" 1] l by simp
  from f6 have "filled b6 ((pre @ h1) @ [] @ [4] @ (h2 @ as)) tail" by simp
  from fill_patch_mid [OF this, of "[4 + (0 + word_of_int 5 + word_of_int 16)]" "length pre + 13"] l obtain b7 where
    7: "put_struct (length pre + 13) [4 + (0 + word_of_int 5 + word_of_int 16)] b6 = Some b7"
    "filled b7 (pre @ ?bh 25 @ as) tail"
    by (auto simp: bh)
  have "pre @ ?bh 25 @ as = beacon_frame rt state type now_usec"
    by (simp add: pre_def as_def beacon_frame_def beacon_payload_def)
  with 7(2) have "filled b7 (beacon_frame rt state type now_usec) ((if fcs ?st then 4 else 0) + k)"
    by (simp add: tail_def)
  from add_fcs_if [OF this] obtain b8 where 8: "(if fcs ?st then ieee80211_add_fcs b7 else Some b7) = Some b8"
    "filled b8 (with_fcs state (beacon_frame rt state type now_usec)) k"
    by (auto simp: with_fcs_def simp del: le_bytes_numeral)
  show ?thesis
    unfolding nan_build_beacon_frame_def header Option.bind.simps prod.case Let_def 5(1) 6(1) load list.sel 7(1)
      sent_simps 8(1)
    using 8(2) ys by simp
qed

section \<open>Service discovery frames\<close>

definition service_discovery_header :: "'it radiotap_lib \<Rightarrow> nan_state \<Rightarrow> ether_addr \<Rightarrow> u8 list" where
  "service_discovery_header rt state destination = radiotap_bytes rt (st_ieee80211 state)
     @ ieee80211_hdr_bytes (nan_header (st_interface_address state) destination
         (cluster_id (st_cluster state)) (st_ieee80211 state) (IEEE80211_FTYPE_MGMT OR IEEE80211_STYPE_ACTION))
     @ [0x04, 0x09, 0x50, 0x6f, 0x9a, 0x13]"

definition announcement_bytes :: "nan_service \<Rightarrow> u8 list" where
  "announcement_bytes v =
     attribute_bytes SERVICE_DESCRIPTOR_ATTRIBUTE
       (sda_body v (if sv_type v = SUBSCRIBED then CONTROL_TYPE_SUBSCRIBE else CONTROL_TYPE_PUBLISH) 0
          (small_info (sv_specific_info v) (sv_specific_info_length v)))
     @ attribute_bytes SERVICE_DESCRIPTOR_EXTENSION_ATTRIBUTE
       (sdea_body v (large_info (sv_specific_info v) (sv_specific_info_length v)))"

definition service_discovery_payload :: "service_heap \<Rightarrow> ptr list option \<Rightarrow> u8 list" where
  "service_discovery_payload h ss = attribute_bytes DEVICE_CAPABILITY_ATTRIBUTE device_capability_body
     @ attribute_bytes NAN_AVAILABILITY_ATTRIBUTE availability_body
     @ concat (map (\<lambda>p. announcement_bytes (service_at h p)) (case ss of Some ps \<Rightarrow> ps | None \<Rightarrow> []))"

lemma length_attribute_bytes_eq: "length (attribute_bytes t body) = 3 + length body"
  by (simp add: attribute_bytes_def)

lemma nan_add_service_discovery_header_ok:
  assumes rt: "radiotap_layout rt" and f: "filled b [] (length (service_discovery_header rt state dst) + k)"
  shows "\<exists>b'. nan_add_service_discovery_header rt b state dst = Some (b', sent state)
    \<and> filled b' (service_discovery_header rt state dst) k"
proof -
  let ?st = "st_ieee80211 state"
  let ?hdr = "nan_header (st_interface_address state) dst (cluster_id (st_cluster state)) ?st
      (IEEE80211_FTYPE_MGMT OR IEEE80211_STYPE_ACTION)"
  have "filled b [] (length (radiotap_bytes rt ?st) + (24 + (6 + k)))"
    using f by (simp add: service_discovery_header_def add.assoc)
  from ieee80211_add_radiotap_header_ok [OF rt this] obtain b1 where
    1: "ieee80211_add_radiotap_header rt b ?st = Some b1" "filled b1 (radiotap_bytes rt ?st) (24 + (6 + k))" by auto
  from ieee80211_add_nan_header_ok [OF 1(2)] obtain b2 where
    2: "ieee80211_add_nan_header b1 (st_interface_address state) dst (cluster_id (st_cluster state)) ?st
          (IEEE80211_FTYPE_MGMT OR IEEE80211_STYPE_ACTION)
        = Some (b2, ?st\<lparr>sequence_number := sequence_number ?st + 1\<rparr>)"
    "filled b2 (radiotap_bytes rt ?st @ ieee80211_hdr_bytes ?hdr) (6 + k)" by blast
  let ?sd = "[0x04, 0x09, 0x50, 0x6f, 0x9a, 0x13] :: u8 list"
  have "length ?sd + k = 6 + k" by simp
  with 2(2) have "filled b2 (radiotap_bytes rt ?st @ ieee80211_hdr_bytes ?hdr) (length ?sd + k)" by (simp only:)
  from fill_struct [OF this, of 6] obtain b3 where 3: "put_struct (unat (buf_current b2)) ?sd b2 = Some b3"
    "filled (snd (buf_advance b3 6)) ((radiotap_bytes rt ?st @ ieee80211_hdr_bytes ?hdr) @ ?sd) k" by auto
  have sd: "nan_service_discovery_frame_bytes \<lparr>sdf_category = IEEE80211_PUBLIC_ACTION_FRAME,
        sdf_action = IEEE80211_PUBLIC_ACTION_FRAME_VENDOR_SPECIFIC,
        sdf_oui = NAN_OUI, sdf_oui_type = NAN_OUT_TYPE_SERVICE_DISCOVERY\<rparr> = ?sd"
    by (simp add: nan_service_discovery_frame_bytes_def NAN_OUI_def)
  show ?thesis
    unfolding nan_add_service_discovery_header_def Let_def 1(1) 2(1) Option.bind.simps prod.case sd 3(1)
    using 3(2) by (simp add: sent_def service_discovery_header_def)
qed

lemma add_announced_service_ok:
  assumes f: "filled b ys (length (announcement_bytes v) + k)" and v: "cells h p = Some v" "service_sendable v"
  shows "\<exists>b'. add_announced_service h p b = Some b' \<and> filled b' (ys @ announcement_bytes v) k"
proof -
  let ?t = "if sv_type v = SUBSCRIBED then CONTROL_TYPE_SUBSCRIBE else CONTROL_TYPE_PUBLISH"
  let ?i = "sv_specific_info v" and ?n = "sv_specific_info_length v"
  have v': "length (sv_service_id v) = 6" "info_fits ?i ?n" using v(2) by (simp_all add: service_sendable_def)
  have "filled b ys (3 + length (sda_body v ?t 0 (small_info ?i ?n)) + (3 + length (sdea_body v (large_info ?i ?n)) + k))"
    using f by (simp add: announcement_bytes_def length_attribute_bytes_eq add.assoc del: if_split)
  from nan_add_service_descriptor_attribute_ok [OF this v'] obtain b1 where
    1: "nan_add_service_descriptor_attribute b v ?t 0 ?i ?n
        = Some (3 + int (length (sda_body v ?t 0 (small_info ?i ?n))), b1)"
    "filled b1 (ys @ attribute_bytes SERVICE_DESCRIPTOR_ATTRIBUTE (sda_body v ?t 0 (small_info ?i ?n)))
       (3 + length (sdea_body v (large_info ?i ?n)) + k)" by blast
  from nan_add_service_descriptor_extension_attribute_ok [OF 1(2) v'(2)] obtain b2 where
    2: "nan_add_service_descriptor_extension_attribute b1 v ?i ?n
        = Some (3 + int (length (sdea_body v (large_info ?i ?n))), b2)"
    "filled b2 ((ys @ attribute_bytes SERVICE_DESCRIPTOR_ATTRIBUTE (sda_body v ?t 0 (small_info ?i ?n)))
       @ attribute_bytes SERVICE_DESCRIPTOR_EXTENSION_ATTRIBUTE (sdea_body v (large_info ?i ?n))) k" by blast
  show ?thesis
    unfolding add_announced_service_def v(1) Option.bind.simps Let_def 1(1) prod.case 2(1)
    using 2(2) by (simp add: announcement_bytes_def del: if_split)
qed

lemma add_announced_services_ok:
  assumes "filled b ys (length (concat (map (\<lambda>p. announcement_bytes (service_at h p)) ps)) + k)"
    and "\<forall>p \<in> set ps. \<exists>v. cells h p = Some v \<and> service_sendable v"
  shows "\<exists>b'. LIST_FOR_EACH (add_announced_service h) ps b = Some b'
    \<and> filled b' (ys @ concat (map (\<lambda>p. announcement_bytes (service_at h p)) ps)) k"
  using assms
proof (induction ps arbitrary: b ys)
  case (Cons p ps)
  then obtain v where v: "cells h p = Some v" "service_sendable v" by auto
  let ?rest = "concat (map (\<lambda>p. announcement_bytes (service_at h p)) ps)"
  have "filled b ys (length (announcement_bytes v) + (length ?rest + k))"
    using Cons.prems(1) v(1) by (simp add: service_at_def add.assoc)
  from add_announced_service_ok [OF this v] obtain b1 where
    1: "add_announced_service h p b = Some b1" "filled b1 (ys @ announcement_bytes v) (length ?rest + k)" by blast
  from Cons.IH [OF 1(2)] Cons.prems(2) obtain b2 where
    "LIST_FOR_EACH (add_announced_service h) ps b1 = Some b2" "filled b2 ((ys @ announcement_bytes v) @ ?rest) k" by auto
  with 1(1) v(1) show ?case by (simp add: service_at_def)
qed simp

definition service_discovery_frame :: "'it radiotap_lib \<Rightarrow> nan_state \<Rightarrow> service_heap \<Rightarrow> ether_addr \<Rightarrow> ptr list option \<Rightarrow> u8 list" where
  "service_discovery_frame rt state h dst ss =
     with_fcs state (service_discovery_header rt state dst @ service_discovery_payload h ss)"

lemma length_with_fcs: "length (with_fcs state bs) = length bs + (if fcs (st_ieee80211 state) then 4 else 0)"
  by (simp add: with_fcs_def)

lemma nan_build_service_discovery_frame_ok:
  assumes rt: "radiotap_layout rt" and f: "filled b [] (length (service_discovery_frame rt state h dst ss) + k)"
    and ss: "\<forall>p \<in> set (case ss of Some ps \<Rightarrow> ps | None \<Rightarrow> []). \<exists>v. cells h p = Some v \<and> service_sendable v"
  shows "\<exists>b'. nan_build_service_discovery_frame rt b state h dst ss = Some (b', sent state)
    \<and> filled b' (service_discovery_frame rt state h dst ss) k"
proof -
  define ps where "ps = (case ss of Some ps \<Rightarrow> ps | None \<Rightarrow> [])"
  let ?as = "concat (map (\<lambda>p. announcement_bytes (service_at h p)) ps)"
  define tail where "tail = (if fcs (st_ieee80211 state) then 4 else 0) + k"
  have "filled b [] (length (service_discovery_header rt state dst) + (12 + (13 + (length ?as + tail))))"
    using f by (simp add: service_discovery_frame_def length_with_fcs service_discovery_payload_def ps_def
        length_attribute_bytes_eq device_capability_body_def availability_body_def tail_def add.assoc add.left_commute)
  from nan_add_service_discovery_header_ok [OF rt this] obtain b1 where
    1: "nan_add_service_discovery_header rt b state dst = Some (b1, sent state)"
    "filled b1 (service_discovery_header rt state dst) (12 + (13 + (length ?as + tail)))" by blast
  from nan_add_device_capability_attribute_ok [OF 1(2)] obtain b2 where
    2: "nan_add_device_capability_attribute b1 = Some (12, b2)"
    "filled b2 (service_discovery_header rt state dst @ attribute_bytes DEVICE_CAPABILITY_ATTRIBUTE device_capability_body)
       (13 + (length ?as + tail))" by blast
  from nan_add_availability_attribute_ok [OF 2(2)] obtain b3 where
    3: "nan_add_availability_attribute b2 = Some (13, b3)"
    "filled b3 ((service_discovery_header rt state dst @ attribute_bytes DEVICE_CAPABILITY_ATTRIBUTE device_capability_body)
       @ attribute_bytes NAN_AVAILABILITY_ATTRIBUTE availability_body) (length ?as + tail)" by blast
  from add_announced_services_ok [OF 3(2)] ss obtain b4 where
    4: "LIST_FOR_EACH (add_announced_service h) ps b3 = Some b4"
    "filled b4 (service_discovery_header rt state dst @ service_discovery_payload h ss) tail"
    by (auto simp: ps_def service_discovery_payload_def)
  have 4: "(case ss of Some ss \<Rightarrow> LIST_FOR_EACH (add_announced_service h) ss b3 | None \<Rightarrow> Some b3) = Some b4"
    "filled b4 (service_discovery_header rt state dst @ service_discovery_payload h ss)
       ((if fcs (st_ieee80211 state) then 4 else 0) + k)"
    using 4 by (simp_all add: ps_def tail_def split: option.splits)
  from add_fcs_if [OF 4(2)] obtain b5 where
    5: "(if fcs (st_ieee80211 state) then ieee80211_add_fcs b4 else Some b4) = Some b5"
    "filled b5 (service_discovery_frame rt state h dst ss) k"
    by (auto simp: service_discovery_frame_def with_fcs_def simp del: le_bytes_numeral)
  show ?thesis
    unfolding nan_build_service_discovery_frame_def 1(1) Option.bind.simps prod.case 2(1) 3(1) 4(1) sent_simps 5(1)
    using 5(2) by blast
qed

text \<open>A follow-up carries long service information in an attribute of its own.\<close>

definition follow_up_frame ::
  "'it radiotap_lib \<Rightarrow> nan_state \<Rightarrow> ether_addr \<Rightarrow> nan_service \<Rightarrow> u8 \<Rightarrow> u8 list option \<Rightarrow> size_t \<Rightarrow> u8 list" where
  "follow_up_frame rt state dst v requestor info n = with_fcs state (service_discovery_header rt state dst
     @ attribute_bytes SERVICE_DESCRIPTOR_ATTRIBUTE (sda_body v CONTROL_TYPE_FOLLOW_UP requestor (small_info info n))
     @ (if n \<ge> 256 then attribute_bytes SERVICE_DESCRIPTOR_EXTENSION_ATTRIBUTE (sdea_body v (large_info info n)) else []))"

lemma filled_new_owned: "unat n < 2 ^ 31 \<Longrightarrow> filled (buf_new_owned junk n) [] (unat n)"
  using buf_new_owned_wf [of n junk] by (simp add: filled_def buf_new_owned_def)

lemma nan_transmit_ok:
  assumes rt: "radiotap_layout rt" and len: "length (follow_up_frame rt state dst v r info n) \<le> 65535"
    and v: "length (sv_service_id v) = 6" and fits: "info_fits info n"
    and p: "nan_get_service_by_instance_id (st_services state) (mm_services mem) i None = Some p" "p \<noteq> NULL"
      "cells (mm_services mem) p = Some v"
  shows "\<exists>b'. filled b' (follow_up_frame rt state dst v r info n) (65535 - length (follow_up_frame rt state dst v r info n))
    \<and> nan_transmit rt junk state mem dst i r info n =
      (case circular_buf_put (st_buffer state) (brk (mm_frames mem)) of None \<Rightarrow> None
       | Some (res, cb) \<Rightarrow> Some (if res < 0 then - 1 else 0, (sent state)\<lparr>st_buffer := cb\<rparr>,
           mem\<lparr>mm_frames := snd (store_alloc b' (mm_frames mem))\<rparr>))"
proof -
  define k where "k = 65535 - length (follow_up_frame rt state dst v r info n)"
  let ?sda = "sda_body v CONTROL_TYPE_FOLLOW_UP r (small_info info n)"
  let ?sdea = "sdea_body v (large_info info n)"
  define tail where "tail = (if fcs (st_ieee80211 state) then 4 else 0) + k"
  define tail' where "tail' = (if n \<ge> 256 then 3 + length ?sdea + tail else tail)"
  have "65535 = length (follow_up_frame rt state dst v r info n) + k" using len by (simp add: k_def)
  also have "\<dots> = length (service_discovery_header rt state dst) + (3 + length ?sda + tail')"
    by (simp add: follow_up_frame_def length_with_fcs length_attribute_bytes_eq tail'_def tail_def)
  finally have room: "unat BUF_MAX_LENGTH = length (service_discovery_header rt state dst) + (3 + length ?sda + tail')"
    by simp
  have "filled (buf_new_owned junk BUF_MAX_LENGTH) [] (unat BUF_MAX_LENGTH)" by (rule filled_new_owned) simp
  then have "filled (buf_new_owned junk BUF_MAX_LENGTH) [] (length (service_discovery_header rt state dst) + (3 + length ?sda + tail'))"
    by (simp only: room)
  from nan_add_service_discovery_header_ok [OF rt this] obtain b1 where
    1: "nan_add_service_discovery_header rt (buf_new_owned junk BUF_MAX_LENGTH) state dst = Some (b1, sent state)"
    "filled b1 (service_discovery_header rt state dst) (3 + length ?sda + tail')" by blast
  from nan_add_service_descriptor_attribute_ok [OF 1(2) v fits] obtain b2 where
    2: "nan_add_service_descriptor_attribute b1 v CONTROL_TYPE_FOLLOW_UP r info n = Some (3 + int (length ?sda), b2)"
    "filled b2 (service_discovery_header rt state dst @ attribute_bytes SERVICE_DESCRIPTOR_ATTRIBUTE ?sda) tail'" by blast
  define e where "e = (if n \<ge> 256 then attribute_bytes SERVICE_DESCRIPTOR_EXTENSION_ATTRIBUTE ?sdea else [])"
  obtain b3 where 3: "(if n \<ge> 256
      then do { (_, b) \<leftarrow> nan_add_service_descriptor_extension_attribute b2 v info n; Some b }
      else Some b2) = Some b3"
    "filled b3 (service_discovery_header rt state dst @ attribute_bytes SERVICE_DESCRIPTOR_ATTRIBUTE ?sda @ e)
       ((if fcs (st_ieee80211 state) then 4 else 0) + k)"
  proof (cases "n \<ge> 256")
    case True
    with 2(2) have "filled b2 (service_discovery_header rt state dst @ attribute_bytes SERVICE_DESCRIPTOR_ATTRIBUTE ?sda)
        (3 + length ?sdea + tail)" by (simp add: tail'_def)
    from nan_add_service_descriptor_extension_attribute_ok [OF this fits] True show ?thesis
      using that by (auto simp: e_def tail_def)
  next
    case False
    with 2(2) that show ?thesis by (simp add: e_def tail'_def tail_def)
  qed
  have frame: "follow_up_frame rt state dst v r info n =
      (if fcs (st_ieee80211 state)
       then (service_discovery_header rt state dst @ attribute_bytes SERVICE_DESCRIPTOR_ATTRIBUTE ?sda @ e)
         @ le_bytes 4 (crc32 (service_discovery_header rt state dst @ attribute_bytes SERVICE_DESCRIPTOR_ATTRIBUTE ?sda @ e))
       else service_discovery_header rt state dst @ attribute_bytes SERVICE_DESCRIPTOR_ATTRIBUTE ?sda @ e)"
    unfolding follow_up_frame_def with_fcs_def e_def by (rule refl)
  from add_fcs_if [OF 3(2)] obtain b4 where
    4: "(if fcs (st_ieee80211 state) then ieee80211_add_fcs b3 else Some b3) = Some b4"
    "filled b4 (follow_up_frame rt state dst v r info n) k"
    unfolding frame [symmetric] by blast
  show ?thesis
    using 4(2) p(2)
    unfolding nan_transmit_def p(1) Option.bind.simps Let_def 1(1) prod.case p(3) 2(1) 3(1) sent_simps 4(1) k_def
    by (intro exI [of _ b4]) (auto simp: store_alloc_def bind_eq_Some_conv split: option.splits bind_splits)
qed

section \<open>What a receiver reads from the frames\<close>

lemma split_attribute_bytes:
  assumes "length body < 2 ^ 16"
  shows "split_attributes (attribute_bytes t body @ rest)
    = ((attribute_type_val t, body) # fst (split_attributes rest), snd (split_attributes rest))"
proof -
  define n where "n = (of_nat (length body) :: u16)"
  obtain l m where lm: "le_bytes 2 n = [l, m]" using length_2E [of "le_bytes 2 n"] by auto
  have "of_le_bytes [l, m] = n" unfolding lm [symmetric] by (rule of_le_bytes_inverse) simp
  moreover have "unat n = length body" using assms by (simp add: n_def unat_of_nat take_bit_nat_eq_self)
  ultimately show ?thesis
    unfolding attribute_bytes_def nan_attribute_header_bytes_def n_def [symmetric] lm
    by (simp del: of_le_bytes.simps)
qed

lemma split_attributes_Nil: "split_attributes [] = ([], [])"
  by simp

lemma beacon_header_received:
  assumes "bs = nan_beacon_frame_bytes (beacon_header state type now_usec len) @ rest"
  shows "beacon_header_of bs = (rx_result_val RX_OK, nan_timer_get_synced_time_usec (st_timer state) now_usec)"
    "nan_get_beacon_type (of_le_bytes (take 2 (drop 8 bs))) = beacon_type_val type"
    "drop 18 bs = rest" "of_le_bytes (take 8 bs) = nan_timer_get_synced_time_usec (st_timer state) now_usec"
proof -
  define ts where "ts = nan_timer_get_synced_time_usec (st_timer state) now_usec"
  define iv where "iv = (if type = NAN_SYNC_BEACON then NAN_SYNC_BEACON_INTERVAL_TU else NAN_DISCOVERY_BEACON_INTERVAL)"
  have bs: "bs = le_bytes 8 ts @ le_bytes 2 iv @ le_bytes 2 (0x0420 :: u16) @ [0xdd, len, 0x50, 0x6f, 0x9a, NAN_OUI_TYPE_BEACON] @ rest"
    by (simp add: assms nan_beacon_frame_bytes_def beacon_header_def ts_def iv_def NAN_OUI_def
        del: le_bytes_numeral)
  have p: "take 8 bs = le_bytes 8 ts" "take 2 (drop 8 bs) = le_bytes 2 iv"
      "take 3 (drop 14 bs) = [0x50, 0x6f, 0x9a]" "bs ! 17 = NAN_OUI_TYPE_BEACON" "\<not> length bs < 18"
    by (simp_all add: bs nth_append del: le_bytes_numeral)
  have "of_le_bytes (take 8 bs) = ts" "of_le_bytes (take 2 (drop 8 bs)) = iv"
    unfolding p by (rule of_le_bytes_inverse; simp)+
  moreover have "nan_get_beacon_type iv = beacon_type_val type"
    by (cases type) (simp_all add: iv_def nan_get_beacon_type_def)
  moreover have "\<not> beacon_type_val type < 0" by (cases type) simp_all
  ultimately show "beacon_header_of bs = (rx_result_val RX_OK, nan_timer_get_synced_time_usec (st_timer state) now_usec)"
    "nan_get_beacon_type (of_le_bytes (take 2 (drop 8 bs))) = beacon_type_val type"
    "of_le_bytes (take 8 bs) = nan_timer_get_synced_time_usec (st_timer state) now_usec"
    by (simp_all add: beacon_header_of_def p(3,4) p(5) ts_def NAN_OUI_def oui_equal_def)
  show "drop 18 bs = rest" by (simp add: bs del: le_bytes_numeral)
qed

lemma beacon_attributes_received:
  "iterate_effect beacon_effect n (attribute_bytes MASTER_INDICATION_ATTRIBUTE (master_indication_body state)
      @ attribute_bytes CLUSTER_ATTRIBUTE (cluster_body state)) 0 peer
   = (rx_result_val RX_OK, nan_peer_set_anchor_master_information
      (nan_peer_set_master_indication peer (sy_master_preference (st_sync state)) (sy_random_factor (st_sync state)))
      (sy_anchor_master_rank (st_sync state)) (sy_ambtt (st_sync state)) (sy_hop_count (st_sync state)))"
proof -
  have l: "length (master_indication_body state) < 2 ^ 16" "length (cluster_body state) < 2 ^ 16"
    by (simp_all add: master_indication_body_def cluster_body_def)
  have s: "split_attributes (attribute_bytes MASTER_INDICATION_ATTRIBUTE (master_indication_body state)
      @ attribute_bytes CLUSTER_ATTRIBUTE (cluster_body state) @ []) =
      ([(attribute_type_val MASTER_INDICATION_ATTRIBUTE, master_indication_body state),
        (attribute_type_val CLUSTER_ATTRIBUTE, cluster_body state)], [])"
    unfolding split_attribute_bytes [OF l(1)] split_attribute_bytes [OF l(2)] by simp
  have "of_le_bytes (take 8 (cluster_body state)) = sy_anchor_master_rank (st_sync state)"
    "of_le_bytes (take 4 (drop 9 (cluster_body state))) = sy_ambtt (st_sync state)"
    "cluster_body state ! 8 = sy_hop_count (st_sync state)" "length (cluster_body state) = 13"
    by (simp_all add: cluster_body_def of_le_bytes_inverse nth_append del: le_bytes_numeral)
  with s show ?thesis
    by (simp add: iterate_effect_def end_accepted_def beacon_effect_def master_indication_effect_def
        cluster_effect_def master_indication_body_def)
qed

lemma sda_control_byte_fields:
  "\<not> sdc_binding_bitmap_present (sda_control_byte t info)"
  "\<not> sdc_matching_filter_present (sda_control_byte t info)"
  "\<not> sdc_service_response_filter_present (sda_control_byte t info)"
  "sdc_service_info_present (sda_control_byte t info) \<longleftrightarrow> info \<noteq> None"
  "sdc_service_control_type (sda_control_byte t info) = service_control_type_val t"
proof -
  have "\<not> sdc_binding_bitmap_present (sda_control_byte t info)
    \<and> \<not> sdc_matching_filter_present (sda_control_byte t info)
    \<and> \<not> sdc_service_response_filter_present (sda_control_byte t info)
    \<and> (sdc_service_info_present (sda_control_byte t info) \<longleftrightarrow> info \<noteq> None)
    \<and> sdc_service_control_type (sda_control_byte t info) = service_control_type_val t"
    unfolding sda_control_byte_def
    by (cases t; cases "info = None")
      (simp_all only: if_True if_False service_control_type_val.simps Let_def, code_simp+)
  then show "\<not> sdc_binding_bitmap_present (sda_control_byte t info)"
    "\<not> sdc_matching_filter_present (sda_control_byte t info)"
    "\<not> sdc_service_response_filter_present (sda_control_byte t info)"
    "sdc_service_info_present (sda_control_byte t info) \<longleftrightarrow> info \<noteq> None"
    "sdc_service_control_type (sda_control_byte t info) = service_control_type_val t"
    by simp_all
qed

text \<open>The descriptor a receiver gets from what was written for a service.\<close>

definition descriptor_of ::
  "nan_service_descriptor_attribute \<Rightarrow> nan_service \<Rightarrow> nan_service_control_type \<Rightarrow> u8 \<Rightarrow> u8 list option
   \<Rightarrow> nan_service_descriptor_attribute" where
  "descriptor_of a v t r info = (let a = a\<lparr>sda_service_id := sv_service_id v,
        sda_instance_id := sv_instance_id v, sda_requestor_instance_id := r, sda_control := sda_control_byte t info\<rparr>
      in case info of None \<Rightarrow> a
         | Some bs \<Rightarrow> a\<lparr>sda_service_info_length := of_nat (length bs), sda_service_info := bs\<rparr>)"

lemma sda_received:
  assumes "length (sv_service_id v) = 6" "\<forall>bs. info = Some bs \<longrightarrow> length bs < 256"
  shows "sda_of a (sda_body v t r info) = Some (descriptor_of a v t r info)"
proof -
  define tail where "tail = (case info of Some bytes \<Rightarrow> of_nat (length bytes) # bytes | None \<Rightarrow> [])"
  define body where "body = sda_body v t r info"
  have b: "body = sv_service_id v @ [sv_instance_id v, r, sda_control_byte t info] @ tail"
    by (simp add: body_def sda_body_def tail_def)
  have p: "take 6 body = sv_service_id v" "body ! 6 = sv_instance_id v" "body ! 7 = r"
      "body ! 8 = sda_control_byte t info" "drop 9 body = tail" "\<not> length body < 9"
    using assms(1) by (simp_all add: b nth_append)
  show ?thesis
    unfolding body_def [symmetric] sda_of_def descriptor_of_def Let_def p
    using assms(2) p(6)
    by (auto simp: sda_control_byte_fields tail_def counted_def unat_of_nat take_bit_nat_eq_self split: option.splits)
qed

lemma sdea_control_fields:
  "\<not> sdec_range_limit_present (if p then sdec_set_service_update_indicator_present 1 0 else 0)"
  "sdec_service_update_indicator_present (if p then sdec_set_service_update_indicator_present 1 0 else 0) \<longleftrightarrow> p"
proof -
  have "\<not> sdec_range_limit_present (sdec_set_service_update_indicator_present 1 0)"
    "sdec_service_update_indicator_present (sdec_set_service_update_indicator_present 1 0)"
    "\<not> sdec_range_limit_present 0" "\<not> sdec_service_update_indicator_present 0"
    by code_simp+
  then show "\<not> sdec_range_limit_present (if p then sdec_set_service_update_indicator_present 1 0 else 0)"
    "sdec_service_update_indicator_present (if p then sdec_set_service_update_indicator_present 1 0 else 0) \<longleftrightarrow> p"
    by auto
qed

text \<open>
  The sender stores the service information right after its length, the receiver expects an
  OUI and a type there: the first three bytes become the OUI, the fourth is skipped, and the
  information that is left starts at the fifth.
\<close>

definition extension_of ::
  "nan_service_descriptor_extension_attribute \<Rightarrow> nan_service \<Rightarrow> u8 list option
   \<Rightarrow> nan_service_descriptor_extension_attribute" where
  "extension_of a v info = (let p = sv_type v = PUBLISHED;
        a = a\<lparr>sdea_instance_id := sv_instance_id v,
              sdea_control := if p then sdec_set_service_update_indicator_present 1 0 else 0\<rparr>;
        a = (if p then a\<lparr>sdea_service_update_indicator := sv_update_indicator v\<rparr> else a)
      in case info of None \<Rightarrow> a
         | Some bs \<Rightarrow> a\<lparr>sdea_oui := take 3 bs,
             sdea_service_specific_info_length := of_nat (length bs - 4),
             sdea_service_specific_info := (if p then 10 else 9)\<rparr>)"

lemma sdea_received:
  assumes "\<forall>bs. info = Some bs \<longrightarrow> 256 \<le> length bs \<and> length bs < 2 ^ 16"
  shows "sdea_of a (sdea_body v info) = Some (extension_of a v info)"
proof -
  define pub where "pub \<longleftrightarrow> sv_type v = PUBLISHED"
  define c where "c = (if pub then sdec_set_service_update_indicator_present 1 0 else 0 :: u16)"
  define tail where "tail = (case info of Some bytes \<Rightarrow> le_bytes 2 (of_nat (length bytes) :: u16) @ bytes | None \<Rightarrow> [])"
  define body where "body = sdea_body v info"
  define q where "q = 3 + (if pub then 1 else 0 :: nat)"
  have b: "body = [sv_instance_id v] @ le_bytes 2 c @ (if pub then [sv_update_indicator v] else []) @ tail"
    by (simp add: body_def sdea_body_def tail_def c_def pub_def del: le_bytes_numeral)
  have p: "take 2 (drop 1 body) = le_bytes 2 c" "body ! 0 = sv_instance_id v" "\<not> length body < 3"
      "drop q body = tail" "\<not> length body < q" "length body = q + length tail" "pub \<Longrightarrow> body ! 3 = sv_update_indicator v"
    by (simp_all add: b q_def nth_append del: le_bytes_numeral)
  have c': "of_le_bytes (take 2 (drop 1 body)) = c" unfolding p by (rule of_le_bytes_inverse) simp
  have f: "\<not> sdec_range_limit_present c" "sdec_service_update_indicator_present c \<longleftrightarrow> pub"
    unfolding c_def by (rule sdea_control_fields)+
  show ?thesis
  proof (cases info)
    case None
    then have "tail = []" by (simp add: tail_def)
    with p f show ?thesis
      unfolding body_def [symmetric] sdea_of_def extension_of_def Let_def c'
      by (cases pub) (simp_all add: None c_def pub_def [symmetric] q_def)
  next
    case (Some bs)
    define n where "n = (of_nat (length bs) :: u16)"
    have len: "256 \<le> length bs" "length bs < 2 ^ 16" using assms Some by simp_all
    have ne: "bs \<noteq> []" using len by auto
    have n: "unat n = length bs" using len by (simp add: n_def unat_of_nat take_bit_nat_eq_self)
    have t: "tail = le_bytes 2 n @ bs" by (simp add: tail_def Some n_def)
    have t': "of_le_bytes (take 2 (drop q body)) = n" "take 3 (drop (q + 2) body) = take 3 bs"
    proof -
      have "take 2 (drop q body) = le_bytes 2 n" unfolding p(4) t by (simp del: le_bytes_numeral)
      then show "of_le_bytes (take 2 (drop q body)) = n" by (simp only:) (rule of_le_bytes_inverse, simp)
      have "drop (q + 2) body = drop 2 (drop q body)" by (simp add: add.commute)
      also have "\<dots> = bs" unfolding p(4) t by (simp del: le_bytes_numeral)
      finally show "take 3 (drop (q + 2) body) = take 3 bs" by simp
    qed
    have l: "length body = q + 2 + length bs" using p(6) t by simp
    have i: "word_of_int (uint n - 4) = (of_nat (length bs - 4) :: size_t)"
    proof -
      have "uint n - 4 = int (length bs - 4)" using arg_cong [OF n, of int] len(1) by (simp add: of_nat_diff)
      then show ?thesis by simp
    qed
    show ?thesis
    proof (cases pub)
      case True
      then have q: "q = 4" by (simp add: q_def)
      show ?thesis
        unfolding body_def [symmetric] sdea_of_def extension_of_def Let_def c'
        using True p(2,3,5,7) f l len ne n i t' by (simp add: q Some c_def pub_def [symmetric])
    next
      case False
      then have q: "q = 3" by (simp add: q_def)
      show ?thesis
        unfolding body_def [symmetric] sdea_of_def extension_of_def Let_def c'
        using False p(2,3,5,7) f l len ne n i t' by (simp add: q Some c_def pub_def [symmetric])
    qed
  qed
qed

definition control_type_of :: "nan_service \<Rightarrow> nan_service_control_type" where
  "control_type_of v = (if sv_type v = SUBSCRIBED then CONTROL_TYPE_SUBSCRIBE else CONTROL_TYPE_PUBLISH)"

definition received_descriptor :: "rx_junk \<Rightarrow> nan_service \<Rightarrow> nan_service_descriptor_attribute" where
  "received_descriptor j v = descriptor_of (rj_sda j) v (control_type_of v) 0
     (small_info (sv_specific_info v) (sv_specific_info_length v))"

definition received_extension :: "rx_junk \<Rightarrow> nan_service \<Rightarrow> nan_service_descriptor_extension_attribute" where
  "received_extension j v = extension_of (rj_sdea j) v (large_info (sv_specific_info v) (sv_specific_info_length v))"

text \<open>The length of an attribute has 16 bits.\<close>

definition service_short :: "nan_service \<Rightarrow> bool" where
  "service_short v \<longleftrightarrow> service_sendable v \<and> unat (sv_specific_info_length v) < 65530"

lemma small_info_length: "info_fits info n \<Longrightarrow> small_info info n = Some bs \<Longrightarrow> length bs < 256"
  by (auto simp: small_info_def info_fits_def word_less_nat_alt split: option.splits if_splits)

lemma large_info_length:
  "info_fits info n \<Longrightarrow> large_info info n = Some bs \<Longrightarrow> 256 \<le> length bs \<and> length bs = unat n"
  by (auto simp: large_info_def info_fits_def word_le_nat_alt split: option.splits if_splits)

lemma announcement_received:
  assumes v: "service_short v"
  shows "split_attributes (announcement_bytes v @ rest) =
     ((attribute_type_val SERVICE_DESCRIPTOR_ATTRIBUTE,
         sda_body v (control_type_of v) 0 (small_info (sv_specific_info v) (sv_specific_info_length v)))
      # (attribute_type_val SERVICE_DESCRIPTOR_EXTENSION_ATTRIBUTE,
         sdea_body v (large_info (sv_specific_info v) (sv_specific_info_length v)))
      # fst (split_attributes rest), snd (split_attributes rest))"
    and "service_discovery_effect j (attribute_type_val SERVICE_DESCRIPTOR_ATTRIBUTE)
        (sda_body v (control_type_of v) 0 (small_info (sv_specific_info v) (sv_specific_info_length v))) ds
      = (rx_result_val RX_OK, fst ds @ [received_descriptor j v], snd ds)"
    and "service_discovery_effect j (attribute_type_val SERVICE_DESCRIPTOR_EXTENSION_ATTRIBUTE)
        (sdea_body v (large_info (sv_specific_info v) (sv_specific_info_length v))) ds
      = (rx_result_val RX_OK, fst ds, snd ds @ [received_extension j v])"
proof -
  let ?i = "sv_specific_info v" and ?n = "sv_specific_info_length v"
  have v': "length (sv_service_id v) = 6" "info_fits ?i ?n" "unat ?n < 65530"
    using v by (simp_all add: service_short_def service_sendable_def)
  have small: "\<forall>bs. small_info ?i ?n = Some bs \<longrightarrow> length bs < 256" using small_info_length [OF v'(2)] by blast
  have large: "\<forall>bs. large_info ?i ?n = Some bs \<longrightarrow> 256 \<le> length bs \<and> length bs < 2 ^ 16"
    using large_info_length [OF v'(2)] v'(3) by fastforce
  have l1: "length (sda_body v (control_type_of v) 0 (small_info ?i ?n)) < 2 ^ 16"
    using small v'(1) by (auto simp: sda_body_def split: option.splits)
  have l2: "length (sdea_body v (large_info ?i ?n)) < 2 ^ 16"
    using large_info_length [OF v'(2)] v'(3) by (fastforce simp: sdea_body_def split: option.splits)
  show "split_attributes (announcement_bytes v @ rest) =
     ((attribute_type_val SERVICE_DESCRIPTOR_ATTRIBUTE, sda_body v (control_type_of v) 0 (small_info ?i ?n))
      # (attribute_type_val SERVICE_DESCRIPTOR_EXTENSION_ATTRIBUTE, sdea_body v (large_info ?i ?n))
      # fst (split_attributes rest), snd (split_attributes rest))"
    unfolding announcement_bytes_def append_assoc control_type_of_def [symmetric]
      split_attribute_bytes [OF l1] split_attribute_bytes [OF l2] by simp
  show "service_discovery_effect j (attribute_type_val SERVICE_DESCRIPTOR_ATTRIBUTE)
        (sda_body v (control_type_of v) 0 (small_info ?i ?n)) ds
      = (rx_result_val RX_OK, fst ds @ [received_descriptor j v], snd ds)"
    by (simp add: service_discovery_effect_def sda_received [OF v'(1) small] received_descriptor_def)
  show "service_discovery_effect j (attribute_type_val SERVICE_DESCRIPTOR_EXTENSION_ATTRIBUTE)
        (sdea_body v (large_info ?i ?n)) ds = (rx_result_val RX_OK, fst ds, snd ds @ [received_extension j v])"
    by (simp add: service_discovery_effect_def sdea_received [OF large] received_extension_def)
qed

lemma announcements_received:
  assumes "\<forall>v \<in> set vs. service_short v"
  shows "snd (split_attributes (concat (map announcement_bytes vs))) = []
    \<and> (0 \<le> result \<longrightarrow> (\<exists>r\<ge>0. fold_attributes (service_discovery_effect j)
          (fst (split_attributes (concat (map announcement_bytes vs)))) result ds
        = (r, fst ds @ map (received_descriptor j) vs, snd ds @ map (received_extension j) vs)))"
  using assms
proof (induction vs arbitrary: result ds)
  case (Cons v vs)
  have v: "service_short v" using Cons.prems by simp
  have IH: "snd (split_attributes (concat (map announcement_bytes vs))) = []"
    "\<exists>r\<ge>0. fold_attributes (service_discovery_effect j) (fst (split_attributes (concat (map announcement_bytes vs))))
       (rx_result_val RX_OK) (fst ds @ [received_descriptor j v], snd ds @ [received_extension j v])
     = (r, (fst ds @ [received_descriptor j v]) @ map (received_descriptor j) vs,
           (snd ds @ [received_extension j v]) @ map (received_extension j) vs)"
    using Cons.IH [of "rx_result_val RX_OK" "(fst ds @ [received_descriptor j v], snd ds @ [received_extension j v])"]
      Cons.prems by auto
  have c: "concat (map announcement_bytes (v # vs)) = announcement_bytes v @ concat (map announcement_bytes vs)" by simp
  show ?case
    unfolding c announcement_received(1) [OF v] fst_conv snd_conv fold_attributes.simps
      announcement_received(2,3) [OF v]
    using IH by simp
qed simp

lemma service_discovery_received:
  assumes ps: "\<forall>p \<in> set ps. service_short (service_at h p)"
  shows "iterate_effect (service_discovery_effect j) n (service_discovery_payload h (Some ps)) 0 ([], [])
    = (rx_result_val RX_OK, map (\<lambda>p. received_descriptor j (service_at h p)) ps,
       map (\<lambda>p. received_extension j (service_at h p)) ps)"
proof -
  define vs where "vs = map (service_at h) ps"
  have vs: "\<forall>v \<in> set vs. service_short v" using ps by (simp add: vs_def)
  have pay: "service_discovery_payload h (Some ps) = attribute_bytes DEVICE_CAPABILITY_ATTRIBUTE device_capability_body
      @ attribute_bytes NAN_AVAILABILITY_ATTRIBUTE availability_body @ concat (map announcement_bytes vs)"
    by (simp add: service_discovery_payload_def vs_def comp_def)
  have l: "length device_capability_body < 2 ^ 16" "length availability_body < 2 ^ 16"
    by (simp_all add: device_capability_body_def availability_body_def)
  obtain r where r: "0 \<le> r" "fold_attributes (service_discovery_effect j)
      (fst (split_attributes (concat (map announcement_bytes vs)))) (rx_result_val RX_IGNORE) ([], [])
      = (r, map (received_descriptor j) vs, map (received_extension j) vs)"
    using announcements_received [OF vs, of "rx_result_val RX_IGNORE" j "([], [])"] by auto
  have e: "service_discovery_effect j (attribute_type_val DEVICE_CAPABILITY_ATTRIBUTE) bs ds = (rx_result_val RX_IGNORE, ds)"
    "service_discovery_effect j (attribute_type_val NAN_AVAILABILITY_ATTRIBUTE) bs ds = (rx_result_val RX_IGNORE, ds)" for bs ds
    by (simp_all add: service_discovery_effect_def)
  have ign: "\<not> rx_result_val RX_IGNORE < 0" by simp
  show ?thesis
    unfolding pay iterate_effect_def split_attribute_bytes [OF l(1)] split_attribute_bytes [OF l(2)] fst_conv snd_conv
      fold_attributes.simps e if_not_P [OF ign] r(2)
    using r(1) announcements_received [OF vs] by (simp add: end_accepted_def vs_def)
qed

lemma filled_of_new:
  "unat n < 2 ^ 31 \<Longrightarrow> k \<le> unat n \<Longrightarrow> filled (buf_new_owned junk n) [] (k + (unat n - k))"
  using filled_new_owned [of n junk] by simp

section \<open>Properties\<close>

text \<open>
  C4: A beacon is built without leaving a buffer of at least 78 bytes, and whoever receives it
  recovers the beacon type, the time stamp, the master indication and the anchor master
  information of the sender.
\<close>

theorem beacon_roundtrip:
  assumes "radiotap_layout rt" "unat n < 2 ^ 31" "78 \<le> unat n" "junk_ok j"
  shows "\<exists>b. nan_build_beacon_frame rt (buf_new_owned junk n) state type now_usec = Some (b, sent state)
    \<and> wf_buf b \<and> berror b = 0 \<and> written b = with_fcs state (beacon_frame rt state type now_usec)
    \<and> (\<forall>frame. wf_buf frame \<longrightarrow> berror frame = 0 \<longrightarrow> inp frame = beacon_payload state type now_usec \<longrightarrow>
        (\<exists>frame1 frame2. nan_parse_beacon_header j frame bt ts
            = Some (rx_result_val RX_OK, beacon_type_val type, nan_timer_get_synced_time_usec (st_timer state) now_usec, frame1)
          \<and> NAN_ITERATE_ATTRIBUTES (beacon_attribute j) j frame1 (rx_result_val RX_OK) peer
            = Some (rx_result_val RX_OK, frame2, nan_peer_set_anchor_master_information
                (nan_peer_set_master_indication peer (sy_master_preference (st_sync state))
                   (sy_random_factor (st_sync state)))
                (sy_anchor_master_rank (st_sync state)) (sy_ambtt (st_sync state)) (sy_hop_count (st_sync state)))))"
proof -
  let ?k = "length (with_fcs state (beacon_frame rt state type now_usec))"
  have "?k \<le> unat n"
    using assms(3) by (simp add: length_with_fcs beacon_frame_def beacon_payload_def length_radiotap_bytes
        length_attribute_bytes_eq master_indication_body_def cluster_body_def)
  from nan_build_beacon_frame_ok [OF assms(1) filled_of_new [OF assms(2) this, of junk] refl] obtain b where
    b: "nan_build_beacon_frame rt (buf_new_owned junk n) state type now_usec = Some (b, sent state)"
    "filled b (with_fcs state (beacon_frame rt state type now_usec)) (unat n - ?k)" by auto
  have "\<exists>frame1 frame2. nan_parse_beacon_header j frame bt ts
            = Some (rx_result_val RX_OK, beacon_type_val type, nan_timer_get_synced_time_usec (st_timer state) now_usec, frame1)
          \<and> NAN_ITERATE_ATTRIBUTES (beacon_attribute j) j frame1 (rx_result_val RX_OK) peer
            = Some (rx_result_val RX_OK, frame2, nan_peer_set_anchor_master_information
                (nan_peer_set_master_indication peer (sy_master_preference (st_sync state))
                   (sy_random_factor (st_sync state)))
                (sy_anchor_master_rank (st_sync state)) (sy_ambtt (st_sync state)) (sy_hop_count (st_sync state)))"
    if f: "wf_buf frame" "berror frame = 0" "inp frame = beacon_payload state type now_usec" for frame
  proof -
    have "sim frame (Some (beacon_payload state type now_usec))" using f by (simp add: sim_def)
    from nan_parse_beacon_header_spec [OF this assms(4), of bt ts] obtain frame1 where
      1: "nan_parse_beacon_header j frame bt ts
            = Some (rx_result_val RX_OK, beacon_type_val type, nan_timer_get_synced_time_usec (st_timer state) now_usec, frame1)"
      "sim frame1 (Some (attribute_bytes MASTER_INDICATION_ATTRIBUTE (master_indication_body state)
          @ attribute_bytes CLUSTER_ATTRIBUTE (cluster_body state)))"
      by (auto simp: beacon_header_received [OF beacon_payload_def [of state type now_usec]])
    from beacon_iterate [OF 1(2), of j 0 peer] 1(1) show ?thesis
      by (auto simp: beacon_attributes_received)
  qed
  with b show ?thesis by (auto simp: filled_def)
qed

text \<open>A library with the documented layout whose iterator finds no field.\<close>

definition plain_radiotap :: "unit radiotap_lib" where
  "plain_radiotap = \<lparr>rt_header_size = 8, rt_it_version = 0, rt_it_pad = 1, rt_it_len = 2, rt_it_present = 4,
     RADIOTAP_TSFT = 0, RADIOTAP_FLAGS = 1, RADIOTAP_RATE = 2, RADIOTAP_DBM_ANTSIGNAL = 5, RADIOTAP_F_FCS = 0x10,
     RADIOTAP_F_BADFCS = 0x40, rt_iterator_init = \<lambda>_ _. (0, ()), rt_iterator_next = \<lambda>_. (- 2, ()),
     rt_is_radiotap_ns = \<lambda>_. True, rt_this_arg_index = \<lambda>_. 0, rt_this_arg = \<lambda>_. []\<rparr>"

lemma plain_radiotap_layout: "radiotap_layout plain_radiotap"
  by (simp add: radiotap_layout_def plain_radiotap_def)

theorem beacon_roundtrip_witness:
  "\<forall>(state :: nan_state) peer j. \<exists>b.
     nan_build_beacon_frame plain_radiotap (buf_new_owned (\<lambda>_. 0) 100) state NAN_SYNC_BEACON 5 = Some (b, sent state)
     \<and> (\<exists>frame1 frame2. nan_parse_beacon_header (sized j) (buf_new_const (beacon_payload state NAN_SYNC_BEACON 5) 39) 0 0
            = Some (rx_result_val RX_OK, 0, nan_timer_get_synced_time_usec (st_timer state) 5, frame1)
          \<and> NAN_ITERATE_ATTRIBUTES (beacon_attribute (sized j)) (sized j) frame1 0 peer
            = Some (rx_result_val RX_OK, frame2, nan_peer_set_anchor_master_information
                (nan_peer_set_master_indication peer (sy_master_preference (st_sync state))
                   (sy_random_factor (st_sync state)))
                (sy_anchor_master_rank (st_sync state)) (sy_ambtt (st_sync state)) (sy_hop_count (st_sync state))))"
proof (intro allI)
  fix state :: nan_state and peer :: nan_peer and j :: rx_junk
  have l: "length (beacon_payload state NAN_SYNC_BEACON 5) = 39"
    by (simp add: beacon_payload_def length_attribute_bytes_eq master_indication_body_def cluster_body_def)
  have new: "wf_buf (buf_new_const (beacon_payload state NAN_SYNC_BEACON 5) 39)"
      "berror (buf_new_const (beacon_payload state NAN_SYNC_BEACON 5) 39) = 0"
      "inp (buf_new_const (beacon_payload state NAN_SYNC_BEACON 5) 39) = beacon_payload state NAN_SYNC_BEACON 5"
    using buf_new_const_wf [of 39 "beacon_payload state NAN_SYNC_BEACON 5"] l by simp_all
  have "unat (100 :: size_t) < 2 ^ 31" "78 \<le> unat (100 :: size_t)" by simp_all
  from beacon_roundtrip [OF plain_radiotap_layout this junk_ok_sized, of "\<lambda>_. 0" state NAN_SYNC_BEACON 5 j 0 0 peer]
  show "\<exists>b. nan_build_beacon_frame plain_radiotap (buf_new_owned (\<lambda>_. 0) 100) state NAN_SYNC_BEACON 5 = Some (b, sent state)
     \<and> (\<exists>frame1 frame2. nan_parse_beacon_header (sized j) (buf_new_const (beacon_payload state NAN_SYNC_BEACON 5) 39) 0 0
            = Some (rx_result_val RX_OK, 0, nan_timer_get_synced_time_usec (st_timer state) 5, frame1)
          \<and> NAN_ITERATE_ATTRIBUTES (beacon_attribute (sized j)) (sized j) frame1 0 peer
            = Some (rx_result_val RX_OK, frame2, nan_peer_set_anchor_master_information
                (nan_peer_set_master_indication peer (sy_master_preference (st_sync state))
                   (sy_random_factor (st_sync state)))
                (sy_anchor_master_rank (st_sync state)) (sy_ambtt (st_sync state)) (sy_hop_count (st_sync state))))"
    using new by auto
qed

text \<open>
  C5: A service discovery frame is built byte for byte as specified, and a receiver gets one
  descriptor and one extension for every announced service, in order: the identifiers, the
  control type and service information of up to 255 bytes arrive unchanged, longer information
  loses its first four bytes (\<open>extension_of\<close>).
\<close>

theorem service_discovery_roundtrip:
  assumes "radiotap_layout rt" "unat n < 2 ^ 31"
    and "length (service_discovery_frame rt state h dst (Some ps)) \<le> unat n"
    and "\<forall>p \<in> set ps. cells h p \<noteq> None \<and> service_short (service_at h p)"
    and "junk_ok j"
  shows "\<exists>b. nan_build_service_discovery_frame rt (buf_new_owned junk n) state h dst (Some ps) = Some (b, sent state)
    \<and> wf_buf b \<and> berror b = 0 \<and> written b = service_discovery_frame rt state h dst (Some ps)
    \<and> (\<forall>frame. wf_buf frame \<longrightarrow> berror frame = 0 \<longrightarrow> inp frame = service_discovery_payload h (Some ps) \<longrightarrow>
        (\<exists>frame'. NAN_ITERATE_ATTRIBUTES (service_discovery_attribute j) j frame 0 ([], [])
          = Some (rx_result_val RX_OK, frame', map (\<lambda>p. received_descriptor j (service_at h p)) ps,
              map (\<lambda>p. received_extension j (service_at h p)) ps)))"
proof -
  have ps: "\<forall>p \<in> set (case Some ps of Some ps \<Rightarrow> ps | None \<Rightarrow> []). \<exists>v. cells h p = Some v \<and> service_sendable v"
    using assms(4) by (auto simp: service_at_def service_short_def)
  from nan_build_service_discovery_frame_ok [OF assms(1) filled_of_new [OF assms(2,3), of junk] ps] obtain b where
    b: "nan_build_service_discovery_frame rt (buf_new_owned junk n) state h dst (Some ps) = Some (b, sent state)"
    "filled b (service_discovery_frame rt state h dst (Some ps))
       (unat n - length (service_discovery_frame rt state h dst (Some ps)))" by blast
  have "\<exists>frame'. NAN_ITERATE_ATTRIBUTES (service_discovery_attribute j) j frame 0 ([], [])
      = Some (rx_result_val RX_OK, frame', map (\<lambda>p. received_descriptor j (service_at h p)) ps,
              map (\<lambda>p. received_extension j (service_at h p)) ps)"
    if f: "wf_buf frame" "berror frame = 0" "inp frame = service_discovery_payload h (Some ps)" for frame
  proof -
    have "sim frame (Some (service_discovery_payload h (Some ps)))" using f by (simp add: sim_def)
    from service_discovery_iterate [OF this assms(5), of 0 "([], [])"] assms(4) show ?thesis
      by (simp add: service_discovery_received)
  qed
  with b show ?thesis by (auto simp: filled_def)
qed

text \<open>One published service with three bytes of information, and nothing published.\<close>

definition sample_service :: nan_service where
  "sample_service = \<lparr>sv_service_name = ''a'', sv_type = PUBLISHED, sv_instance_id = 7,
     sv_service_id = [1, 2, 3, 4, 5, 6], sv_specific_info = Some [10, 20, 30], sv_specific_info_length = 3,
     sv_update_indicator = 0, sv_time_to_live = - 1, sv_parameters_type = 0, sv_parameters_flag = False\<rparr>"

definition sample_services :: service_heap where
  "sample_services = \<lparr>cells = [5 \<mapsto> sample_service], brk = 6\<rparr>"

theorem service_discovery_roundtrip_witness:
  "\<forall>(state :: nan_state) dst j. \<exists>b frame'.
     nan_build_service_discovery_frame plain_radiotap (buf_new_owned (\<lambda>_. 0) 200) state sample_services dst (Some [5])
       = Some (b, sent state)
     \<and> NAN_ITERATE_ATTRIBUTES (service_discovery_attribute (sized j)) (sized j)
          (buf_new_const (service_discovery_payload sample_services (Some [5])) 48) 0 ([], [])
        = Some (rx_result_val RX_OK, frame', [received_descriptor (sized j) sample_service],
            [received_extension (sized j) sample_service])"
proof (intro allI)
  fix state :: nan_state and dst :: ether_addr and j :: rx_junk
  let ?pay = "service_discovery_payload sample_services (Some [5])"
  have at: "service_at sample_services 5 = sample_service"
    by (simp add: service_at_def sample_services_def)
  have l: "length ?pay = 48"
    by (simp add: service_discovery_payload_def at announcement_bytes_def length_attribute_bytes_eq
        device_capability_body_def availability_body_def sda_body_def sdea_body_def sample_service_def
        small_info_def large_info_def)
  have new: "wf_buf (buf_new_const ?pay 48)" "berror (buf_new_const ?pay 48) = 0" "inp (buf_new_const ?pay 48) = ?pay"
    using buf_new_const_wf [of 48 ?pay] l by simp_all
  have room: "unat (200 :: size_t) < 2 ^ 31"
    "length (service_discovery_frame plain_radiotap state sample_services dst (Some [5])) \<le> unat (200 :: size_t)"
    by (simp_all add: service_discovery_frame_def length_with_fcs service_discovery_header_def length_radiotap_bytes l)
  have ps: "\<forall>p \<in> set [5]. cells sample_services p \<noteq> None \<and> service_short (service_at sample_services p)"
    by (simp add: at service_short_def service_sendable_def info_fits_def sample_service_def)
      (simp add: sample_services_def)
  from service_discovery_roundtrip [OF plain_radiotap_layout room ps junk_ok_sized, of "\<lambda>_. 0" j]
  show "\<exists>b frame'.
     nan_build_service_discovery_frame plain_radiotap (buf_new_owned (\<lambda>_. 0) 200) state sample_services dst (Some [5])
       = Some (b, sent state)
     \<and> NAN_ITERATE_ATTRIBUTES (service_discovery_attribute (sized j)) (sized j) (buf_new_const ?pay 48) 0 ([], [])
        = Some (rx_result_val RX_OK, frame', [received_descriptor (sized j) sample_service],
            [received_extension (sized j) sample_service])"
    using new by (auto simp: at)
qed

text \<open>
  C26: A follow-up to a known service is queued with exactly the bytes specified and reports
  success while the queue has room; otherwise it reports -1 with the queue unchanged, and the
  frame stays allocated without being referenced.
\<close>

theorem nan_transmit_queues:
  assumes "radiotap_layout rt" "length (follow_up_frame rt state dst v r info n) \<le> 65535"
    and "length (sv_service_id v) = NAN_SERVICE_ID_LENGTH" "info_fits info n"
    and "nan_get_service_by_instance_id (st_services state) (mm_services mem) i None = Some p" "p \<noteq> NULL"
      "cells (mm_services mem) p = Some v"
    and "cbuf_inv (st_buffer state)"
  shows "\<exists>b res state'. nan_transmit rt junk state mem dst i r info n
      = Some (res, state', mem\<lparr>mm_frames := snd (store_alloc b (mm_frames mem))\<rparr>)
    \<and> written b = follow_up_frame rt state dst v r info n \<and> berror b = 0
    \<and> (if circular_buf_full (st_buffer state)
       then res = - 1 \<and> cbuf_contents (st_buffer state') = cbuf_contents (st_buffer state)
       else res = 0 \<and> cbuf_contents (st_buffer state') = cbuf_contents (st_buffer state) @ [brk (mm_frames mem)])"
proof -
  from nan_transmit_ok [OF assms(1,2) assms(3) assms(4) assms(5-7), of junk] obtain b where
    b: "filled b (follow_up_frame rt state dst v r info n) (65535 - length (follow_up_frame rt state dst v r info n))"
    "nan_transmit rt junk state mem dst i r info n =
      (case circular_buf_put (st_buffer state) (brk (mm_frames mem)) of None \<Rightarrow> None
       | Some (res, cb) \<Rightarrow> Some (if res < 0 then - 1 else 0, (sent state)\<lparr>st_buffer := cb\<rparr>,
           mem\<lparr>mm_frames := snd (store_alloc b (mm_frames mem))\<rparr>))" by blast
  show ?thesis
  proof (cases "circular_buf_full (st_buffer state)")
    case True
    then have "circular_buf_put (st_buffer state) (brk (mm_frames mem)) = Some (- 1, st_buffer state)"
      by (simp add: circular_buf_put_def)
    with True b show ?thesis by (auto simp: filled_def)
  next
    case False
    from circular_buf_put_spec [OF assms(8) False, of "brk (mm_frames mem)"] b False show ?thesis
      by (auto simp: filled_def)
  qed
qed

text \<open>A follow-up of the sample service, with an empty queue.\<close>

definition sample_state :: "nan_state \<Rightarrow> circular_buf \<Rightarrow> nan_state" where
  "sample_state state cb = state\<lparr>
     st_services := \<lparr>published_services = [5], subscribed_services = [], last_instance_id = 7\<rparr>,
     st_buffer := circular_buf_init (replicate 16 0) cb 16\<rparr>"

theorem nan_transmit_queues_witness:
  "\<forall>(state :: nan_state) (mem :: nan_memory) dst cb. \<exists>b state'.
     nan_transmit plain_radiotap (\<lambda>_. 0) (sample_state state cb) (mem\<lparr>mm_services := sample_services\<rparr>) dst 7 0 (Some [1, 2]) 2
       = Some (0, state', mem\<lparr>mm_services := sample_services, mm_frames := snd (store_alloc b (mm_frames mem))\<rparr>)
     \<and> cbuf_contents (st_buffer state') = [brk (mm_frames mem)]"
proof (intro allI)
  fix state :: nan_state and mem :: nan_memory and dst :: ether_addr and cb :: circular_buf
  let ?s = "sample_state state cb" and ?m = "mem\<lparr>mm_services := sample_services\<rparr>"
  have q: "cbuf_inv (st_buffer ?s)" "cbuf_contents (st_buffer ?s) = []"
    using circular_buf_init_inv [of 16 "replicate 16 0" cb] by (simp_all add: sample_state_def)
  have cap: "cb_capacity (st_buffer ?s) = 16" by (simp add: sample_state_def circular_buf_init_def circular_buf_reset_def)
  have nf: "\<not> circular_buf_full (st_buffer ?s)"
    using q cap cbuf_full_iff [OF q(1)] length_cbuf_contents [of "st_buffer ?s"] by simp
  have p: "nan_get_service_by_instance_id (st_services ?s) (mm_services ?m) 7 None = Some 5" "(5 :: ptr) \<noteq> NULL"
    "cells (mm_services ?m) 5 = Some sample_service"
    by (simp_all add: sample_state_def sample_services_def nan_get_service_by_instance_id_def find_service_def
        LIST_FIND_def sample_service_def)
  have l: "length (follow_up_frame plain_radiotap ?s dst sample_service 0 (Some [1, 2]) 2) \<le> 65535"
    by (simp add: follow_up_frame_def length_with_fcs service_discovery_header_def length_radiotap_bytes
        length_attribute_bytes_eq sda_body_def sample_service_def small_info_def)
  have v: "length (sv_service_id sample_service) = NAN_SERVICE_ID_LENGTH" "info_fits (Some [1, 2]) 2"
    by (simp_all add: sample_service_def info_fits_def)
  from nan_transmit_queues [OF plain_radiotap_layout l v p q(1), of "\<lambda>_. 0"] nf q(2)
  show "\<exists>b state'.
     nan_transmit plain_radiotap (\<lambda>_. 0) ?s ?m dst 7 0 (Some [1, 2]) 2
       = Some (0, state', mem\<lparr>mm_services := sample_services, mm_frames := snd (store_alloc b (mm_frames mem))\<rparr>)
     \<and> cbuf_contents (st_buffer state') = [brk (mm_frames mem)]"
    by auto
qed

lemma overflow_steps:
  assumes "wf_buf b" "nat (bend b) = length (bdata b)"
  shows "room b = 0 \<Longrightarrow> put_struct (unat (bcurrent b)) [x] b = None"
    and "0 < room b \<Longrightarrow> \<exists>b'. put_struct (unat (bcurrent b)) [x] b = Some b' \<and> wf_buf b'
      \<and> nat (bend b') = length (bdata b') \<and> room b' = room b \<and> bcurrent b' = bcurrent b"
    and "\<exists>n b'. write_u8 b x = Some (n, b') \<and> wf_buf b' \<and> nat (bend b') = length (bdata b') \<and> room b' = room b - 1"
proof -
  have c: "unat (bcurrent b) + room b = length (bdata b)"
    using assms by (simp add: room_def wf_buf_def)
  show "room b = 0 \<Longrightarrow> put_struct (unat (bcurrent b)) [x] b = None"
    using c by (simp add: put_struct_def mem_store_def)
  show "0 < room b \<Longrightarrow> \<exists>b'. put_struct (unat (bcurrent b)) [x] b = Some b' \<and> wf_buf b'
      \<and> nat (bend b') = length (bdata b') \<and> room b' = room b \<and> bcurrent b' = bcurrent b"
    using put_struct_wf [OF assms(1), of "unat (bcurrent b)" "[x]"] assms(2) c by auto
  show "\<exists>n b'. write_u8 b x = Some (n, b') \<and> wf_buf b' \<and> nat (bend b') = length (bdata b') \<and> room b' = room b - 1"
    using put_bytes_wf [OF assms(1), of "[x]"] assms
    by (cases "room b = 0") (auto simp: write_u8_def write_macro_def wf_buf_rest [OF assms(1)])
qed

text \<open>
  C40: With less than three bytes left in a buffer, adding a service descriptor stores outside
  its memory: the structures are stored before any check of the room.
\<close>

theorem service_descriptor_overflow:
  assumes "wf_buf b" "nat (bend b) = length (bdata b)" "room b < 3" "length (sv_service_id v) = NAN_SERVICE_ID_LENGTH"
  shows "nan_add_service_descriptor_attribute b v t r info n = None"
proof (cases "room b = 0")
  case True
  then show ?thesis
    using overflow_steps(1) [OF assms(1,2)]
    by (simp add: nan_add_service_descriptor_attribute_def begin_attribute_def buf_current_def Let_def)
next
  case False
  then obtain b1 where 1: "put_struct (unat (bcurrent b)) [attribute_type_val SERVICE_DESCRIPTOR_ATTRIBUTE] b = Some b1"
    "wf_buf b1" "nat (bend b1) = length (bdata b1)" "room b1 = room b"
    using overflow_steps(2) [OF assms(1,2)] by blast
  have bg: "begin_attribute SERVICE_DESCRIPTOR_ATTRIBUTE b = Some (failed b1)"
    using 1 assms(3) by (simp add: begin_attribute_def buf_current_def buf_advance_wf)
  have bytes: "write_bytes (failed b1) (sv_service_id v) (of_nat NAN_SERVICE_ID_LENGTH) = Some (- 1, failed (failed b1))"
    using 1 assms(3) by (simp add: write_bytes_def c_int_id wf_buf_rest)
  obtain n2 b2 where 2: "write_u8 (failed (failed b1)) (sv_instance_id v) = Some (n2, b2)" "wf_buf b2"
    "nat (bend b2) = length (bdata b2)" "room b2 = room b - 1"
    using overflow_steps(3) [of "failed (failed b1)" "sv_instance_id v"] 1 by auto
  obtain n3 b3 where 3: "write_u8 b2 r = Some (n3, b3)" "wf_buf b3" "nat (bend b3) = length (bdata b3)" "room b3 = 0"
    using overflow_steps(3) [OF 2(2,3), of r] 2(4) assms(3) by auto
  have adv: "buf_advance b3 1 = (- 1, failed b3)" using 3 by (simp add: buf_advance_wf)
  have "put_struct (unat (bcurrent b3)) [x] (failed b3) = None" for x
    using overflow_steps(1) [of "failed b3" x] 3 by simp
  then show ?thesis
    by (simp add: nan_add_service_descriptor_attribute_def Let_def bg bytes [simplified] 2(1) [simplified] 3(1) adv
        buf_current_def)
qed

theorem service_descriptor_overflow_witness:
  "\<forall>info. nan_add_service_descriptor_attribute (buf_new_owned (\<lambda>_. 0) 2) sample_service CONTROL_TYPE_PUBLISH 0 info 3 = None"
proof
  fix info
  have "wf_buf (buf_new_owned (\<lambda>_. 0) 2)" "nat (bend (buf_new_owned (\<lambda>_. 0) 2)) = length (bdata (buf_new_owned (\<lambda>_. 0) 2))"
    "room (buf_new_owned (\<lambda>_. 0) 2) < 3"
    using buf_new_owned_wf [of 2 "\<lambda>_. 0"] by (simp_all add: buf_new_owned_def c_int_id)
  from service_descriptor_overflow [OF this, of sample_service]
  show "nan_add_service_descriptor_attribute (buf_new_owned (\<lambda>_. 0) 2) sample_service CONTROL_TYPE_PUBLISH 0 info 3 = None"
    by (simp add: sample_service_def)
qed

end
