(* ===== verification/Nan_Cmd_Safety.thy ===== *)
theory Nan_Cmd_Safety
  imports Nan_Cmd Nan_Rx_Frames Nan_Tx_Frames
begin

text \<open>
  The commands and the event listeners keep the device well-formed: what a user may enter, that
  every such input is handled without undefined behaviour, and what is printed for it.
\<close>

section \<open>Tokens\<close>

lemma strtok_length:
  "strtok s d saved = (t, r) \<Longrightarrow> length (case t of None \<Rightarrow> [] | Some t \<Rightarrow> t) + length r
     \<le> length (case s of None \<Rightarrow> saved | Some s \<Rightarrow> s)"
proof -
  assume run: "strtok s d saved = (t, r)"
  define xs where "xs = (case s of None \<Rightarrow> saved | Some s \<Rightarrow> s)"
  define ys where "ys = dropWhile (\<lambda>c. c \<in> set d) xs"
  have "length ys \<le> length xs" by (simp add: ys_def length_dropWhile_le)
  moreover have "length (takeWhile (\<lambda>c. c \<notin> set d) ys) + length (dropWhile (\<lambda>c. c \<notin> set d) ys) = length ys"
    by (metis length_append takeWhile_dropWhile_id)
  ultimately show ?thesis
    using run by (auto simp: strtok_def Let_def simp flip: xs_def ys_def split: if_splits)
qed

text \<open>Cutting a string behind its first token keeps the token.\<close>

lemma dropWhile_cut:
  "dropWhile P (takeWhile P s @ takeWhile (\<lambda>c. \<not> P c) (dropWhile P s)) = takeWhile (\<lambda>c. \<not> P c) (dropWhile P s)"
proof -
  have "dropWhile P (takeWhile (\<lambda>c. \<not> P c) zs) = takeWhile (\<lambda>c. \<not> P c) zs" for zs by (cases zs) auto
  moreover have "\<forall>x \<in> set (takeWhile P s). P x" by (auto dest: set_takeWhileD)
  ultimately show ?thesis by (simp add: dropWhile_append)
qed

lemma takeWhile_eq_Nil_dropWhile: "takeWhile (\<lambda>c. \<not> P c) (dropWhile P s) = [] \<longleftrightarrow> dropWhile P s = []"
  by (induction s) auto

lemma strtok_cut: "fst (strtok (Some (cut_token s d)) d x) = fst (strtok (Some s) d y)"
  by (simp add: strtok_def cut_token_def Let_def takeWhile_idem
      dropWhile_cut [of "\<lambda>c. c \<in> set d"] takeWhile_eq_Nil_dropWhile [of "\<lambda>c. c \<in> set d"])

section \<open>Numbers\<close>

lemma decimal_digits: "\<forall>c \<in> set (decimal n). c_isdigit c"
proof (induction n rule: decimal.induct)
  case (1 n)
  have "c_isdigit (char_of (48 + k :: nat))" if "k < 10" for k
    using that by (simp add: c_isdigit_def)
  then show ?case using 1 by (subst decimal.simps) auto
qed

lemma digits_value_append:
  "\<forall>c \<in> set s. c_isdigit c \<Longrightarrow> c_isdigit d \<Longrightarrow> digits_value (s @ [d]) = 10 * digits_value s + (of_char d - 48)"
  by (simp add: digits_value_def takeWhile_append2 takeWhile_eq_all_conv [THEN iffD2])

lemma digits_value_decimal: "digits_value (decimal n) = int n"
proof (induction n rule: decimal.induct)
  case (1 n)
  have d: "c_isdigit (char_of (48 + k :: nat))" "(of_char (char_of (48 + k :: nat) :: char) :: int) = 48 + int k"
    if "k < 10" for k
  proof -
    have "(of_char (char_of (48 + k :: nat) :: char) :: nat) = 48 + k" using that by simp
    then show "c_isdigit (char_of (48 + k :: nat))" "(of_char (char_of (48 + k :: nat) :: char) :: int) = 48 + int k"
      using that of_nat_of_char [where 'a = int, of "char_of (48 + k :: nat)"] by (simp_all add: c_isdigit_def)
  qed
  show ?case
  proof (cases "n < 10")
    case True
    then show ?thesis using d [of n] by (subst decimal.simps) (simp add: digits_value_def)
  next
    case False
    have m: "n mod 10 < 10" by simp
    have n: "int n = 10 * int (n div 10) + int (n mod 10)" using mult_div_mod_eq [of 10 n] by linarith
    show ?thesis
      using 1 [OF False] False digits_value_append [OF decimal_digits d(1) [OF m], of "n div 10"] d(2) [OF m]
      by (subst decimal.simps) (simp add: n)
  qed
qed

lemma decimal_head: "\<exists>c t. decimal n = c # t \<and> c_isdigit c"
proof -
  have "decimal n \<noteq> []" by (subst decimal.simps) simp
  then show ?thesis using decimal_digits [of n] by (cases "decimal n") auto
qed

text \<open>A printed number is read back.\<close>

lemma atoi_signed_text:
  assumes "- (2 ^ 31) \<le> i" "i < 2 ^ 31"
  shows "atoi (signed_text i) = Some i"
proof -
  have "number_value (decimal n) = int n" for n
  proof -
    obtain c t where c: "decimal n = c # t" "c_isdigit c" using decimal_head by blast
    then have "\<not> c_isspace c" "c \<noteq> CHR ''-''" "c \<noteq> CHR ''+''"
      by (auto simp: c_isdigit_def c_isspace_def)
    then show ?thesis using c digits_value_decimal [of n] by (simp add: number_value_def)
  qed
  moreover have "number_value (CHR ''-'' # decimal n) = - int n" for n
    by (simp add: number_value_def c_isspace_def digits_value_decimal)
  ultimately have "number_value (signed_text i) = i" by (simp add: signed_text_def)
  then show ?thesis using assms by (simp add: atoi_def)
qed

section \<open>Listeners and the queue\<close>

fun without_first :: "('a \<Rightarrow> bool) \<Rightarrow> 'a list \<Rightarrow> 'a list" where
  "without_first P [] = []"
| "without_first P (x # xs) = (if P x then xs else x # without_first P xs)"

lemma without_first_split: "\<forall>u \<in> set us. \<not> P u \<Longrightarrow> P x \<Longrightarrow> without_first P (us @ x # vs) = us @ vs"
  by (induction us) auto

lemma without_first_none: "\<forall>u \<in> set us. \<not> P u \<Longrightarrow> without_first P us = us"
  by (induction us) auto

lemma nan_remove_event_listener_ok:
  assumes ok: "listeners_ok state h"
  shows "\<exists>state'. nan_remove_event_listener state h l = Some state' \<and> listeners_ok state' h
    \<and> listener_items state' h = without_first (\<lambda>it. li_listener it = l) (listener_items state h)"
proof -
  let ?xs = "listeners state" and ?at = "\<lambda>p. the (cells h p)"
  let ?P = "\<lambda>it. li_listener it = l"
  have find: "LIST_FIND (\<lambda>item. do { it \<leftarrow> cells h item; Some (?P it) }) ?xs
      = Some (case find (\<lambda>p. ?P (?at p)) ?xs of None \<Rightarrow> NULL | Some p \<Rightarrow> p)"
    using ok by (intro LIST_FIND_find) (auto simp: listeners_ok_def)
  show ?thesis
  proof (cases "find (\<lambda>p. ?P (?at p)) ?xs")
    case None
    then have "\<forall>u \<in> set (map ?at ?xs). \<not> ?P u" by (simp add: find_None_iff)
    then show ?thesis
      using find None ok by (simp add: nan_remove_event_listener_def LIST_REMOVE_def listener_items_def without_first_none)
  next
    case (Some p)
    from find_split [OF Some] obtain us vs where u: "?xs = us @ p # vs" "?P (?at p)" "\<forall>u \<in> set us. \<not> ?P (?at u)"
      by auto
    have "p \<noteq> 0" using ok u(1) wf_store_NULL [of h] by (auto simp: listeners_ok_def)
    moreover have "remove1 p ?xs = us @ vs" using ok u(1) by (auto simp: listeners_ok_def remove1_append)
    moreover have "listeners_ok (state\<lparr>listeners := us @ vs\<rparr>) h" using ok u(1) by (auto simp: listeners_ok_def)
    moreover have "without_first ?P (listener_items state h) = map ?at us @ map ?at vs"
      using without_first_split [of "map ?at us" ?P "?at p" "map ?at vs"] u by (simp add: listener_items_def)
    ultimately show ?thesis
      using find Some by (simp add: nan_remove_event_listener_def LIST_REMOVE_def listener_items_def)
  qed
qed

text \<open>Removing the first listener with a function leaves what is behind any listener with that function.\<close>

lemma nan_remove_event_listener_rest:
  assumes ok: "listeners_ok state h" and xs: "listeners state = us @ p # vs" and p: "li_listener (the (cells h p)) = l"
    and rm: "nan_remove_event_listener state h l = Some state'"
  shows "\<exists>us'. listeners state' = us' @ vs"
proof -
  let ?P = "\<lambda>p. li_listener (the (cells h p)) = l"
  have find: "LIST_FIND (\<lambda>item. do { it \<leftarrow> cells h item; Some (li_listener it = l) }) (listeners state)
      = Some (case find ?P (listeners state) of None \<Rightarrow> NULL | Some p \<Rightarrow> p)"
    using ok by (intro LIST_FIND_find) (auto simp: listeners_ok_def)
  have "\<exists>q. find ?P (us @ p # vs) = Some q \<and> q \<in> set (us @ [p])"
    using p by (induction us) auto
  then obtain q where q: "find ?P (listeners state) = Some q" "q \<in> set (us @ [p])" by (auto simp: xs)
  have "q \<in> set (listeners state)" using q(2) by (auto simp: xs)
  then have "cells h q \<noteq> None" "cells h 0 = None" using ok wf_store_NULL [of h] by (auto simp: listeners_ok_def)
  then have "q \<noteq> 0" by (intro notI) simp
  then have "listeners state' = remove1 q (listeners state)"
    using rm by (auto simp: nan_remove_event_listener_def LIST_REMOVE_def find q(1))
  moreover have "remove1 q (us @ p # vs) = (if q \<in> set us then remove1 q us @ p # vs else us @ vs)"
    using q(2) by (auto simp: remove1_append)
  ultimately have "listeners state' = (if q \<in> set us then remove1 q us @ [p] else us) @ vs" by (simp add: xs)
  then show ?thesis by blast
qed

lemma queue_ok_put:
  assumes q: "queue_ok cb fh" and b: "wf_buf b" "bstart b = 0"
  shows "\<exists>r cb'. circular_buf_put cb (brk fh) = Some (r, cb') \<and> queue_ok cb' (snd (store_alloc b fh))
    \<and> cbuf_contents cb' = cbuf_contents cb @ (if circular_buf_full cb then [] else [brk fh])"
proof (cases "circular_buf_full cb")
  case True
  then have "circular_buf_put cb (brk fh) = Some (- 1, cb)" by (simp add: circular_buf_put_def)
  moreover have "brk fh \<notin> set (cbuf_contents cb)" using q wf_store_fresh [of fh] by (auto simp: queue_ok_def)
  ultimately show ?thesis using q b True by (auto simp: queue_ok_def store_alloc_def wf_store_def less_Suc_eq)
next
  case False
  from circular_buf_put_spec [OF _ False, of "brk fh"] q obtain cb' where
    "circular_buf_put cb (brk fh) = Some (0, cb')" "cbuf_inv cb'" "cbuf_contents cb' = cbuf_contents cb @ [brk fh]"
    by (auto simp: queue_ok_def)
  moreover have "brk fh \<notin> set (cbuf_contents cb)" using q wf_store_fresh [of fh] by (auto simp: queue_ok_def)
  ultimately show ?thesis using q b False by (auto simp: queue_ok_def store_alloc_def wf_store_def less_Suc_eq)
qed

section \<open>The listeners of the commands\<close>

text \<open>The listeners that commands register: each for its event, with the state.\<close>

definition command_listener :: "nan_event_listeners_item \<Rightarrow> bool" where
  "command_listener it \<longleftrightarrow> li_additional_data it = NAN_STATE
     \<and> (li_event it = EVENT_RECEIVE \<and> li_listener it = HANDLE_EVENT_RECEIVE
        \<or> li_event it = EVENT_DISCOVERY_RESULT \<and> li_listener it = HANDLE_EVENT_DISCOVERY_RESULT)"

abbreviation (input) keeps_known :: "nan_state \<Rightarrow> nan_memory \<Rightarrow> nan_state \<Rightarrow> nan_memory \<Rightarrow> bool" where
  "keeps_known state mem state' mem' \<equiv> all_known command_listener state mem \<longrightarrow> all_known command_listener state' mem'"

text \<open>
  What a listener may do to the list it is called from: what is behind it stays, and only
  listeners for follow-ups are added, at the end, when a discovery result is handled.
\<close>

definition rest_kept :: "ptr \<Rightarrow> nan_state \<Rightarrow> nan_memory \<Rightarrow> nan_state \<Rightarrow> nan_memory \<Rightarrow> bool" where
  "rest_kept l state mem state' mem' \<longleftrightarrow>
     (\<forall>us p vs. listeners (st_events state) = us @ p # vs \<longrightarrow> li_listener (the (cells (mm_listeners mem) p)) = l \<longrightarrow>
        (\<exists>us' ws. listeners (st_events state') = us' @ vs @ ws
           \<and> (\<forall>q \<in> set vs. cells (mm_listeners mem') q = cells (mm_listeners mem) q)
           \<and> (l = HANDLE_EVENT_RECEIVE \<longrightarrow> ws = [])
           \<and> (\<forall>q \<in> set ws. li_event (the (cells (mm_listeners mem') q)) = EVENT_RECEIVE)))"

lemma rest_kept_refl: "rest_kept l state mem state mem"
  unfolding rest_kept_def by (metis append.assoc append_Cons append_Nil append_Nil2 empty_iff empty_set)

lemma set_without_first: "set (without_first P xs) \<subseteq> set xs"
  by (induction xs) auto

lemma removed_known:
  "all_known known state mem \<Longrightarrow>
     listener_items (st_events state') (mm_listeners mem') = without_first P (listener_items (st_events state) (mm_listeners mem)) \<Longrightarrow>
     all_known known state' mem'"
  using set_without_first by (fastforce simp: all_known_def)

text \<open>The lookup of a service finds one that is registered.\<close>

lemma lookup_service:
  assumes ok: "services_ok state h"
  shows "\<exists>p. find_service c state h type = Some p
    \<and> (p \<noteq> 0 \<longrightarrow> p \<in> set (published_services state) \<union> set (subscribed_services state)
        \<and> cells h p = Some (service_at h p) \<and> c (service_at h p)
        \<and> (type = Some SUBSCRIBED \<longrightarrow> find_service c state h None = Some p))"
proof -
  have live: "p \<in> set (published_services state) \<union> set (subscribed_services state)
      \<and> cells h p = Some (service_at h p) \<and> c (service_at h p)"
    if "first_of c h ps = p" "p \<noteq> 0" "set ps \<subseteq> set (published_services state) \<union> set (subscribed_services state)" for p ps
    using first_of_found [OF that(1,2)] that(3) services_ok_live [OF ok, of p] by auto
  show ?thesis
  proof (cases type)
    case None
    then show ?thesis using live [OF refl] by (auto simp: find_service_ok [OF ok])
  next
    case (Some t)
    then show ?thesis using live [OF refl] by (cases t) (auto simp: find_service_ok [OF ok])
  qed
qed

text \<open>Data of an event that the listener can write to the log.\<close>

definition loggable :: "log_state \<Rightarrow> nan_event_data \<Rightarrow> bool" where
  "loggable L data \<longleftrightarrow> (case data of Receive d \<Rightarrow> received_text L d \<noteq> None | Discovery_Result _ \<Rightarrow> True)"

lemma loggable_quiet: "lg_level L < LOG_DEBUG \<Longrightarrow> loggable L data"
  by (simp add: loggable_def received_text_def split: nan_event_data.split)

lemma loggable_fits:
  "unat (er_service_specific_info_length d) \<le> length (er_service_specific_info d) \<Longrightarrow>
     unat (er_service_specific_info_length d) < 2 ^ 31 \<Longrightarrow> loggable L (Receive d)"
  by (simp add: loggable_def received_text_def limited_text_fits)

lemma handle_event_receive_run:
  assumes ok: "device_ok state mem" and log: "loggable L (Receive data)"
  shows "\<exists>state' mem'. handle_event_receive L state mem data = Some (state', mem') \<and> device_ok state' mem'
    \<and> st_peers state' = st_peers state \<and> mm_peers mem' = mm_peers mem \<and> keeps_known state mem state' mem'
    \<and> rest_kept HANDLE_EVENT_RECEIVE state mem state' mem'"
proof -
  let ?ss = "st_services state" and ?h = "mm_services mem"
  have sok: "services_ok ?ss ?h" and lok: "listeners_ok (st_events state) (mm_listeners mem)"
    using ok by (simp_all add: device_defs)
  from lookup_service [OF sok, of "\<lambda>v. sv_instance_id v = er_instance_id data" None] obtain p where
    p: "nan_get_service_by_instance_id ?ss ?h (er_instance_id data) None = Some p"
      "p \<noteq> 0 \<longrightarrow> cells ?h p = Some (service_at ?h p)" by (auto simp: nan_get_service_by_instance_id_def)
  show ?thesis
  proof (cases "p = 0")
    case True
    then show ?thesis using p ok rest_kept_refl by (simp add: handle_event_receive_def)
  next
    case False
    obtain message where message: "received_text L data = Some message" using log by (auto simp: loggable_def)
    from nan_cancel_publish_ok [OF sok] nan_cancel_subscribe_ok [OF sok] obtain r ss sh where
      cancel: "(if sv_type (service_at ?h p) = PUBLISHED
          then nan_cancel_publish ?ss ?h (sv_instance_id (service_at ?h p))
          else nan_cancel_subscribe ?ss ?h (sv_instance_id (service_at ?h p))) = Some (r, ss, sh)" "services_ok ss sh"
      by (cases "sv_type (service_at ?h p) = PUBLISHED") (auto, blast+)
    from nan_remove_event_listener_ok [OF lok, of HANDLE_EVENT_RECEIVE] obtain es where
      es: "nan_remove_event_listener (st_events state) (mm_listeners mem) HANDLE_EVENT_RECEIVE = Some es"
        "listeners_ok es (mm_listeners mem)"
        "listener_items es (mm_listeners mem) = without_first (\<lambda>it. li_listener it = HANDLE_EVENT_RECEIVE)
          (listener_items (st_events state) (mm_listeners mem))" by blast
    let ?state' = "state\<lparr>st_services := ss, st_events := es\<rparr>" and ?mem' = "mem\<lparr>mm_services := sh\<rparr>"
    have "keeps_known state mem ?state' ?mem'" using removed_known [of _ state mem ?state' ?mem'] es(3) by simp
    moreover have "rest_kept HANDLE_EVENT_RECEIVE state mem ?state' ?mem'"
      using nan_remove_event_listener_rest [OF lok _ _ es(1)] unfolding rest_kept_def by fastforce
    ultimately show ?thesis
      using p False message cancel ok es(1,2) unfolding handle_event_receive_def by (simp add: device_defs)
  qed
qed

text \<open>The answer to a discovery result, a follow-up of 12 characters, always fits into a frame.\<close>

lemma length_follow_up:
  "length (sv_service_id v) = 6 \<Longrightarrow>
     length (follow_up_frame rt state dst v r (Some (octets ''Hello world!'')) 12) \<le> 80"
  by (simp add: follow_up_frame_def with_fcs_def service_discovery_header_def attribute_bytes_def sda_body_def
      small_info_def length_radiotap_bytes octets_def)

text \<open>What the answer leaves behind: the frame, the queue and the listeners.\<close>

definition greeting_frame :: "'it radiotap_lib \<Rightarrow> nan_state \<Rightarrow> nan_event_discovery_result \<Rightarrow> nan_service \<Rightarrow> u8 list" where
  "greeting_frame rt state data v =
     follow_up_frame rt state (dr_address data) v (dr_publish_id data) (Some (octets ''Hello world!'')) 12"

definition answered ::
  "'it radiotap_lib \<Rightarrow> nan_state \<Rightarrow> nan_memory \<Rightarrow> nan_event_discovery_result \<Rightarrow> nan_service
   \<Rightarrow> nan_state \<Rightarrow> nan_memory \<Rightarrow> bool" where
  "answered rt state mem data v state' mem' \<longleftrightarrow>
     map_option written (cells (mm_frames mem') (brk (mm_frames mem))) = Some (greeting_frame rt state data v)
     \<and> cbuf_contents (st_buffer state') = cbuf_contents (st_buffer state)
         @ (if circular_buf_full (st_buffer state) then [] else [brk (mm_frames mem)])
     \<and> listener_items (st_events state') (mm_listeners mem')
         = without_first (\<lambda>it. li_listener it = HANDLE_EVENT_DISCOVERY_RESULT)
             (listener_items (st_events state) (mm_listeners mem))
           @ [\<lparr>li_event = EVENT_RECEIVE, li_service_name = Some (sv_service_name v),
               li_listener = HANDLE_EVENT_RECEIVE, li_additional_data = NAN_STATE\<rparr>]"

lemma handle_event_discovery_result_cases:
  assumes rt: "radiotap_layout rt" and ok: "device_ok state mem"
  shows "\<exists>state' mem'. handle_event_discovery_result rt junk state mem data = Some (state', mem')
    \<and> device_ok state' mem' \<and> st_peers state' = st_peers state \<and> mm_peers mem' = mm_peers mem
    \<and> keeps_known state mem state' mem' \<and> rest_kept HANDLE_EVENT_DISCOVERY_RESULT state mem state' mem'
    \<and> (case find (\<lambda>v. sv_instance_id v = dr_subscribe_id data) (subscribed (st_services state) (mm_services mem)) of
        None \<Rightarrow> state' = state \<and> mem' = mem
      | Some v \<Rightarrow> answered rt state mem data v state' mem')"
proof -
  let ?ss = "st_services state" and ?h = "mm_services mem" and ?info = "Some (octets ''Hello world!'')"
  let ?c = "\<lambda>v. sv_instance_id v = dr_subscribe_id data"
  have sok: "services_ok ?ss ?h" and lok: "listeners_ok (st_events state) (mm_listeners mem)"
    and q: "queue_ok (st_buffer state) (mm_frames mem)" using ok by (simp_all add: device_defs)
  define p where "p = first_of ?c ?h (subscribed_services ?ss)"
  have get: "nan_get_service_by_instance_id ?ss ?h (dr_subscribe_id data) (Some SUBSCRIBED) = Some p"
    by (simp add: nan_get_service_by_instance_id_def p_def find_service_ok [OF sok])
  note view = first_of_view [OF sok, of "subscribed_services ?ss" ?c, simplified, folded p_def subscribed_def]
  show ?thesis
  proof (cases "find ?c (subscribed ?ss ?h)")
    case None
    then have "p = 0" by (rule view(1))
    then show ?thesis using None get ok rest_kept_refl by (simp add: handle_event_discovery_result_def)
  next
    case (Some v)
    from view(2) [OF Some] have p: "p \<noteq> 0" "p \<in> set (subscribed_services ?ss)" "service_at ?h p = v" by auto
    have v: "cells ?h p = Some v" "length (sv_service_id v) = 6"
        "nan_get_service_by_instance_id ?ss ?h (dr_subscribe_id data) None = Some p"
      using p services_ok_live [OF sok, of p] services_ok_sendable [OF sok, of p] find_service_ok(3) [OF sok, of ?c]
      by (auto simp: service_sendable_def nan_get_service_by_instance_id_def p_def)
    let ?f = "greeting_frame rt state data v"
    have "length ?f \<le> 65535"
      using length_follow_up [OF v(2), of rt state "dr_address data" "dr_publish_id data"]
      unfolding greeting_frame_def by linarith
    from nan_transmit_ok [OF rt this [unfolded greeting_frame_def] v(2) _ v(3) p(1) v(1), of junk] obtain b where
      b: "filled b ?f (65535 - length ?f)"
        "nan_transmit rt junk state mem (dr_address data) (dr_subscribe_id data) (dr_publish_id data) ?info 12 =
          (case circular_buf_put (st_buffer state) (brk (mm_frames mem)) of None \<Rightarrow> None
           | Some (res, cb) \<Rightarrow> Some (if res < 0 then - 1 else 0, (sent state)\<lparr>st_buffer := cb\<rparr>,
               mem\<lparr>mm_frames := snd (store_alloc b (mm_frames mem))\<rparr>))"
      by (auto simp: info_fits_def octets_def greeting_frame_def)
    from queue_ok_put [OF q, of b] b(1) obtain r cb where
      put: "circular_buf_put (st_buffer state) (brk (mm_frames mem)) = Some (r, cb)"
        "queue_ok cb (snd (store_alloc b (mm_frames mem)))"
        "cbuf_contents cb = cbuf_contents (st_buffer state)
          @ (if circular_buf_full (st_buffer state) then [] else [brk (mm_frames mem)])"
      unfolding filled_def by blast
    from nan_remove_event_listener_ok [OF lok, of HANDLE_EVENT_DISCOVERY_RESULT] obtain es where
      es: "nan_remove_event_listener (st_events state) (mm_listeners mem) HANDLE_EVENT_DISCOVERY_RESULT = Some es"
        "listeners_ok es (mm_listeners mem)"
        "listener_items es (mm_listeners mem) = without_first (\<lambda>it. li_listener it = HANDLE_EVENT_DISCOVERY_RESULT)
          (listener_items (st_events state) (mm_listeners mem))" by blast
    obtain es' lh where add: "nan_add_event_listener es (mm_listeners mem) EVENT_RECEIVE (Some (sv_service_name v))
        HANDLE_EVENT_RECEIVE NAN_STATE = (es', lh)" by fastforce
    note lok' = nan_add_event_listener_ok [OF es(2) add]
    have run: "handle_event_discovery_result rt junk state mem data
        = Some ((sent state)\<lparr>st_buffer := cb, st_events := es'\<rparr>,
            mem\<lparr>mm_frames := snd (store_alloc b (mm_frames mem)), mm_listeners := lh\<rparr>)"
      unfolding handle_event_discovery_result_def using p(1) v(1) by (simp add: get b(2) put(1) es(1) add del: One_nat_def)
    have "map_option written (cells (snd (store_alloc b (mm_frames mem))) (brk (mm_frames mem))) = Some ?f"
      using b(1) by (simp add: store_alloc_def filled_def)
    then have "answered rt state mem data v ((sent state)\<lparr>st_buffer := cb, st_events := es'\<rparr>)
        (mem\<lparr>mm_frames := snd (store_alloc b (mm_frames mem)), mm_listeners := lh\<rparr>)"
      using put(3) lok' es(3) by (simp add: answered_def)
    moreover have "device_ok ((sent state)\<lparr>st_buffer := cb, st_events := es'\<rparr>)
        (mem\<lparr>mm_frames := snd (store_alloc b (mm_frames mem)), mm_listeners := lh\<rparr>)"
      using ok put(2) lok' by (simp add: device_defs)
    moreover have "keeps_known state mem ((sent state)\<lparr>st_buffer := cb, st_events := es'\<rparr>)
        (mem\<lparr>mm_frames := snd (store_alloc b (mm_frames mem)), mm_listeners := lh\<rparr>)"
      using lok' es(3) set_without_first by (fastforce simp: all_known_def command_listener_def)
    moreover have "rest_kept HANDLE_EVENT_DISCOVERY_RESULT state mem ((sent state)\<lparr>st_buffer := cb, st_events := es'\<rparr>)
        (mem\<lparr>mm_frames := snd (store_alloc b (mm_frames mem)), mm_listeners := lh\<rparr>)"
      unfolding rest_kept_def
    proof (intro allI impI)
      fix us p vs
      assume xs: "listeners (st_events state) = us @ p # vs"
        and p: "li_listener (the (cells (mm_listeners mem) p)) = HANDLE_EVENT_DISCOVERY_RESULT"
      from nan_remove_event_listener_rest [OF lok xs p es(1)] obtain us' where us': "listeners es = us' @ vs" by blast
      have "listeners es' = us' @ vs @ [brk (mm_listeners mem)]"
        and cells: "cells lh = (cells (mm_listeners mem))(brk (mm_listeners mem) \<mapsto> \<lparr>li_event = EVENT_RECEIVE,
          li_service_name = Some (sv_service_name v), li_listener = HANDLE_EVENT_RECEIVE, li_additional_data = NAN_STATE\<rparr>)"
        using add us' by (auto simp: nan_add_event_listener_def store_alloc_def)
      moreover have "brk (mm_listeners mem) \<notin> set vs"
      proof
        assume "brk (mm_listeners mem) \<in> set vs"
        then have "cells (mm_listeners mem) (brk (mm_listeners mem)) \<noteq> None" using lok by (simp add: listeners_ok_def xs)
        then show False using lok wf_store_fresh [of "mm_listeners mem"] by (simp add: listeners_ok_def)
      qed
      ultimately show "\<exists>us' ws. listeners (st_events ((sent state)\<lparr>st_buffer := cb, st_events := es'\<rparr>)) = us' @ vs @ ws
          \<and> (\<forall>q \<in> set vs. cells (mm_listeners (mem\<lparr>mm_frames := snd (store_alloc b (mm_frames mem)), mm_listeners := lh\<rparr>)) q
              = cells (mm_listeners mem) q)
          \<and> (HANDLE_EVENT_DISCOVERY_RESULT = HANDLE_EVENT_RECEIVE \<longrightarrow> ws = [])
          \<and> (\<forall>q \<in> set ws. li_event (the (cells (mm_listeners
              (mem\<lparr>mm_frames := snd (store_alloc b (mm_frames mem)), mm_listeners := lh\<rparr>)) q)) = EVENT_RECEIVE)"
        by (intro exI [of _ us'] exI [of _ "[brk (mm_listeners mem)]"]) (auto simp: cells)
    qed
    ultimately show ?thesis unfolding Some option.case using run
      by (intro exI conjI) (rule run, assumption, simp, simp, assumption+)
  qed
qed

lemma handle_event_discovery_result_run:
  "radiotap_layout rt \<Longrightarrow> device_ok state mem \<Longrightarrow>
     \<exists>state' mem'. handle_event_discovery_result rt junk state mem data = Some (state', mem')
       \<and> device_ok state' mem' \<and> st_peers state' = st_peers state \<and> mm_peers mem' = mm_peers mem
       \<and> keeps_known state mem state' mem' \<and> rest_kept HANDLE_EVENT_DISCOVERY_RESULT state mem state' mem'"
  using handle_event_discovery_result_cases by blast

text \<open>
  They are what the reception relies on, at a level without debugging messages; at any level
  with calls whose data can be written.
\<close>

lemma call_listener_run:
  assumes rt: "radiotap_layout rt" and call: "call_known command_listener (l, e, data, d)" and log: "loggable L data"
    and ok: "device_ok state mem" and kn: "all_known command_listener state mem"
  shows "\<exists>state' mem'. call_listener rt frame_junk L (l, e, data, d) state mem = Some (state', mem') \<and> device_ok state' mem'
      \<and> all_known command_listener state' mem' \<and> st_peers state' = st_peers state \<and> mm_peers mem' = mm_peers mem"
proof (cases data)
  case (Receive r)
  then have "d = NAN_STATE" "l = HANDLE_EVENT_RECEIVE"
    using call by (auto simp: call_known_def event_data_fits_def command_listener_def)
  with Receive handle_event_receive_run [OF ok, of L r] log kn show ?thesis by (auto simp: call_listener_def)
next
  case (Discovery_Result r)
  then have "d = NAN_STATE" "l = HANDLE_EVENT_DISCOVERY_RESULT"
    using call by (auto simp: call_known_def event_data_fits_def command_listener_def)
  with Discovery_Result handle_event_discovery_result_run [OF rt ok, of "frame_junk (brk (mm_frames mem))" r] kn
  show ?thesis by (auto simp: call_listener_def)
qed

lemma call_listener_ok:
  assumes "radiotap_layout rt" "lg_level L < LOG_DEBUG"
  shows "listen_ok (call_listener rt frame_junk L) command_listener"
  unfolding listen_ok_def using call_listener_run [OF assms(1)] loggable_quiet [OF assms(2)]
  by (intro allI impI, case_tac call) blast

lemma call_listeners_loggable:
  assumes rt: "radiotap_layout rt"
  shows "\<forall>c \<in> set calls. call_known command_listener c \<and> loggable L (fst (snd (snd c))) \<Longrightarrow> device_ok state mem \<Longrightarrow>
    all_known command_listener state mem \<Longrightarrow>
    \<exists>state' mem'. call_listeners (call_listener rt frame_junk L) calls state mem = Some (state', mem')"
proof (induction calls arbitrary: state mem)
  case (Cons c calls)
  obtain l e data d where c: "c = (l, e, data, d)" by (cases c) auto
  from Cons.prems(1) have "call_known command_listener (l, e, data, d)" "loggable L data" by (simp_all add: c)
  from call_listener_run [OF rt this Cons.prems(2,3)] obtain s m where
    1: "call_listener rt frame_junk L c state mem = Some (s, m)" "device_ok s m" "all_known command_listener s m"
    unfolding c by blast
  with Cons.IH [OF _ 1(2,3)] Cons.prems(1) show ?case by simp
qed simp

section \<open>Publishing, subscribing and setting values\<close>

definition first_word :: "string option \<Rightarrow> string option" where
  "first_word args = fst (strtok args '' '' [])"

definition second_word :: "string option \<Rightarrow> string option" where
  "second_word args = fst (strtok None '' '' (snd (strtok args '' '' [])))"

abbreviation (input) arg_length :: "string option \<Rightarrow> nat" where
  "arg_length args \<equiv> length (case args of None \<Rightarrow> [] | Some s \<Rightarrow> s)"

lemma word_length: "arg_length (first_word args) \<le> arg_length args" "arg_length (second_word args) \<le> arg_length args"
proof -
  obtain t r where t: "strtok args '' '' [] = (t, r)" by fastforce
  obtain u w where u: "strtok None '' '' r = (u, w)" by fastforce
  from strtok_length [OF t] show "arg_length (first_word args) \<le> arg_length args"
    by (simp add: first_word_def t)
  from strtok_length [OF t] strtok_length [OF u] show "arg_length (second_word args) \<le> arg_length args"
    by (simp add: second_word_def t u)
qed

text \<open>A new service and a listener for it.\<close>

lemma device_ok_registered:
  assumes ok: "device_ok state mem" and s: "services_ok ss sh"
    and l: "nan_add_event_listener (st_events state) (mm_listeners mem) e n f d = (es, lh)"
    and k: "command_listener \<lparr>li_event = e, li_service_name = n, li_listener = f, li_additional_data = d\<rparr>"
  shows "device_ok (state\<lparr>st_services := ss, st_events := es\<rparr>) (mem\<lparr>mm_services := sh, mm_listeners := lh\<rparr>)"
    and "keeps_known state mem (state\<lparr>st_services := ss, st_events := es\<rparr>) (mem\<lparr>mm_services := sh, mm_listeners := lh\<rparr>)"
  using nan_add_event_listener_ok [OF _ l] ok s k by (simp_all add: device_defs all_known_def)

lemma command_registers:
  "command_listener \<lparr>li_event = EVENT_RECEIVE, li_service_name = n, li_listener = HANDLE_EVENT_RECEIVE,
     li_additional_data = NAN_STATE\<rparr>"
  "command_listener \<lparr>li_event = EVENT_DISCOVERY_RESULT, li_service_name = n,
     li_listener = HANDLE_EVENT_DISCOVERY_RESULT, li_additional_data = NAN_STATE\<rparr>"
  by (simp_all add: command_listener_def)

text \<open>A first word that is there, and that \<^verbatim>\<open>tolower\<close> can read.\<close>

definition name_ok :: "string option \<Rightarrow> bool" where
  "name_ok args \<longleftrightarrow> (case first_word args of None \<Rightarrow> False | Some name \<Rightarrow> list_all tolower_ok name)"

lemma publish_run:
  assumes ok: "device_ok state mem" and sj: "length (sha_buf sj) = 64"
    and name: "name_ok args" and len: "arg_length args < 2 ^ 31"
  shows "\<exists>state' mem'. nan_cmd_publish_service junk sj state mem args = Some (state', mem') \<and> device_ok state' mem'
    \<and> st_peers state' = st_peers state \<and> keeps_known state mem state' mem'"
proof -
  obtain name saved where n: "strtok args '' '' [] = (Some name, saved)"
    using name by (cases "strtok args '' '' []") (auto simp: name_ok_def first_word_def split: option.splits)
  then have ascii: "list_all tolower_ok name" using name by (simp add: name_ok_def first_word_def)
  obtain info saved2 where i: "strtok None '' '' saved = (info, saved2)" by fastforce
  define data where "data = (case info of Some s \<Rightarrow> s | None \<Rightarrow> [])"
  have sok: "services_ok (st_services state) (mm_services mem)" using ok by (simp add: device_defs)
  have "length name < 2 ^ 61" using strtok_length [OF n] len by simp
  moreover have "info_fits (Some (octets data)) (of_nat (length data))"
    by (simp add: info_fits_def octets_def unat_of_nat)
  moreover have "unat (of_nat (length data) :: size_t) < 2 ^ 31"
    using strtok_length [OF n] strtok_length [OF i] len by (simp add: data_def c_simps)
  ultimately obtain i ss sh where pub: "nan_publish junk sj (st_services state) (mm_services mem) name PUBLISH_BOTH (- 1)
      (Some (octets data)) (of_nat (length data)) = Some (i, ss, sh)" "services_ok ss sh"
    using publish_subscribe_ok [OF sok _ ascii sj] unfolding Let_def by blast
  obtain p where look: "nan_get_service_by_name (st_services state) (mm_services mem) name None = Some p"
    using lookup_service [OF sok] by (auto simp: nan_get_service_by_name_def)
  obtain es lh where l: "nan_add_event_listener (st_events state) (mm_listeners mem) EVENT_RECEIVE (Some name)
      HANDLE_EVENT_RECEIVE NAN_STATE = (es, lh)" by fastforce
  show ?thesis
    using ok device_ok_registered [OF ok pub(2) l command_registers(1)] look pub(1) l
    by (cases "p = 0") (simp_all add: nan_cmd_publish_service_def n i flip: data_def)
qed

lemma subscribe_run:
  assumes ok: "device_ok state mem" and sj: "length (sha_buf sj) = 64"
    and name: "name_ok args" and len: "arg_length args < 2 ^ 31" and args: "args \<noteq> None"
  shows "\<exists>state' mem'. nan_cmd_subscribe_service junk sj state mem args = Some (state', mem') \<and> device_ok state' mem'
    \<and> st_peers state' = st_peers state \<and> keeps_known state mem state' mem'"
proof -
  obtain name saved where n: "strtok args '' '' [] = (Some name, saved)"
    using name by (cases "strtok args '' '' []") (auto simp: name_ok_def first_word_def split: option.splits)
  then have ascii: "list_all tolower_ok name" using name by (simp add: name_ok_def first_word_def)
  obtain a where a: "args = Some a" using args by blast
  have sok: "services_ok (st_services state) (mm_services mem)" using ok by (simp add: device_defs)
  have "length name < 2 ^ 61" using strtok_length [OF n] len by simp
  moreover have "info_fits None 0" "unat (0 :: size_t) < 2 ^ 31" by (simp_all add: info_fits_def)
  ultimately obtain i ss sh where sub: "nan_subscribe junk sj (st_services state) (mm_services mem) name
      SUBSCRIBE_PASSIVE (- 1) None 0 = Some (i, ss, sh)" "services_ok ss sh"
    using publish_subscribe_ok [OF sok _ ascii sj] unfolding Let_def by blast
  obtain p where look: "nan_get_service_by_name (st_services state) (mm_services mem) (cut_token a '' '') None = Some p"
    using lookup_service [OF sok] by (auto simp: nan_get_service_by_name_def)
  obtain es lh where l: "nan_add_event_listener (st_events state) (mm_listeners mem) EVENT_DISCOVERY_RESULT (Some name)
      HANDLE_EVENT_DISCOVERY_RESULT NAN_STATE = (es, lh)" by fastforce
  show ?thesis
    using ok device_ok_registered [OF ok sub(2) l command_registers(2)] look sub(1) l n
    by (cases "p = 0") (simp_all add: nan_cmd_subscribe_service_def a)
qed

definition value_ok :: "string option \<Rightarrow> bool" where
  "value_ok args \<longleftrightarrow> (case second_word args of None \<Rightarrow> True | Some v \<Rightarrow> atoi v \<noteq> None)"

lemma validate_run: "atoi v = Some n \<Longrightarrow> validate_number_range v mn mx \<noteq> None"
  by (auto simp: validate_number_range_def validate_number_def)

lemma device_ok_rank:
  assumes "device_ok state mem" "sy_master_rank s = sy_master_rank (st_sync state)"
    "sy_anchor_master_rank s = sy_anchor_master_rank (st_sync state)"
  shows "device_ok (state\<lparr>st_sync := snd (nan_update_master_rank s a)\<rparr>) mem"
proof -
  have "sy_master_rank s \<le> sy_anchor_master_rank s" using assms by (simp add: device_defs sync_inv_def)
  from update_rank_inv [OF this, of a] assms(1) show ?thesis by (simp add: device_defs)
qed

lemma set_value_run:
  assumes ok: "device_ok state mem" and v: "value_ok args"
  shows "\<exists>state'. nan_cmd_set_value state args = Some state' \<and> device_ok state' mem \<and> st_peers state' = st_peers state
    \<and> st_events state' = st_events state"
proof -
  obtain target saved where t: "strtok args '' '' [] = (target, saved)" by fastforce
  obtain val saved2 where w: "strtok None '' '' saved = (val, saved2)" by fastforce
  show ?thesis
  proof (cases "target = None \<or> val = None")
    case True
    then show ?thesis using ok by (cases target; cases val) (simp_all add: nan_cmd_set_value_def t w)
  next
    case False
    then obtain f x where fx: "target = Some f" "val = Some x" by auto
    then obtain n where n: "atoi x = Some n" using v by (auto simp: value_ok_def second_word_def t w)
    from validate_run [OF n, of 0 255] obtain b where b: "validate_number_range x 0 255 = Some b" by auto
    have "device_ok (state\<lparr>st_sync := snd (nan_update_master_rank ((st_sync state)\<lparr>sy_random_factor := m\<rparr>) a)\<rparr>) mem"
      and "device_ok (state\<lparr>st_sync := snd (nan_update_master_rank ((st_sync state)\<lparr>sy_master_preference := m\<rparr>) a)\<rparr>) mem"
      for a m by (intro device_ok_rank [OF ok]; simp)+
    then show ?thesis
      using ok unfolding nan_cmd_set_value_def t w Let_def prod.case fx option.case by (simp add: b n)
  qed
qed

section \<open>Peers\<close>

lemma device_ok_peers:
  "device_ok state mem \<Longrightarrow> peers_ok ps ph \<Longrightarrow> averages_ok ps ph \<Longrightarrow>
     device_ok (state\<lparr>st_peers := ps\<rparr>) (mem\<lparr>mm_peers := ph\<rparr>)"
  by (simp add: device_defs)

text \<open>Arguments of a peer command: those of \<^verbatim>\<open>set\<close> are not only blanks.\<close>

definition peer_args_ok :: "string option \<Rightarrow> bool" where
  "peer_args_ok args \<longleftrightarrow>
     (let (peer_address_arg, saved) = strtok args '' '' [];
          (cmd, saved) = strtok None '' '' saved;
          (cmd_args, saved) = strtok None [] saved
      in cmd = Some ''set'' \<longrightarrow> cmd_args \<noteq> None \<longrightarrow> first_word cmd_args \<noteq> None)"

lemma peer_run:
  assumes ok: "device_ok state mem" and args: "peer_args_ok args" and cb: "peer_remove_callback (st_peers state) \<noteq> NULL"
  shows "\<exists>state' mem' calls. nan_cmd_peer L state mem args = Some (state', mem', calls) \<and> device_ok state' mem'
    \<and> peer_config (st_peers state') = peer_config (st_peers state) \<and> keeps_known state mem state' mem'
    \<and> (\<exists>ps. set ps \<subseteq> set (peers (st_peers state)) \<and> calls =
        map (\<lambda>p. (peer_remove_callback (st_peers state), p, peer_remove_callback_data (st_peers state))) ps)"
proof -
  let ?ps = "st_peers state" and ?h = "mm_peers mem"
  have pok: "peers_ok ?ps ?h" and avg: "averages_ok ?ps ?h" using ok by (simp_all add: device_defs)
  obtain a saved where a: "strtok args '' '' [] = (a, saved)" by fastforce
  obtain c saved2 where c: "strtok None '' '' saved = (c, saved2)" by fastforce
  obtain d saved3 where d: "strtok None [] saved2 = (d, saved3)" by fastforce
  have field: "\<exists>f. nan_cmd_peer_set_value L x = Some f" if "c = Some ''set''" "d = Some x" for x
    using args that by (auto simp: peer_args_ok_def a c d first_word_def nan_cmd_peer_set_value_def split: prod.splits)
  have idle: "nan_cmd_peer L state mem args = Some (state, mem, []) \<Longrightarrow> ?thesis"
    using ok by (intro exI [of _ state] exI [of _ mem] exI [of _ "[]"] conjI) simp_all
  show ?thesis
  proof (cases "a = None \<or> c = None")
    case True
    then have "nan_cmd_peer L state mem args = Some (state, mem, [])" by (auto simp: nan_cmd_peer_def a c d)
    then show ?thesis by (rule idle)
  next
    case False
    then obtain s where s: "args = Some s" using a by (cases args) (auto simp: strtok_def)
    define t where "t = cut_token s '' ''"
    have "get_peer state mem t = Some (case find (\<lambda>p. strstr (ether_addr_text (pe_addr (peer_at ?h p))) t) (peers ?ps) of
        None \<Rightarrow> NULL | Some p \<Rightarrow> p)"
      unfolding get_peer_def by (rule LIST_FIND_find) (simp add: peers_ok_live [OF pok])
    then obtain p where p: "get_peer state mem t = Some p" "p = 0 \<or> p \<in> set (peers ?ps)"
      by (auto dest: find_SomeD split: option.splits)
    show ?thesis
    proof (cases "p \<noteq> 0 \<and> c = Some ''rm''")
      case False
      then have "nan_cmd_peer L state mem args = Some (state, mem, [])"
        using \<open>\<not> (a = None \<or> c = None)\<close> p(1)
        by (auto simp: nan_cmd_peer_def s a [unfolded s] c d simp flip: t_def split: option.split dest!: field)
      then show ?thesis by (rule idle)
    next
      case True
      then have mem: "p \<in> set (peers ?ps)" using p(2) by blast
      define qs ph where "qs = ?ps\<lparr>peers := remove1 p (peers ?ps)\<rparr>" and "ph = ?h\<lparr>cells := (cells ?h)(p := None)\<rparr>"
      note rm = nan_peer_remove_ok [OF pok cb mem, folded qs_def ph_def]
      have "averages_ok qs ph"
        unfolding averages_ok_def
      proof (intro allI impI)
        fix a v assume "lookup_peer qs ph a = Some v"
        then obtain q where q: "q \<in> set (peers qs)" "peer_at ph q = v" by (auto simp: lookup_peer_Some [OF rm(2)])
        then have "q \<in> set (peers ?ps)" "q \<noteq> p"
          using peers_ok_distinct [OF pok] by (auto simp: qs_def dest: notin_set_remove1)
        then have "peer_at ?h q = v" using q(2) by (simp add: ph_def peer_at_def)
        with averages_peer [OF pok avg \<open>q \<in> set (peers ?ps)\<close>] show "ma_inv (pe_rssi_average_state v)" by simp
      qed
      from device_ok_peers [OF ok rm(2) this]
      have "device_ok (state\<lparr>st_peers := qs\<rparr>) (mem\<lparr>mm_peers := ph\<rparr>)" .
      moreover have "nan_cmd_peer L state mem args = Some (state\<lparr>st_peers := qs\<rparr>, mem\<lparr>mm_peers := ph\<rparr>,
          map (\<lambda>p. (peer_remove_callback ?ps, p, peer_remove_callback_data ?ps)) [p])"
        using True \<open>\<not> (a = None \<or> c = None)\<close> p(1) rm(1)
        by (simp add: nan_cmd_peer_def s a [unfolded s] c d flip: t_def)
      moreover have "peer_config qs = peer_config ?ps" by (simp add: qs_def peer_config_def)
      moreover have "keeps_known state mem (state\<lparr>st_peers := qs\<rparr>) (mem\<lparr>mm_peers := ph\<rparr>)"
        by (simp add: all_known_def)
      ultimately show ?thesis using mem
        by (intro exI [of _ "state\<lparr>st_peers := qs\<rparr>"] exI [of _ "mem\<lparr>mm_peers := ph\<rparr>"]
            exI [of _ "map (\<lambda>p. (peer_remove_callback ?ps, p, peer_remove_callback_data ?ps)) [p]"])
          (simp add: exI [of _ "[p]"])
    qed
  qed
qed

section \<open>Commands\<close>

definition command_of :: "string \<Rightarrow> string option" where
  "command_of input = fst (strtok (Some input) '' '' [])"

definition arguments_of :: "string \<Rightarrow> string option" where
  "arguments_of input = fst (strtok None [] (snd (strtok (Some input) '' '' [])))"

definition info_command :: "string \<Rightarrow> bool" where
  "info_command cmd \<longleftrightarrow> cmd \<in> {''help'', ''device'', ''sync'', ''peers'', ''services''}"

text \<open>The remembered command is one that prints.\<close>

definition last_ok :: "string option \<Rightarrow> bool" where
  "last_ok last_cmd \<longleftrightarrow> (case last_cmd of None \<Rightarrow> True
     | Some s \<Rightarrow> (case command_of s of None \<Rightarrow> False | Some cmd \<Rightarrow> info_command cmd))"

text \<open>
  What may be entered: no line of blanks, no publication or subscription without a name or with
  one that \<^verbatim>\<open>tolower\<close> cannot read, only values that \<^verbatim>\<open>atoi\<close> can read, and no blanks for
  the value of a peer.
\<close>

definition command_ok :: "string \<Rightarrow> bool" where
  "command_ok input \<longleftrightarrow> length input < 2 ^ 31 \<and> (input \<noteq> [] \<longrightarrow> (case command_of input of None \<Rightarrow> False
     | Some cmd \<Rightarrow> (cmd \<in> {''publish'', ''subscribe''} \<longrightarrow> name_ok (arguments_of input))
         \<and> (cmd = ''set'' \<longrightarrow> value_ok (arguments_of input))
         \<and> (cmd = ''peer'' \<longrightarrow> peer_args_ok (arguments_of input))))"

lemma last_ok_cut: "command_of s = Some cmd \<Longrightarrow> info_command cmd \<Longrightarrow> last_ok (Some (cut_token s '' ''))"
  by (simp add: last_ok_def command_of_def strtok_cut [where y = "[]"])

lemma argument_length: "arg_length (arguments_of input) \<le> length input"
proof -
  obtain t r where t: "strtok (Some input) '' '' [] = (t, r)" by fastforce
  obtain u w where u: "strtok None [] r = (u, w)" by fastforce
  from strtok_length [OF t] strtok_length [OF u] show ?thesis by (simp add: arguments_of_def t u)
qed

lemma first_word_None: "first_word None = None"
  by (simp add: first_word_def strtok_def)

lemma free_last_cmd_None [simp]: "free_last_cmd last_cmd = None"
  by (cases last_cmd) (simp_all add: free_last_cmd_def)

text \<open>What a command that prints has to say.\<close>

definition info_text :: "u64 \<Rightarrow> nan_state \<Rightarrow> nan_memory \<Rightarrow> string \<Rightarrow> string option \<Rightarrow> string list option" where
  "info_text now_usec state mem cmd args =
     (if cmd = ''help'' then Some nan_cmd_print_help
      else if cmd = ''device'' then Some (nan_cmd_print_device_info state)
      else if cmd = ''sync'' then Some (nan_cmd_print_sync_info state now_usec)
      else if cmd = ''peers'' then nan_cmd_print_peers_info state mem now_usec
      else nan_cmd_print_services_info state mem args)"

lemma info_text_defined:
  assumes "device_ok state mem"
  shows "\<exists>out. info_text now_usec state mem cmd args = Some out"
  using assms peers_info_text [of state mem now_usec] services_info_text [of state mem args]
  by (simp add: info_text_def device_defs)

text \<open>The same as a text that is always there, by the tables of the device.\<close>

definition state_text :: "u64 \<Rightarrow> nan_state \<Rightarrow> nan_memory \<Rightarrow> string \<Rightarrow> string option \<Rightarrow> string list" where
  "state_text now_usec state mem cmd args =
     (if cmd = ''help'' then nan_cmd_print_help
      else if cmd = ''device'' then nan_cmd_print_device_info state
      else if cmd = ''sync'' then nan_cmd_print_sync_info state now_usec
      else if cmd = ''peers'' then peers_text now_usec (st_peers state) (mm_peers mem)
      else services_text (st_services state) (mm_services mem) args)"

lemma info_text_state_text:
  "device_ok state mem \<Longrightarrow> info_text now_usec state mem cmd args = Some (state_text now_usec state mem cmd args)"
  by (simp add: info_text_def state_text_def device_defs peers_info_text services_info_text)

lemma dropWhile_takeWhile_same: "dropWhile P (takeWhile P xs) = []"
  by (auto simp: dropWhile_eq_Nil_conv dest: set_takeWhileD)

lemma arguments_of_cut: "arguments_of (cut_token s '' '') = None"
  by (simp add: arguments_of_def strtok_def cut_token_def Let_def dropWhile_cut [of "\<lambda>c. c \<in> set '' ''", simplified]
      dropWhile_takeWhile_same)

lemma takeWhile_cut:
  "takeWhile P (takeWhile P s @ takeWhile (\<lambda>c. \<not> P c) (dropWhile P s)) = takeWhile P s"
proof -
  have "takeWhile P (takeWhile (\<lambda>c. \<not> P c) zs) = []" for zs by (cases zs) auto
  moreover have "\<forall>x \<in> set (takeWhile P s). P x" by (auto dest: set_takeWhileD)
  ultimately show ?thesis by (simp add: takeWhile_append)
qed

lemma cut_token_cut: "cut_token (cut_token s d) d = cut_token s d"
  by (simp add: cut_token_def dropWhile_cut [of "\<lambda>c. c \<in> set d"] takeWhile_cut [of "\<lambda>c. c \<in> set d"] takeWhile_idem)

text \<open>The cases of a command, by its first word.\<close>

lemma nan_handle_cmd_cases:
  assumes "input \<noteq> []" "command_of input = Some cmd"
  shows "nan_handle_cmd junk sj now_usec L state mem input last_cmd =
    (if info_command cmd then do { out \<leftarrow> info_text now_usec state mem cmd (arguments_of input);
          Some (state, mem, Some (cut_token input '' ''), L, [], log_info L out) }
     else if cmd = ''v+'' then Some (state, mem, None, log_increase_level L, [], [])
     else if cmd = ''v-'' then Some (state, mem, None, log_decrease_level L, [], [])
     else if cmd = ''publish'' then do { (state, mem) \<leftarrow> nan_cmd_publish_service junk sj state mem (arguments_of input);
          Some (state, mem, None, L, [], []) }
     else if cmd = ''subscribe'' then do { (state, mem) \<leftarrow> nan_cmd_subscribe_service junk sj state mem (arguments_of input);
          Some (state, mem, None, L, [], []) }
     else if cmd = ''set'' then do { state \<leftarrow> nan_cmd_set_value state (arguments_of input);
          Some (state, mem, None, L, [], []) }
     else if cmd = ''peer'' then do { (state, mem, calls) \<leftarrow> nan_cmd_peer L state mem (arguments_of input);
          Some (state, mem, None, L, calls, []) }
     else Some (state, mem, None, L, [], []))"
proof -
  obtain t where t: "strtok (Some input) '' '' [] = (Some cmd, t)"
    using assms(2) by (cases "strtok (Some input) '' '' []") (simp add: command_of_def)
  obtain u where u: "strtok None [] t = (arguments_of input, u)"
    by (cases "strtok None [] t") (simp add: arguments_of_def t)
  show ?thesis
    using assms(1) by (simp add: nan_handle_cmd_def t u info_command_def info_text_def)
qed

lemma nan_handle_cmd_again:
  assumes "command_of s = Some cmd" "info_command cmd"
  shows "nan_handle_cmd junk sj now_usec L state mem [] (Some s)
    = do { out \<leftarrow> info_text now_usec state mem cmd (arguments_of s);
           Some (state, mem, Some (cut_token s '' ''), L, [], log_info L out) }"
proof -
  obtain t where t: "strtok (Some s) '' '' [] = (Some cmd, t)"
    using assms(1) by (cases "strtok (Some s) '' '' []") (simp add: command_of_def)
  obtain u where u: "strtok None [] t = (arguments_of s, u)"
    by (cases "strtok None [] t") (simp add: arguments_of_def t)
  from assms(2) consider "cmd = ''help''" | "cmd = ''device''" | "cmd = ''sync''" | "cmd = ''peers''" | "cmd = ''services''"
    by (auto simp: info_command_def)
  then show ?thesis by cases (simp_all add: nan_handle_cmd_def t u info_text_def)
qed

lemma handle_cmd_run:
  assumes ok: "device_ok state mem" and cb: "peer_remove_callback (st_peers state) \<noteq> NULL" and last: "last_ok last_cmd"
    and cmd: "command_ok input" and sj: "length (sha_buf sj) = 64"
  shows "\<exists>state' mem' last' L' ps msgs. nan_handle_cmd junk sj now_usec L state mem input last_cmd
      = Some (state', mem', last', L',
          map (\<lambda>p. (peer_remove_callback (st_peers state), p, peer_remove_callback_data (st_peers state))) ps, msgs)
    \<and> device_ok state' mem' \<and> peer_config (st_peers state') = peer_config (st_peers state) \<and> last_ok last'
    \<and> set ps \<subseteq> set (peers (st_peers state)) \<and> keeps_known state mem state' mem'"
proof -
  let ?calls = "map (\<lambda>p. (peer_remove_callback (st_peers state), p, peer_remove_callback_data (st_peers state)))"
  let ?run = "nan_handle_cmd junk sj now_usec L state mem input last_cmd"
  have none: "last_ok None" by (simp add: last_ok_def)
  have same: "\<exists>ps. xs = ?calls ps \<and> set ps \<subseteq> set (peers (st_peers state))" if "xs = []" for xs
    using that by (intro exI [of _ "[]"]) simp
  have fin: ?thesis if "?run = Some (state', mem', last', L', xs, msgs)" "device_ok state' mem'"
      "peer_config (st_peers state') = peer_config (st_peers state)" "last_ok last'"
      "\<exists>ps. xs = ?calls ps \<and> set ps \<subseteq> set (peers (st_peers state))" "keeps_known state mem state' mem'" for state' mem' last' L' xs msgs
    using that by blast
  have idle: ?thesis if "?run = Some (state, mem, last', L', [], msgs)" "last_ok last'" for last' L' msgs
    using that ok same [OF refl] by (intro fin [OF that(1)]) auto
  show ?thesis
  proof (cases "input = []")
    case True
    show ?thesis
    proof (cases last_cmd)
      case None
      then show ?thesis using True none by (intro idle [of None L "[]"]) (auto simp: nan_handle_cmd_def)
    next
      case (Some s)
      with last obtain c where c: "command_of s = Some c" "info_command c" by (auto simp: last_ok_def split: option.splits)
      obtain out where "info_text now_usec state mem c (arguments_of s) = Some out" using info_text_defined [OF ok] by blast
      with nan_handle_cmd_again [OF c] last_ok_cut [OF c] show ?thesis
        using True Some by (intro idle [of "Some (cut_token s '' '')" L "log_info L out"]) auto
    qed
  next
    case False
    with cmd obtain c where c: "command_of input = Some c"
      and pub: "c \<in> {''publish'', ''subscribe''} \<Longrightarrow> name_ok (arguments_of input)"
      and peer: "c = ''peer'' \<Longrightarrow> peer_args_ok (arguments_of input)"
      and val: "c = ''set'' \<Longrightarrow> value_ok (arguments_of input)" and len: "length input < 2 ^ 31"
      by (auto simp: command_ok_def split: option.splits)
    note run = nan_handle_cmd_cases [OF False c, of junk sj now_usec L state mem last_cmd]
    have args: "arg_length (arguments_of input) < 2 ^ 31" by (rule le_less_trans [OF argument_length len])
    consider "info_command c" | "c = ''v+''" | "c = ''v-''" | "c = ''publish''" | "c = ''subscribe''" | "c = ''set''"
      | "c = ''peer''"
      | "\<not> info_command c" "c \<notin> {''v+'', ''v-'', ''publish'', ''subscribe'', ''set'', ''peer''}" by blast
    then show ?thesis
    proof cases
      case 1
      obtain out where "info_text now_usec state mem c (arguments_of input) = Some out" using info_text_defined [OF ok] by blast
      then show ?thesis using run 1 last_ok_cut [OF c 1] by (intro idle) auto
    next
      case 4
      from publish_run [OF ok sj pub args, of junk] 4 obtain s' m' where
        "nan_cmd_publish_service junk sj state mem (arguments_of input) = Some (s', m')" "device_ok s' m'"
        "st_peers s' = st_peers state" "keeps_known state mem s' m'" by auto
      then show ?thesis using run 4 none same by (intro fin [of s' m' None L "[]" "[]"]) (auto simp: info_command_def)
    next
      case 5
      have "arguments_of input \<noteq> None" using pub 5 by (cases "arguments_of input") (simp_all add: name_ok_def first_word_None)
      from subscribe_run [OF ok sj pub args this, of junk] 5 obtain s' m' where
        "nan_cmd_subscribe_service junk sj state mem (arguments_of input) = Some (s', m')" "device_ok s' m'"
        "st_peers s' = st_peers state" "keeps_known state mem s' m'" by auto
      then show ?thesis using run 5 none same by (intro fin [of s' m' None L "[]" "[]"]) (auto simp: info_command_def)
    next
      case 6
      from set_value_run [OF ok val] 6 obtain s' where
        "nan_cmd_set_value state (arguments_of input) = Some s'" "device_ok s' mem" "st_peers s' = st_peers state"
        "st_events s' = st_events state" by auto
      then show ?thesis using run 6 none same
        by (intro fin [of s' mem None L "[]" "[]"]) (auto simp: info_command_def all_known_def)
    next
      case 7
      from peer_run [OF ok peer cb, of L] 7 obtain s' m' xs where
        "nan_cmd_peer L state mem (arguments_of input) = Some (s', m', xs)" "device_ok s' m'"
        "peer_config (st_peers s') = peer_config (st_peers state)"
        "\<exists>ps. xs = ?calls ps \<and> set ps \<subseteq> set (peers (st_peers state))" "keeps_known state mem s' m'" by auto
      then show ?thesis using run 7 none by (intro fin [of s' m' None L xs "[]"]) (auto simp: info_command_def)
    qed (use run none ok in \<open>auto simp: info_command_def intro: idle\<close>)
  qed
qed

section \<open>Properties\<close>

text \<open>
  C29: A command that prints changes neither the device nor the level of the log; it is
  remembered, and what it prints is made from the tables of the device: one block for each
  peer or service, in their order, or a message that there is none. An empty line repeats it on
  the device as it is then, but without its arguments, so all services are listed. When the
  level of the log is below that of information, nothing is printed.
\<close>

theorem printing_commands_print:
  assumes "device_ok state mem" "device_ok state' mem'"
    and "input \<noteq> []" "command_of input = Some cmd" "info_command cmd"
  shows "nan_handle_cmd junk sj now_usec L state mem input last_cmd
      = Some (state, mem, Some (cut_token input '' ''), L, [],
          if lg_level L < LOG_INFO then [] else state_text now_usec state mem cmd (arguments_of input))
    \<and> nan_handle_cmd junk sj later_usec L' state' mem' [] (Some (cut_token input '' ''))
      = Some (state', mem', Some (cut_token input '' ''), L', [],
          if lg_level L' < LOG_INFO then [] else state_text later_usec state' mem' cmd None)"
proof -
  have again: "command_of (cut_token input '' '') = Some cmd"
    using assms(4) by (simp add: command_of_def strtok_cut [where y = "[]"])
  show ?thesis
    using assms(5) by (simp add: nan_handle_cmd_cases [OF assms(3,4)] nan_handle_cmd_again [OF again assms(5)]
        info_text_state_text [OF assms(1)] info_text_state_text [OF assms(2)] arguments_of_cut cut_token_cut log_info_def)
qed

text \<open>
  The published service of \<open>two_state\<close>, without the subscribed one; then the command again, on
  a device that has no services.
\<close>

theorem printing_commands_print_witness:
  "\<forall>s junk sj L. nan_handle_cmd junk sj 0 (L\<lparr>lg_level := LOG_INFO\<rparr>) (booted s\<lparr>st_services := two_state\<rparr>)
      (empty_memory\<lparr>mm_services := two_services\<rparr>) ''services pub'' None
    = Some (booted s\<lparr>st_services := two_state\<rparr>, empty_memory\<lparr>mm_services := two_services\<rparr>, Some ''services'',
        L\<lparr>lg_level := LOG_INFO\<rparr>, [],
        [''Published Services'', ''---------------------------------------------'',
         ''Service Name             printer'', ''Service ID               01:02:03:04:05:06'',
         ''Publish ID               4'', ''Type                     UNSOLICITED'', ''Time to live             2'',
         ''Service Info             '' @ [CHR 0x01], ''''])
    \<and> nan_handle_cmd junk sj 1 (L\<lparr>lg_level := LOG_INFO\<rparr>) (booted s) empty_memory [] (Some ''services'')
    = Some (booted s, empty_memory, Some ''services'', L\<lparr>lg_level := LOG_INFO\<rparr>, [],
        [''Suscribed Services'', ''---------------------------------------------'', ''No service(s) subscribed.'', '''',
         ''Published Services'', ''---------------------------------------------'', ''No service(s) published.'', ''''])"
proof (intro allI)
  fix s :: nan_state and junk sj and L :: log_state
  let ?state = "booted s\<lparr>st_services := two_state\<rparr>" and ?mem = "empty_memory\<lparr>mm_services := two_services\<rparr>"
  let ?L = "L\<lparr>lg_level := LOG_INFO\<rparr>"
  have ok: "device_ok (booted s) empty_memory" "device_ok ?state ?mem"
    using device_ok_booted [of s] services_ok_two by (simp_all add: device_defs)
  have cmd: "command_of ''services pub'' = Some ''services''" "arguments_of ''services pub'' = Some ''pub''"
    "cut_token ''services pub'' '' '' = ''services''"
    by (simp_all add: command_of_def arguments_of_def strtok_def cut_token_def)
  have chars: "char_of (52 :: nat) = CHR ''4''" "char_of (50 :: nat) = CHR ''2''" "char_of (Suc 0) = CHR 0x01"
    by code_simp+
  have "print_published (service_at two_services 1) = Some [''Service Name             printer'',
      ''Service ID               01:02:03:04:05:06'', ''Publish ID               4'',
      ''Type                     UNSOLICITED'', ''Time to live             2'', ''Service Info             '' @ [CHR 0x01]]"
    by (simp add: two_services_def service_at_def junk_service_def print_published_def print_service_info_def
        limited_text_def c_int_def nan_service_id_to_string_def hex2_def hex_digit_def unsigned_text_def signed_text_def
        decimal.simps publish_type_text_def nan_publish_type_to_string_def chars)
  then have texts: "services_text two_state two_services (Some ''pub'') =
      [''Published Services'', ''---------------------------------------------'',
         ''Service Name             printer'', ''Service ID               01:02:03:04:05:06'',
         ''Publish ID               4'', ''Type                     UNSOLICITED'', ''Time to live             2'',
         ''Service Info             '' @ [CHR 0x01], '''']"
    by (simp add: services_text_def table_text_def published_def two_state_def)
  have none: "services_text (st_services (booted s)) (mm_services empty_memory) None =
      [''Suscribed Services'', ''---------------------------------------------'', ''No service(s) subscribed.'', '''',
       ''Published Services'', ''---------------------------------------------'', ''No service(s) published.'', '''']"
    by (simp add: services_text_def table_text_def published_def subscribed_def booted_def nan_service_state_init_def)
  have "info_command ''services''" "''services pub'' \<noteq> []" by (simp_all add: info_command_def)
  from printing_commands_print [OF ok(2,1) this(2) cmd(1) this(1), of junk sj 0 ?L None 1 ?L]
  show "nan_handle_cmd junk sj 0 ?L ?state ?mem ''services pub'' None
    = Some (?state, ?mem, Some ''services'', ?L, [],
        [''Published Services'', ''---------------------------------------------'',
         ''Service Name             printer'', ''Service ID               01:02:03:04:05:06'',
         ''Publish ID               4'', ''Type                     UNSOLICITED'', ''Time to live             2'',
         ''Service Info             '' @ [CHR 0x01], ''''])
    \<and> nan_handle_cmd junk sj 1 ?L (booted s) empty_memory [] (Some ''services'')
    = Some (booted s, empty_memory, Some ''services'', ?L, [],
        [''Suscribed Services'', ''---------------------------------------------'', ''No service(s) subscribed.'', '''',
         ''Published Services'', ''---------------------------------------------'', ''No service(s) published.'', ''''])"
    using texts none by (simp add: cmd state_text_def)
qed

text \<open>
  C17: The listener for discovery results answers a publisher of a service that is subscribed
  to with one follow-up: exactly that frame is built, addressed to the publisher and to its
  instance, and appended to the queue while that has room. The first listener for discovery
  results is then replaced by one for the follow-ups of the service, behind all others. A
  result for an unknown subscription changes nothing.
\<close>

theorem handle_event_discovery_result_answers:
  assumes "radiotap_layout rt" "device_ok state mem"
  shows "\<exists>state' mem'. handle_event_discovery_result rt junk state mem data = Some (state', mem')
    \<and> device_ok state' mem'
    \<and> (case find (\<lambda>v. sv_instance_id v = dr_subscribe_id data) (subscribed (st_services state) (mm_services mem)) of
        None \<Rightarrow> state' = state \<and> mem' = mem
      | Some v \<Rightarrow> answered rt state mem data v state' mem')"
  using handle_event_discovery_result_cases [OF assms, of junk data] by blast

text \<open>A result for the subscription of \<open>two_state\<close>, whose instance is 5.\<close>

theorem handle_event_discovery_result_answers_witness:
  "\<forall>s. \<exists>state' mem'. handle_event_discovery_result plain_radiotap (\<lambda>_. 0) (booted s\<lparr>st_services := two_state\<rparr>)
      (empty_memory\<lparr>mm_services := two_services\<rparr>)
      \<lparr>dr_subscribe_id = 5, dr_service_specific_info = [], dr_service_specific_info_length = 0,
       dr_service_update_indicator = 0, dr_publish_id = 9, dr_address = Ether_Addr 2 0 0 0 0 9\<rparr> = Some (state', mem')
    \<and> cbuf_contents (st_buffer state') = [1]
    \<and> listener_items (st_events state') (mm_listeners mem')
      = [\<lparr>li_event = EVENT_RECEIVE, li_service_name = Some ''scanner'', li_listener = HANDLE_EVENT_RECEIVE,
          li_additional_data = NAN_STATE\<rparr>]"
proof
  fix s :: nan_state
  let ?state = "booted s\<lparr>st_services := two_state\<rparr>" and ?mem = "empty_memory\<lparr>mm_services := two_services\<rparr>"
  let ?data = "\<lparr>dr_subscribe_id = 5, dr_service_specific_info = [], dr_service_specific_info_length = 0,
       dr_service_update_indicator = 0, dr_publish_id = 9, dr_address = Ether_Addr 2 0 0 0 0 9\<rparr>"
  have ok: "device_ok ?state ?mem" using device_ok_booted [of s] services_ok_two by (simp add: device_defs)
  have sub: "find (\<lambda>v. sv_instance_id v = 5) (subscribed two_state two_services) = Some (service_at two_services 2)"
    "sv_service_name (service_at two_services 2) = ''scanner''"
    by (simp_all add: subscribed_def two_state_def two_services_def service_at_def)
  have start: "cbuf_contents (st_buffer ?state) = []" "\<not> circular_buf_full (st_buffer ?state)"
      "brk (mm_frames ?mem) = 1" "listener_items (st_events ?state) (mm_listeners ?mem) = []"
    by (simp_all add: booted_def cbuf_contents_def circular_buf_size_def circular_buf_full_def empty_memory_def
        store_empty_def listener_items_def nan_event_state_init_def)
  from handle_event_discovery_result_answers [OF plain_radiotap_layout ok, of "\<lambda>_. 0" ?data] sub start
  show "\<exists>state' mem'. handle_event_discovery_result plain_radiotap (\<lambda>_. 0) ?state ?mem ?data = Some (state', mem')
    \<and> cbuf_contents (st_buffer state') = [1]
    \<and> listener_items (st_events state') (mm_listeners mem')
      = [\<lparr>li_event = EVENT_RECEIVE, li_service_name = Some ''scanner'', li_listener = HANDLE_EVENT_RECEIVE,
          li_additional_data = NAN_STATE\<rparr>]"
    by (auto simp: answered_def)
qed

end
