(* ===== verification/Nan_Dispatch.thy ===== *)
theory Nan_Dispatch
  imports Nan_Cmd_Safety
begin

text \<open>
  Dispatching an event while its listeners run. The loop of \<^verbatim>\<open>nan_dispatch_event\<close> goes over a list
  that the listeners of the commands change: they remove entries and add new ones. \<open>run_dispatch\<close>
  is that loop, and the theorem of this theory says that it does what the reception's model
  does: it makes the calls that are due when the event occurs, in their order.
\<close>

section \<open>The loop on a changing list\<close>

text \<open>
  The iterator is the entry it yields next. Here an entry is named by its item, which occurs
  once: \<open>successor\<close> reads its \<^verbatim>\<open>next\<close> pointer.
\<close>

definition first_entry :: "ptr list \<Rightarrow> ptr option" where
  "first_entry xs = (case xs of [] \<Rightarrow> None | x # _ \<Rightarrow> Some x)"

fun successor :: "ptr \<Rightarrow> ptr list \<Rightarrow> ptr option" where
  "successor p [] = None"
| "successor p (x # xs) = (if x = p then first_entry xs else successor p xs)"

text \<open>
  The iterator moves on before the listener is called. An entry that is not in the list any more
  has been freed, and reading it is undefined.
\<close>

partial_function (option) run_dispatch ::
  "listen \<Rightarrow> nan_event_type \<Rightarrow> string option \<Rightarrow> nan_event_data \<Rightarrow> ptr option \<Rightarrow> nan_state \<Rightarrow> nan_memory
   \<Rightarrow> (nan_state \<times> nan_memory) option" where
  "run_dispatch listen event service_name data it state mem =
     (case it of None \<Rightarrow> Some (state, mem)
      | Some p \<Rightarrow>
          if p \<notin> set (listeners (st_events state)) then None
          else let it' = successor p (listeners (st_events state))
               in case cells (mm_listeners mem) p of None \<Rightarrow> None
                  | Some item \<Rightarrow>
                      (case matches_event item event service_name of None \<Rightarrow> None
                       | Some matches \<Rightarrow>
                           if \<not> matches then run_dispatch listen event service_name data it' state mem
                           else case listen (li_listener item, event, data, li_additional_data item) state mem of
                                  None \<Rightarrow> None
                                | Some s \<Rightarrow> run_dispatch listen event service_name data it' (fst s) (snd s)))"

lemma successor_split: "p \<notin> set us \<Longrightarrow> successor p (us @ p # vs) = first_entry vs"
  by (induction us) auto

section \<open>The calls that are due\<close>

definition due :: "nan_event_type \<Rightarrow> string \<Rightarrow> nan_event_data \<Rightarrow> listener_heap \<Rightarrow> ptr list
    \<Rightarrow> nan_event_data listener_call list" where
  "due event name data h ps = map (\<lambda>it. (li_listener it, event, data, li_additional_data it))
     (filter (wants event name) (map (\<lambda>p. the (cells h p)) ps))"

lemma due_simps [simp]:
  "due event name data h [] = []" "due event name data h (ps @ qs) = due event name data h ps @ due event name data h qs"
  "due event name data h (p # ps) = (if wants event name (the (cells h p))
     then [(li_listener (the (cells h p)), event, data, li_additional_data (the (cells h p)))] else []) @ due event name data h ps"
  by (simp_all add: due_def)

lemma due_cong: "\<forall>q \<in> set ps. cells h' q = cells h q \<Longrightarrow> due event name data h' ps = due event name data h ps"
  by (induction ps) auto

lemma due_dispatch:
  "listeners_ok state h \<Longrightarrow> nan_dispatch_event state h event (Some name) data = Some (due event name data h (listeners state))"
  by (simp add: nan_dispatch_event_ok due_def listener_items_def)

text \<open>A call of one of the commands' listeners, for the loop.\<close>

lemma call_listener_rest:
  assumes rt: "radiotap_layout rt" and ok: "device_ok state mem" and kn: "all_known command_listener state mem"
    and xs: "listeners (st_events state) = us @ p # vs" and item: "cells (mm_listeners mem) p = Some item"
    and ev: "li_event item = event" "event_data_fits event data" and log: "loggable L data"
  shows "\<exists>state' mem' us' ws. call_listener rt frame_junk L (li_listener item, event, data, li_additional_data item) state mem
      = Some (state', mem') \<and> device_ok state' mem' \<and> all_known command_listener state' mem'
    \<and> listeners (st_events state') = us' @ vs @ ws
    \<and> (\<forall>q \<in> set vs. cells (mm_listeners mem') q = cells (mm_listeners mem) q)
    \<and> due event name data (mm_listeners mem') ws = []"
proof -
  have known: "command_listener item"
    using kn item by (simp add: all_known_def listener_items_def xs)
  have at: "li_listener (the (cells (mm_listeners mem) p)) = li_listener item" by (simp add: item)
  show ?thesis
  proof (cases data)
    case (Receive r)
    then have l: "li_listener item = HANDLE_EVENT_RECEIVE" "li_additional_data item = NAN_STATE"
      using known ev by (auto simp: command_listener_def event_data_fits_def)
    from handle_event_receive_run [OF ok log [unfolded Receive]] obtain s m where
      run: "handle_event_receive L state mem r = Some (s, m)" "device_ok s m" "keeps_known state mem s m"
        "rest_kept HANDLE_EVENT_RECEIVE state mem s m" by blast
    from run(4) xs at l(1) obtain us' where "listeners (st_events s) = us' @ vs"
        "\<forall>q \<in> set vs. cells (mm_listeners m) q = cells (mm_listeners mem) q"
      unfolding rest_kept_def by fastforce
    then show ?thesis using run(1-3) kn l Receive
      by (intro exI [of _ s] exI [of _ m] exI [of _ us'] exI [of _ "[]"]) (simp add: call_listener_def)
  next
    case (Discovery_Result r)
    then have l: "li_listener item = HANDLE_EVENT_DISCOVERY_RESULT" "li_additional_data item = NAN_STATE"
        and e: "event = EVENT_DISCOVERY_RESULT"
      using known ev by (auto simp: command_listener_def event_data_fits_def)
    from handle_event_discovery_result_run [OF rt ok, of "frame_junk (brk (mm_frames mem))" r] obtain s m where
      run: "handle_event_discovery_result rt (frame_junk (brk (mm_frames mem))) state mem r = Some (s, m)"
        "device_ok s m" "keeps_known state mem s m" "rest_kept HANDLE_EVENT_DISCOVERY_RESULT state mem s m" by blast
    from run(4) xs at l(1) obtain us' ws where rest: "listeners (st_events s) = us' @ vs @ ws"
        "\<forall>q \<in> set vs. cells (mm_listeners m) q = cells (mm_listeners mem) q"
        "\<forall>q \<in> set ws. li_event (the (cells (mm_listeners m) q)) = EVENT_RECEIVE"
      unfolding rest_kept_def by metis
    have "due event name data (mm_listeners m) ws = []"
      using rest(3) e by (induction ws) (auto simp: wants_def)
    with rest(1,2) show ?thesis using run(1-3) kn l Discovery_Result
      by (intro exI [of _ s] exI [of _ m] exI [of _ us'] exI [of _ ws]) (simp add: call_listener_def)
  qed
qed

text \<open>
  The loop with the entries \<open>ps\<close> before it, in a list that may have grown by entries the event is
  not for; \<open>n\<close> is the number of calls that are due.
\<close>

lemma run_dispatch_due:
  assumes rt: "radiotap_layout rt" and fits: "event_data_fits event data" and log: "loggable L data"
  shows "device_ok state mem \<Longrightarrow> all_known command_listener state mem \<Longrightarrow>
    listeners (st_events state) = us @ ps \<Longrightarrow> n = length (due event name data (mm_listeners mem) ps) \<Longrightarrow>
    it = first_entry ps \<or> it = None \<and> n = 0 \<Longrightarrow>
    run_dispatch (call_listener rt frame_junk L) event (Some name) data it state mem
      = call_listeners (call_listener rt frame_junk L) (due event name data (mm_listeners mem) ps) state mem"
proof (induction n arbitrary: ps us it state mem rule: less_induct)
  case (less n)
  note outer = less.IH
  from less.prems show ?case
  proof (induction ps arbitrary: us it)
    case Nil
    then show ?case by (subst run_dispatch.simps) (auto simp: first_entry_def)
  next
    case (Cons p ps)
    show ?case
    proof (cases "it = None")
      case True
      then have "due event name data (mm_listeners mem) (p # ps) = []" using Cons.prems(4,5) by (auto simp: first_entry_def)
      then show ?thesis using True by (subst run_dispatch.simps) simp
    next
      case False
      then have it: "it = Some p" using Cons.prems(5) by (auto simp: first_entry_def)
      have lok: "listeners_ok (st_events state) (mm_listeners mem)" using Cons.prems(1) by (simp add: device_defs)
      then have "distinct (us @ p # ps)" "cells (mm_listeners mem) p \<noteq> None" using Cons.prems(3) by (auto simp: listeners_ok_def)
      then obtain item where item: "cells (mm_listeners mem) p = Some item" and "p \<notin> set us" by auto
      then have nx: "successor p (us @ p # ps) = first_entry ps" by (simp add: successor_split)
      show ?thesis
      proof (cases "wants event name item")
        case no: False
        have "run_dispatch (call_listener rt frame_junk L) event (Some name) data it state mem
            = run_dispatch (call_listener rt frame_junk L) event (Some name) data (first_entry ps) state mem"
          by (subst run_dispatch.simps) (simp add: it item nx matches_event_wants no Cons.prems(3))
        then show ?thesis
          using Cons.IH [of "us @ [p]" "first_entry ps"] Cons.prems no by (simp add: item)
      next
        case yes: True
        then have "li_event item = event" by (simp add: wants_def)
        from call_listener_rest [OF rt Cons.prems(1-3) item this fits log, of frame_junk name] obtain s m us' ws where
          call: "call_listener rt frame_junk L (li_listener item, event, data, li_additional_data item) state mem = Some (s, m)"
            "device_ok s m" "all_known command_listener s m" and ls: "listeners (st_events s) = us' @ ps @ ws"
          and h: "\<forall>q \<in> set ps. cells (mm_listeners m) q = cells (mm_listeners mem) q"
          and ws: "due event name data (mm_listeners m) ws = []" by blast
        have same: "due event name data (mm_listeners m) (ps @ ws) = due event name data (mm_listeners mem) ps"
          using due_cong [OF h] ws by simp
        have "n = Suc (length (due event name data (mm_listeners m) (ps @ ws)))"
          using Cons.prems(4) yes by (simp add: item same del: due_simps(2))
        then have shorter: "length (due event name data (mm_listeners m) (ps @ ws)) < n" by simp
        have "first_entry ps = first_entry (ps @ ws)
            \<or> first_entry ps = None \<and> length (due event name data (mm_listeners m) (ps @ ws)) = 0"
          using ws by (cases ps) (simp_all add: first_entry_def)
        from outer [OF shorter call(2,3) ls refl this] have
          "run_dispatch (call_listener rt frame_junk L) event (Some name) data (first_entry ps) s m
            = call_listeners (call_listener rt frame_junk L) (due event name data (mm_listeners mem) ps) s m"
          unfolding same .
        then show ?thesis using yes
          by (subst run_dispatch.simps) (simp add: it item nx matches_event_wants Cons.prems(3) call(1))
      qed
    qed
  qed
qed

section \<open>Properties\<close>

text \<open>
  C12: Dispatching an event of a named service makes, although its listeners remove entries of the
  list it goes over and add new ones, exactly the calls that are due when the event occurs: those
  of the listeners for its type that are registered for every service or for a prefix of the
  service's name, in the order of their registration; and it never reads a freed entry. The data
  of the event must be such that the listener can write its debugging message, if the level asks
  for one.
\<close>

theorem run_dispatch_calls:
  assumes "radiotap_layout rt" "device_ok state mem" "all_known command_listener state mem" "event_data_fits event data"
    and "loggable L data"
  shows "\<exists>calls state' mem'. nan_dispatch_event (st_events state) (mm_listeners mem) event (Some name) data = Some calls
    \<and> calls = map (\<lambda>it. (li_listener it, event, data, li_additional_data it))
           (filter (wants event name) (listener_items (st_events state) (mm_listeners mem)))
    \<and> run_dispatch (call_listener rt frame_junk L) event (Some name) data (first_entry (listeners (st_events state))) state mem
        = Some (state', mem')
    \<and> call_listeners (call_listener rt frame_junk L) calls state mem = Some (state', mem')"
proof -
  have lok: "listeners_ok (st_events state) (mm_listeners mem)" using assms(2) by (simp add: device_defs)
  let ?calls = "due event name data (mm_listeners mem) (listeners (st_events state))"
  have "\<forall>c \<in> set ?calls. call_known command_listener c \<and> loggable L (fst (snd (snd c)))"
    using assms(3-5) by (auto simp: due_def wants_def call_known_def all_known_def listener_items_def)
  from call_listeners_loggable [OF assms(1) this assms(2,3), of frame_junk] obtain state' mem' where
    "call_listeners (call_listener rt frame_junk L) ?calls state mem = Some (state', mem')" by blast
  with run_dispatch_due [OF assms(1,4,5,2,3), of "[]" "listeners (st_events state)" _ name _ frame_junk]
  show ?thesis by (simp add: due_dispatch [OF lok]) (simp add: due_def listener_items_def)
qed

text \<open>
  Two listeners wait for the subscription of \<open>two_state\<close>, and one for a publication; the first two
  replace themselves while the loop runs.
\<close>

definition three_listeners :: listener_heap where
  "three_listeners = \<lparr>cells = [
     1 \<mapsto> \<lparr>li_event = EVENT_DISCOVERY_RESULT, li_service_name = Some ''scanner'', li_listener = HANDLE_EVENT_DISCOVERY_RESULT,
          li_additional_data = NAN_STATE\<rparr>,
     2 \<mapsto> \<lparr>li_event = EVENT_RECEIVE, li_service_name = Some ''printer'', li_listener = HANDLE_EVENT_RECEIVE,
          li_additional_data = NAN_STATE\<rparr>,
     3 \<mapsto> \<lparr>li_event = EVENT_DISCOVERY_RESULT, li_service_name = Some ''scan'', li_listener = HANDLE_EVENT_DISCOVERY_RESULT,
          li_additional_data = NAN_STATE\<rparr>], brk = 4\<rparr>"

theorem run_dispatch_calls_witness:
  "\<forall>s d L. \<exists>state' mem'. run_dispatch (call_listener plain_radiotap (\<lambda>_ _. 0) L) EVENT_DISCOVERY_RESULT (Some ''scanner'')
      (Discovery_Result d) (Some 1) (booted s\<lparr>st_services := two_state, st_events := \<lparr>listeners = [1, 2, 3]\<rparr>\<rparr>)
      (empty_memory\<lparr>mm_services := two_services, mm_listeners := three_listeners\<rparr>) = Some (state', mem')
    \<and> call_listeners (call_listener plain_radiotap (\<lambda>_ _. 0) L)
        (replicate 2 (HANDLE_EVENT_DISCOVERY_RESULT, EVENT_DISCOVERY_RESULT, Discovery_Result d, NAN_STATE))
        (booted s\<lparr>st_services := two_state, st_events := \<lparr>listeners = [1, 2, 3]\<rparr>\<rparr>)
        (empty_memory\<lparr>mm_services := two_services, mm_listeners := three_listeners\<rparr>) = Some (state', mem')"
proof (intro allI)
  fix s :: nan_state and d L
  let ?state = "booted s\<lparr>st_services := two_state, st_events := \<lparr>listeners = [1, 2, 3]\<rparr>\<rparr>"
    and ?mem = "empty_memory\<lparr>mm_services := two_services, mm_listeners := three_listeners\<rparr>"
  have lok: "listeners_ok \<lparr>listeners = [1, 2, 3]\<rparr> three_listeners"
    by (simp add: listeners_ok_def three_listeners_def wf_store_def)
  then have ok: "device_ok ?state ?mem" using device_ok_booted [of s] services_ok_two by (simp add: device_defs)
  have kn: "all_known command_listener ?state ?mem"
    by (simp add: all_known_def listener_items_def command_listener_def three_listeners_def)
  have wants: "map (\<lambda>it. (li_listener it, EVENT_DISCOVERY_RESULT, Discovery_Result d, li_additional_data it))
      (filter (wants EVENT_DISCOVERY_RESULT ''scanner'') (listener_items \<lparr>listeners = [1, 2, 3]\<rparr> three_listeners))
      = replicate 2 (HANDLE_EVENT_DISCOVERY_RESULT, EVENT_DISCOVERY_RESULT, Discovery_Result d, NAN_STATE)"
    by (simp add: listener_items_def wants_def three_listeners_def numeral_2_eq_2)
  have fits: "event_data_fits EVENT_DISCOVERY_RESULT (Discovery_Result d)" by (simp add: event_data_fits_def)
  have log: "loggable L (Discovery_Result d)" by (simp add: loggable_def)
  have first: "first_entry [1, 2, 3] = Some 1" by (simp add: first_entry_def)
  from run_dispatch_calls [OF plain_radiotap_layout ok kn fits log, of "''scanner''" "\<lambda>_ _. 0"]
  show "\<exists>state' mem'. run_dispatch (call_listener plain_radiotap (\<lambda>_ _. 0) L) EVENT_DISCOVERY_RESULT (Some ''scanner'')
      (Discovery_Result d) (Some 1) ?state ?mem = Some (state', mem')
    \<and> call_listeners (call_listener plain_radiotap (\<lambda>_ _. 0) L)
        (replicate 2 (HANDLE_EVENT_DISCOVERY_RESULT, EVENT_DISCOVERY_RESULT, Discovery_Result d, NAN_STATE)) ?state ?mem
      = Some (state', mem')"
    using wants first by simp
qed

end
