(* ===== verification/Nan_Netutils.thy ===== *)
theory Nan_Netutils
  imports Nan_Ieee80211 Nan_Cluster "HOL-Library.Multiset"
begin

text \<open>
  The network configuration of the daemon on Linux, \<^verbatim>\<open>src/daemon/netutils.c\<close>. The netlink library
  is not part of the repository: a function makes calls of it, whose answers are chosen by the
  environment from everything that was called before, and the sequence of the calls with their
  answers is the effect of the function. The numbers of the kernel's interfaces are their names.
\<close>

section \<open>Calls of the netlink library\<close>

datatype nl80211_command = NL80211_CMD_SET_INTERFACE | NL80211_CMD_SET_CHANNEL

datatype nl80211_attribute = NL80211_ATTR_IFINDEX | NL80211_ATTR_IFTYPE | NL80211_ATTR_MNTR_FLAGS
  | NL80211_ATTR_WIPHY_FREQ | NL80211_ATTR_WIPHY_CHANNEL_TYPE | NL80211_MNTR_FLAG_ACTIVE

datatype nl_value = Number int | NL80211_IFTYPE_MONITOR | NL80211_CHAN_HT40PLUS

datatype address_family = AF_INET6 | AF_LLC

text \<open>Pointers are numbers, a null pointer is 0.\<close>

datatype nl_call =
    Nl_Socket_Alloc | Nl_Socket_Free int | Nl_Connect_Route int | Genl_Connect int
  | Nl_Socket_Set_Buffer_Size int int int | Genl_Ctrl_Resolve int string
  | Nlmsg_Alloc | Nlmsg_Free int | Genlmsg_Put int int nl80211_command
  | Nla_Put_U32 int nl80211_attribute nl_value | Nla_Put_Flag int nl80211_attribute
  | Nla_Put_Nested int nl80211_attribute int
  | Nl_Send_Auto int int | Nl_Send_Auto_Complete int int | Nl_Recvmsgs_Default int
  | Rtnl_Neigh_Alloc | Rtnl_Neigh_Put int | Rtnl_Neigh_Set_Ifindex int int
  | Nl_Addr_Build address_family "u8 list" | Nl_Addr_Put int | Rtnl_Neigh_Set_Dst int int
  | Rtnl_Neigh_Set_Lladdr int int | Rtnl_Neigh_Set_State_Permanent int
  | Rtnl_Neigh_Add int int | Rtnl_Neigh_Delete int int
  | Rtnl_Link_Get_Kernel int int "u8 list option" | Rtnl_Link_Alloc | Rtnl_Link_Set_Flags int string
  | Rtnl_Link_Change int int int | Rtnl_Link_Put int | Rtnl_Link_Get_Addr int | Nl_Addr_Get_Binary_Addr int

text \<open>An answer is what the call returns and, where it has an output argument, what it stores there.\<close>

type_synonym nl_answer = "int \<times> int"
type_synonym nl_trace = "(nl_call \<times> nl_answer) list"
type_synonym nl_env = "nl_trace \<Rightarrow> nl_call \<Rightarrow> nl_answer"

definition nl :: "nl_env \<Rightarrow> nl_call \<Rightarrow> nl_trace \<Rightarrow> int \<times> nl_trace" where
  "nl env c t = (fst (env t c), t @ [(c, env t c)])"

definition nl_out :: "nl_env \<Rightarrow> nl_call \<Rightarrow> nl_trace \<Rightarrow> int \<times> int \<times> nl_trace" where
  "nl_out env c t = (fst (env t c), snd (env t c), t @ [(c, env t c)])"

abbreviation (input) ENOMEM :: int where "ENOMEM \<equiv> 12"
abbreviation (input) ENOLINK :: int where "ENOLINK \<equiv> 67"
abbreviation (input) ENOBUFS :: int where "ENOBUFS \<equiv> 105"

section \<open>Sockets\<close>

text \<open>The two static variables of the file.\<close>

record nl_sockets =
  nlroute_socket :: int
  nl80211_socket :: int
  nl80211_id :: int

definition nlroute_init :: "nl_env \<Rightarrow> nl_sockets \<Rightarrow> nl_trace \<Rightarrow> int \<times> nl_sockets \<times> nl_trace" where
  "nlroute_init env s t =
     (let (socket, t) = nl env Nl_Socket_Alloc t;
          s = s\<lparr>nlroute_socket := socket\<rparr>
      in if socket = 0 then (- ENOMEM, s, t)
         else let (err, t) = nl env (Nl_Connect_Route socket) t
              in if err \<noteq> 0 then let (_, t) = nl env (Nl_Socket_Free socket) t in (- ENOLINK, s, t)
                 else (0, s, t))"

definition nl80211_init :: "nl_env \<Rightarrow> nl_sockets \<Rightarrow> nl_trace \<Rightarrow> int \<times> nl_sockets \<times> nl_trace" where
  "nl80211_init env s t =
     (let (socket, t) = nl env Nl_Socket_Alloc t;
          s = s\<lparr>nl80211_socket := socket\<rparr>
      in if socket = 0 then (- ENOMEM, s, t)
         else let (_, t) = nl env (Nl_Socket_Set_Buffer_Size socket 8192 8192) t;
                  (err, t) = nl env (Genl_Connect socket) t
              in if err \<noteq> 0 then let (_, t) = nl env (Nl_Socket_Free socket) t in (- ENOLINK, s, t)
                 else let (i, t) = nl env (Genl_Ctrl_Resolve socket ''nl80211'') t;
                          s = s\<lparr>nl80211_id := i\<rparr>
                      in if i < 0 then let (_, t) = nl env (Nl_Socket_Free socket) t in (- ENOENT, s, t)
                         else (0, s, t))"

definition netutils_init :: "nl_env \<Rightarrow> nl_sockets \<Rightarrow> nl_trace \<Rightarrow> int \<times> nl_sockets \<times> nl_trace" where
  "netutils_init env s t =
     (let (err, s, t) = nlroute_init env s t
      in if err < 0 then (err, s, t)
         else let (err, s, t) = nl80211_init env s t
              in if err < 0 then (err, s, t) else (0, s, t))"

definition netutils_cleanup :: "nl_env \<Rightarrow> nl_sockets \<Rightarrow> nl_trace \<Rightarrow> nl_trace" where
  "netutils_cleanup env s t =
     (let (_, t) = nl env (Nl_Socket_Free (nlroute_socket s)) t;
          (_, t) = nl env (Nl_Socket_Free (nl80211_socket s)) t
      in t)"

section \<open>Neighbours\<close>

definition neighbor_add :: "nl_env \<Rightarrow> nl_sockets \<Rightarrow> int \<Rightarrow> ether_addr \<Rightarrow> u8 list \<Rightarrow> nl_trace \<Rightarrow> int \<times> nl_trace" where
  "neighbor_add env s ifindex eth in6 t =
     (let (neigh, t) = nl env Rtnl_Neigh_Alloc t
      in if neigh = 0 then (- ENOMEM, t) else
         let (_, t) = nl env (Rtnl_Neigh_Set_Ifindex neigh ifindex) t;
             (nl_ipaddr, t) = nl env (Nl_Addr_Build AF_INET6 in6) t
         in if nl_ipaddr = 0 then (- ENOMEM, t) else
            let (_, t) = nl env (Rtnl_Neigh_Set_Dst neigh nl_ipaddr) t;
                (nl_llcaddr, t) = nl env (Nl_Addr_Build AF_LLC (ether_addr_octet eth)) t
            in if nl_llcaddr = 0 then (- ENOMEM, t) else
               let (_, t) = nl env (Rtnl_Neigh_Set_Lladdr neigh nl_llcaddr) t;
                   (_, t) = nl env (Rtnl_Neigh_Set_State_Permanent neigh) t;
                   (err, t) = nl env (Rtnl_Neigh_Add (nlroute_socket s) neigh) t
               in if err < 0 then (err, t) else
                  let (_, t) = nl env (Rtnl_Neigh_Put neigh) t;
                      (_, t) = nl env (Nl_Addr_Put nl_ipaddr) t;
                      (_, t) = nl env (Nl_Addr_Put nl_llcaddr) t
                  in (0, t))"

definition neighbor_remove :: "nl_env \<Rightarrow> nl_sockets \<Rightarrow> int \<Rightarrow> u8 list \<Rightarrow> nl_trace \<Rightarrow> int \<times> nl_trace" where
  "neighbor_remove env s ifindex in6 t =
     (let (neigh, t) = nl env Rtnl_Neigh_Alloc t
      in if neigh = 0 then (- ENOMEM, t) else
         let (_, t) = nl env (Rtnl_Neigh_Set_Ifindex neigh ifindex) t;
             (nl_ipaddr, t) = nl env (Nl_Addr_Build AF_INET6 in6) t
         in if nl_ipaddr = 0 then (- ENOMEM, t) else
            let (_, t) = nl env (Rtnl_Neigh_Set_Dst neigh nl_ipaddr) t;
                (err, t) = nl env (Rtnl_Neigh_Delete (nlroute_socket s) neigh) t
            in if err < 0 then (err, t) else
               let (_, t) = nl env (Rtnl_Neigh_Put neigh) t;
                   (_, t) = nl env (Nl_Addr_Put nl_ipaddr) t
               in (0, t))"

definition rfc4291_addr :: "ether_addr \<Rightarrow> u8 list" where
  "rfc4291_addr eth =
     (let os = ether_addr_octet eth;
          in6 = replicate 16 0;
          in6 = in6[0 := 0xfe]; in6 = in6[1 := 0x80];
          in6 = in6[8 := os ! 0 XOR 0x02]; in6 = in6[9 := os ! 1]; in6 = in6[10 := os ! 2];
          in6 = in6[11 := 0xff]; in6 = in6[12 := 0xfe];
          in6 = in6[13 := os ! 3]; in6 = in6[14 := os ! 4]; in6 = in6[15 := os ! 5]
      in in6)"

definition neighbor_add_rfc4291 :: "nl_env \<Rightarrow> nl_sockets \<Rightarrow> int \<Rightarrow> ether_addr \<Rightarrow> nl_trace \<Rightarrow> int \<times> nl_trace" where
  "neighbor_add_rfc4291 env s ifindex addr t = neighbor_add env s ifindex addr (rfc4291_addr addr) t"

definition neighbor_remove_rfc4291 :: "nl_env \<Rightarrow> nl_sockets \<Rightarrow> int \<Rightarrow> ether_addr \<Rightarrow> nl_trace \<Rightarrow> int \<times> nl_trace" where
  "neighbor_remove_rfc4291 env s ifindex addr t = neighbor_remove env s ifindex (rfc4291_addr addr) t"

section \<open>The wireless interface\<close>

text \<open>
  The end of \<^verbatim>\<open>set_monitor_mode\<close>, at the label \<^verbatim>\<open>out\<close>: the messages that are there are freed. A
  \<^verbatim>\<open>NLA_PUT\<close> that fails goes there by way of \<^verbatim>\<open>nla_put_failure\<close>.
\<close>

definition monitor_out :: "nl_env \<Rightarrow> int \<Rightarrow> int \<Rightarrow> int \<Rightarrow> nl_trace \<Rightarrow> int \<times> nl_trace" where
  "monitor_out env m flags err t =
     (let t = (if m \<noteq> 0 then snd (nl env (Nlmsg_Free m) t) else t);
          t = (if flags \<noteq> 0 then snd (nl env (Nlmsg_Free flags) t) else t)
      in (err, t))"

definition set_monitor_mode :: "nl_env \<Rightarrow> nl_sockets \<Rightarrow> int \<Rightarrow> nl_trace \<Rightarrow> int \<times> nl_trace" where
  "set_monitor_mode env s ifindex t =
     (let (m, t) = nl env Nlmsg_Alloc t
      in if m = 0 then monitor_out env m 0 (- ENOMEM) t else
         let (_, t) = nl env (Genlmsg_Put m (nl80211_id s) NL80211_CMD_SET_INTERFACE) t;
             (r, t) = nl env (Nla_Put_U32 m NL80211_ATTR_IFINDEX (Number ifindex)) t
         in if r < 0 then monitor_out env m 0 (- ENOBUFS) t else
            let (r, t) = nl env (Nla_Put_U32 m NL80211_ATTR_IFTYPE NL80211_IFTYPE_MONITOR) t
            in if r < 0 then monitor_out env m 0 (- ENOBUFS) t else
               let (flags, t) = nl env Nlmsg_Alloc t
               in if flags = 0 then monitor_out env m flags (- ENOMEM) t else
                  let (r, t) = nl env (Nla_Put_Flag flags NL80211_MNTR_FLAG_ACTIVE) t
                  in if r < 0 then monitor_out env m flags (- ENOBUFS) t else
                     let (_, t) = nl env (Nla_Put_Nested m NL80211_ATTR_MNTR_FLAGS flags) t;
                         (_, t) = nl env (Nlmsg_Free flags) t;
                         (err, t) = nl env (Nl_Send_Auto (nl80211_socket s) m) t
                     in if err < 0 then monitor_out env m 0 err t else
                        let (err, t) = nl env (Nl_Recvmsgs_Default (nl80211_socket s)) t
                        in monitor_out env m 0 err t)"

definition channel_out :: "nl_env \<Rightarrow> int \<Rightarrow> int \<Rightarrow> nl_trace \<Rightarrow> int \<times> nl_trace" where
  "channel_out env m err t = (let t = (if m \<noteq> 0 then snd (nl env (Nlmsg_Free m) t) else t) in (err, t))"

text \<open>
  For an invalid channel the label \<^verbatim>\<open>out\<close> is reached with a message pointer that was never set:
  using it is undefined, \<^const>\<open>None\<close>.
\<close>

definition set_channel :: "nl_env \<Rightarrow> nl_sockets \<Rightarrow> int \<Rightarrow> int \<Rightarrow> nl_trace \<Rightarrow> (int \<times> nl_trace) option" where
  "set_channel env s ifindex channel t =
     (let freq = ieee80211_channel_to_frequency channel
      in if freq = 0 then None else
         let (m, t) = nl env Nlmsg_Alloc t
         in Some (if m = 0 then channel_out env m (- ENOMEM) t else
            let (hdr, t) = nl env (Genlmsg_Put m (nl80211_id s) NL80211_CMD_SET_CHANNEL) t
            in if hdr = 0 then channel_out env m (- ENOBUFS) t else
               let (r, t) = nl env (Nla_Put_U32 m NL80211_ATTR_IFINDEX (Number ifindex)) t
               in if r < 0 then channel_out env m (- ENOBUFS) t else
                  let (r, t) = nl env (Nla_Put_U32 m NL80211_ATTR_WIPHY_FREQ (Number freq)) t
                  in if r < 0 then channel_out env m (- ENOBUFS) t else
                     let (r, t) = nl env (Nla_Put_U32 m NL80211_ATTR_WIPHY_CHANNEL_TYPE NL80211_CHAN_HT40PLUS) t
                     in if r < 0 then channel_out env m (- ENOBUFS) t else
                        let (err, t) = nl env (Nl_Send_Auto_Complete (nl80211_socket s) m) t
                        in if err < 0 then channel_out env m err t else
                           let (err, t) = nl env (Nl_Recvmsgs_Default (nl80211_socket s)) t
                           in channel_out env m err t))"

section \<open>Links\<close>

definition link_updown :: "nl_env \<Rightarrow> nl_sockets \<Rightarrow> int \<Rightarrow> bool \<Rightarrow> nl_trace \<Rightarrow> int \<times> nl_trace" where
  "link_updown env s ifindex up t =
     (let (err, old, t) = nl_out env (Rtnl_Link_Get_Kernel (nlroute_socket s) ifindex None) t
      in if err < 0 then (err, t) else
         let (req, t) = nl env Rtnl_Link_Alloc t;
             (_, t) = (if up then nl env (Rtnl_Link_Set_Flags req ''up'') t
                       else nl env (Rtnl_Link_Set_Flags req ''down'') t);
             (_, t) = nl env (Rtnl_Link_Change (nlroute_socket s) old req) t;
             (_, t) = nl env (Rtnl_Link_Put old) t
         in (0, t))"

definition link_up :: "nl_env \<Rightarrow> nl_sockets \<Rightarrow> int \<Rightarrow> nl_trace \<Rightarrow> int \<times> nl_trace" where
  "link_up env s ifindex t = link_updown env s ifindex True t"

definition link_down :: "nl_env \<Rightarrow> nl_sockets \<Rightarrow> int \<Rightarrow> nl_trace \<Rightarrow> int \<times> nl_trace" where
  "link_down env s ifindex t = link_updown env s ifindex False t"

text \<open>
  \<open>memory\<close> is what a pointer the library returns refers to: \<^const>\<open>None\<close> where nothing can be read.
\<close>

definition link_ether_addr_get ::
  "nl_env \<Rightarrow> (int \<Rightarrow> ether_addr option) \<Rightarrow> nl_sockets \<Rightarrow> u8 list \<Rightarrow> ether_addr \<Rightarrow> nl_trace
   \<Rightarrow> (int \<times> ether_addr \<times> nl_trace) option" where
  "link_ether_addr_get env memory s ifname addr t =
     (let (err, link, t) = nl_out env (Rtnl_Link_Get_Kernel (nlroute_socket s) 0 (Some ifname)) t
      in if err < 0 then Some (err, addr, t) else
         let (nladdr, t) = nl env (Rtnl_Link_Get_Addr link) t;
             (binary, t) = nl env (Nl_Addr_Get_Binary_Addr nladdr) t
         in do { a \<leftarrow> memory binary; Some (0, a, t) })"

text \<open>\<open>result\<close> is \<^const>\<open>None\<close> or the error number when \<^verbatim>\<open>gethostname\<close> fails.\<close>

definition get_hostname :: "int option \<Rightarrow> int" where
  "get_hostname result = (case result of Some errno \<Rightarrow> - errno | None \<Rightarrow> 0)"

section \<open>What is allocated and released\<close>

text \<open>The objects a sequence of calls was given, and those it gave back.\<close>

definition gains :: "nl_call \<times> nl_answer \<Rightarrow> int multiset" where
  "gains = (\<lambda>(c, r, out). case c of
      Nl_Socket_Alloc \<Rightarrow> if r \<noteq> 0 then {#r#} else {#}
    | Nlmsg_Alloc \<Rightarrow> if r \<noteq> 0 then {#r#} else {#}
    | Rtnl_Neigh_Alloc \<Rightarrow> if r \<noteq> 0 then {#r#} else {#}
    | Nl_Addr_Build _ _ \<Rightarrow> if r \<noteq> 0 then {#r#} else {#}
    | Rtnl_Link_Alloc \<Rightarrow> if r \<noteq> 0 then {#r#} else {#}
    | Rtnl_Link_Get_Kernel _ _ _ \<Rightarrow> if r \<ge> 0 then {#out#} else {#}
    | _ \<Rightarrow> {#})"

definition gives_back :: "nl_call \<times> nl_answer \<Rightarrow> int multiset" where
  "gives_back = (\<lambda>(c, r, out). case c of
      Nl_Socket_Free p \<Rightarrow> {#p#}
    | Nlmsg_Free p \<Rightarrow> {#p#}
    | Rtnl_Neigh_Put p \<Rightarrow> {#p#}
    | Nl_Addr_Put p \<Rightarrow> {#p#}
    | Rtnl_Link_Put p \<Rightarrow> {#p#}
    | _ \<Rightarrow> {#})"

definition gained :: "nl_trace \<Rightarrow> int multiset" where
  "gained t = sum_list (map gains t)"

definition given_back :: "nl_trace \<Rightarrow> int multiset" where
  "given_back t = sum_list (map gives_back t)"

lemma gained_simps [simp]: "gained [] = {#}" "gained (t @ u) = gained t + gained u" "gained (x # t) = gains x + gained t"
  by (simp_all add: gained_def)

lemma given_back_simps [simp]:
  "given_back [] = {#}" "given_back (t @ u) = given_back t + given_back u" "given_back (x # t) = gives_back x + given_back t"
  by (simp_all add: given_back_def)

lemmas nl_defs = nl_def nl_out_def gains_def gives_back_def

text \<open>A run that gives back what it was given, and one that gives back nothing.\<close>

definition released :: "nl_trace \<Rightarrow> nl_trace \<Rightarrow> bool" where
  "released t t' \<longleftrightarrow> gained t' + given_back t = given_back t' + gained t"

definition kept :: "nl_trace \<Rightarrow> nl_trace \<Rightarrow> bool" where
  "kept t t' \<longleftrightarrow> given_back t' = given_back t"

lemma set_monitor_mode_released: "set_monitor_mode env s ifindex t = (err, t') \<Longrightarrow> released t t'"
  by (auto simp: set_monitor_mode_def monitor_out_def released_def nl_defs Let_def case_prod_beta split: if_splits)

lemma set_channel_released: "set_channel env s ifindex channel t = Some (err, t') \<Longrightarrow> released t t'"
  by (auto simp: set_channel_def channel_out_def released_def nl_defs Let_def case_prod_beta split: if_splits)

lemma neighbor_add_released:
  "neighbor_add env s ifindex eth in6 t = (err, t') \<Longrightarrow> (if err = 0 then released t t' else kept t t')"
  by (auto simp: neighbor_add_def released_def kept_def nl_defs Let_def case_prod_beta split: if_splits)

lemma neighbor_remove_released:
  "neighbor_remove env s ifindex in6 t = (err, t') \<Longrightarrow> (if err = 0 then released t t' else kept t t')"
  by (auto simp: neighbor_remove_def released_def kept_def nl_defs Let_def case_prod_beta split: if_splits)

lemma set_channel_defined: "set_channel env s ifindex channel t = None \<longleftrightarrow> ieee80211_channel_to_frequency channel = 0"
  by (simp add: set_channel_def Let_def case_prod_beta)

text \<open>Both files build the same address.\<close>

lemma rfc4291_addr_eq: "rfc4291_addr eth = ether_addr_to_ipv6_addr eth"
  by (simp add: rfc4291_addr_def ether_addr_to_ipv6_addr_def)

section \<open>Properties\<close>

text \<open>
  C30: Whatever the netlink library answers, setting the monitor mode and setting a channel
  give back exactly the messages they were given, on every path. Adding and removing a
  neighbour do so only when they succeed; when they fail, they give nothing back. Setting a
  channel is undefined exactly for the channels without a frequency.
\<close>

theorem netlink_objects_released:
  "(case set_monitor_mode env s ifindex t of (err, t') \<Rightarrow> released t t')
   \<and> (case set_channel env s ifindex channel t of None \<Rightarrow> ieee80211_channel_to_frequency channel = 0
      | Some (err, t') \<Rightarrow> ieee80211_channel_to_frequency channel \<noteq> 0 \<and> released t t')
   \<and> (case neighbor_add env s ifindex eth in6 t of (err, t') \<Rightarrow> if err = 0 then released t t' else kept t t')
   \<and> (case neighbor_remove env s ifindex in6 t of (err, t') \<Rightarrow> if err = 0 then released t t' else kept t t')"
  using set_monitor_mode_released [of env s ifindex t] set_channel_released [of env s ifindex channel t]
    neighbor_add_released [of env s ifindex eth in6 t] neighbor_remove_released [of env s ifindex in6 t]
    set_channel_defined [of env s ifindex channel t]
  by (auto split: option.splits)

end
