(* ===== verification/Nan_Io.thy ===== *)
theory Nan_Io
  imports Nan_Netutils Nan_Rx_Frames
begin

text \<open>
  The devices of the daemon, \<^verbatim>\<open>src/daemon/io.c\<close>: opening them, and sending and receiving on
  them. The operating system and libpcap are not part of the repository: the results of their
  calls are the fields of the records \<open>pcap_lib\<close> and \<open>io_os\<close>, and the calls that matter
  outside the program are collected as outputs. The calls of netlink are those of
  \<^verbatim>\<open>netutils.c\<close>.
\<close>

section \<open>State and results\<close>

abbreviation (input) IFNAMSIZ :: nat where "IFNAMSIZ \<equiv> 16"
abbreviation (input) EINVAL :: int where "EINVAL \<equiv> 22"

record io_state =
  wlan_handle :: ptr
  wlan_ifname :: "u8 list"
  wlan_ifindex :: int
  wlan_fd :: int
  if_ether_addr :: ether_addr
  host_ifname :: "u8 list"
  host_ifindex :: int
  host_fd :: int
  dumpfile :: ptr
  no_monitor :: bool
  no_channel :: bool
  no_updown :: bool

text \<open>The watchers of the event loop.\<close>

datatype watcher = Send_Discovery_Beacon | Discovery_Window | Discovery_Window_End | Clean_Peers
  | Read_Wlan | Read_Host | Read_Stdin

text \<open>
  What the daemon does to its environment. Delays of timers are in microseconds: the code
  computes \<^verbatim>\<open>(double)USEC_TO_SEC(usec)\<close>, which the macro's missing parentheses make a division
  of floating point numbers.
\<close>

datatype daemon_output =
    Inject "u8 list"
  | Host_Write "u8 list"
  | Rearm watcher u64
  | Timer_Again watcher
  | Timer_Start watcher u64 u64
  | Io_Start watcher int
  | Dump_Frame "u8 list"
  | Close int
  | Pcap_Close ptr
  | Log_Message string

section \<open>Opening the wireless device\<close>

record pcap_lib =
  pcap_create :: "u8 list \<Rightarrow> ptr"
  pcap_activate :: "ptr \<Rightarrow> int"
  pcap_setnonblock :: "ptr \<Rightarrow> int"
  pcap_setdirection :: "ptr \<Rightarrow> int"
  pcap_datalink :: "ptr \<Rightarrow> int"
  pcap_compile :: "ptr \<Rightarrow> ether_addr \<Rightarrow> int"
  pcap_setfilter :: "ptr \<Rightarrow> ether_addr \<Rightarrow> int"
  pcap_get_selectable_fd :: "ptr \<Rightarrow> int"
  DLT_IEEE802_11_RADIO :: int

text \<open>The result, the handle when it is stored, and the handles that were closed.\<close>

definition open_nonblocking_device ::
  "pcap_lib \<Rightarrow> u8 list \<Rightarrow> ether_addr option \<Rightarrow> int \<times> ptr option \<times> ptr list" where
  "open_nonblocking_device pc dev bssid_filter =
     (let handle = pcap_create pc dev in
      if handle = NULL then (- 1, None, [])
      else if pcap_activate pc handle < 0 then (- 1, None, [handle])
      else if pcap_setnonblock pc handle < 0 then (- 1, None, [handle])
      else if pcap_datalink pc handle \<noteq> DLT_IEEE802_11_RADIO pc then (- 1, None, [handle])
      else if (case bssid_filter of None \<Rightarrow> False | Some a \<Rightarrow> pcap_compile pc handle a < 0) then (- 1, None, [])
      else if (case bssid_filter of None \<Rightarrow> False | Some a \<Rightarrow> pcap_setfilter pc handle a < 0) then (- 1, None, [])
      else let fd = pcap_get_selectable_fd pc handle in
           if fd < 0 then (- 1, None, []) else (fd, Some handle, []))"

section \<open>Opening the host device\<close>

text \<open>
  \<open>dev\<close> is the array with the name, which the kernel completes. The record has the results of
  the system calls on the tun device, in the order the function makes them; \<open>socket\<close>'s result is
  not tested.
\<close>

record tun_os =
  tun_open :: int
  tun_setiff :: "u8 list \<Rightarrow> int"
  tun_ifname :: "u8 list \<Rightarrow> u8 list"
  tun_nonblock :: int
  tun_socket :: int
  tun_sethwaddr :: "ether_addr \<Rightarrow> int"
  tun_setflags :: int
  tun_setmtu :: "nat \<Rightarrow> int"

text \<open>The result, the name and the descriptors that were closed.\<close>

definition open_tun :: "tun_os \<Rightarrow> u8 list \<Rightarrow> ether_addr \<Rightarrow> (int \<times> u8 list \<times> int list) option" where
  "open_tun os dev self =
     (let fd = tun_open os in
      if fd < 0 then Some (fd, dev, [])
      else do { name \<leftarrow> (if dev \<noteq> [] \<and> hd dev \<noteq> 0
                        then strncpy (replicate IFNAMSIZ 0) (takeWhile (\<lambda>c. c \<noteq> 0) dev) IFNAMSIZ
                        else Some (replicate IFNAMSIZ 0));
                let err = tun_setiff os name;
                if err < 0 then Some (err, dev, [fd])
                else do { let name = tun_ifname os name;
                          dev \<leftarrow> mem_store dev 0 (takeWhile (\<lambda>c. c \<noteq> 0) name @ [0]);
                          let err = tun_nonblock os;
                          if err < 0 then Some (err, dev, [fd])
                          else let err = tun_sethwaddr os self in
                               if err < 0 then Some (err, dev, [fd])
                          else let err = tun_setflags os in
                               if err < 0 then Some (err, dev, [fd])
                          else let err = tun_setmtu os 1450 in
                               if err < 0 then Some (err, dev, [fd])
                          else Some (fd, dev, [tun_socket os]) } })"

section \<open>Initialisation\<close>

record io_os =
  os_if_nametoindex :: "u8 list \<Rightarrow> int"
  os_netlink :: nl_env
  os_ether_addr_at :: "int \<Rightarrow> ether_addr option"
  os_pcap :: pcap_lib
  os_tun :: tun_os

text \<open>\<open>strcpy\<close> of the characters \<open>src\<close>; \<^const>\<open>None\<close> when the array is too short.\<close>

definition strcpy :: "u8 list \<Rightarrow> u8 list \<Rightarrow> u8 list option" where
  "strcpy dst src = mem_store dst 0 (src @ [0])"

text \<open>
  The message for a link that cannot be set up ends with an incomplete conversion, \<^verbatim>\<open>"%"\<close>, which
  is undefined.
\<close>

definition io_state_init_wlan ::
  "io_os \<Rightarrow> nl_sockets \<Rightarrow> io_state \<Rightarrow> u8 list \<Rightarrow> int \<Rightarrow> ether_addr option \<Rightarrow> nl_trace
   \<Rightarrow> (int \<times> io_state \<times> nl_trace) option" where
  "io_state_init_wlan os s state wlan channel bssid_filter t =
     do { name \<leftarrow> strcpy (wlan_ifname state) wlan;
          let state = state\<lparr>wlan_ifname := name\<rparr>;
          let state = state\<lparr>wlan_ifindex := os_if_nametoindex os wlan\<rparr>;
          let i = wlan_ifindex state;
          if i = 0 then Some (- ENOENT, state, t) else
          let (err, t) = (if \<not> no_updown state then link_down (os_netlink os) s i t else (0, t)) in
          if err < 0 then Some (- 1, state, t) else
          let (err, t) = (if \<not> no_monitor state then set_monitor_mode (os_netlink os) s i t else (0, t)) in
          if err < 0 then Some (- 1, state, t) else
          let (err, t) = (if \<not> no_updown state then link_up (os_netlink os) s i t else (0, t)) in
          if err < 0 then None else
          do { (err, t) \<leftarrow> (if \<not> no_channel state then set_channel (os_netlink os) s i channel t else Some (0, t));
               if err \<noteq> 0 then Some (- 1, state, t) else
               let (fd, handle, _) = open_nonblocking_device (os_pcap os) wlan bssid_filter;
                   state = state\<lparr>wlan_handle := (case handle of None \<Rightarrow> wlan_handle state | Some h \<Rightarrow> h)\<rparr>;
                   state = state\<lparr>wlan_fd := fd\<rparr>
               in if fd < 0 then Some (- 1, state, t) else
                  do { (err, a, t) \<leftarrow> link_ether_addr_get (os_netlink os) (os_ether_addr_at os) s wlan (if_ether_addr state) t;
                       let state = state\<lparr>if_ether_addr := a\<rparr>;
                       if err < 0 then Some (- 1, state, t) else Some (0, state, t) } } }"

definition io_state_init_host :: "io_os \<Rightarrow> io_state \<Rightarrow> u8 list \<Rightarrow> (int \<times> io_state) option" where
  "io_state_init_host os state host =
     (if 0 < length host then
        do { name \<leftarrow> strcpy (host_ifname state) host;
             (fd, name, _) \<leftarrow> open_tun (os_tun os) name (if_ether_addr state);
             let state = state\<lparr>host_ifname := name, host_fd := fd\<rparr>;
             if fd < 0 then Some (fd, state)
             else let state = state\<lparr>host_ifindex := os_if_nametoindex os (takeWhile (\<lambda>c. c \<noteq> 0) name)\<rparr>
                  in if host_ifindex state = 0 then Some (- ENOENT, state) else Some (0, state) }
      else Some (0, state))"

definition io_state_init ::
  "io_os \<Rightarrow> nl_sockets \<Rightarrow> io_state \<Rightarrow> u8 list \<Rightarrow> u8 list \<Rightarrow> int \<Rightarrow> ether_addr option \<Rightarrow> nl_trace
   \<Rightarrow> (int \<times> io_state \<times> nl_trace) option" where
  "io_state_init os s state wlan host channel bssid_filter t =
     do { (err, state, t) \<leftarrow> io_state_init_wlan os s state wlan channel bssid_filter t;
          if err \<noteq> 0 then Some (err, state, t)
          else do { (err, state) \<leftarrow> io_state_init_host os state host;
                    if err \<noteq> 0 then Some (err, state, t) else Some (0, state, t) } }"

definition io_state_free :: "io_state \<Rightarrow> daemon_output list" where
  "io_state_free state = [Close (host_fd state), Pcap_Close (wlan_handle state)]"

section \<open>Sending and receiving\<close>

text \<open>\<open>inject\<close> is the result of \<^verbatim>\<open>pcap_inject\<close> on the bytes given to it.\<close>

definition wlan_send :: "(u8 list \<Rightarrow> int) \<Rightarrow> io_state \<Rightarrow> u8 list \<Rightarrow> int \<times> daemon_output list" where
  "wlan_send inject state bytes =
     (if wlan_handle state = NULL then (- EINVAL, []) else (inject bytes, [Inject bytes]))"

text \<open>\<open>write_errno\<close> is \<^const>\<open>None\<close> when \<^verbatim>\<open>write\<close> succeeds.\<close>

definition host_send :: "int option \<Rightarrow> io_state \<Rightarrow> u8 list \<Rightarrow> int \<times> daemon_output list" where
  "host_send write_errno state bytes =
     (if host_fd state = 0 then (- EINVAL, [])
      else case write_errno of Some e \<Rightarrow> (- e, [Host_Write bytes]) | None \<Rightarrow> (0, [Host_Write bytes]))"

text \<open>
  What \<^verbatim>\<open>read\<close> yields for at most \<open>n\<close> bytes: an error number or the bytes, which are stored
  from the buffer's offset \<open>i\<close> on.
\<close>

definition host_receive ::
  "(nat \<Rightarrow> int + u8 list) \<Rightarrow> io_state \<Rightarrow> u8 list \<Rightarrow> nat \<Rightarrow> int \<Rightarrow> (int \<times> u8 list \<times> int) option" where
  "host_receive rd state mem i len =
     (if host_fd state = 0 then Some (- EINVAL, mem, len)
      else case rd (nat len) of
             Inl errno \<Rightarrow> Some (- errno, mem, len)
           | Inr bytes \<Rightarrow> do { mem \<leftarrow> mem_store mem i bytes; Some (0, mem, int (length bytes)) })"

end
