(* ===== verification/Nan_Daemon.thy ===== *)
theory Nan_Daemon
  imports Nan_Io Nan_Cmd
begin

text \<open>
  The handlers of the daemon's event loop, \<^verbatim>\<open>src/daemon/core.c\<close>. A handler takes the state of
  the daemon, the memory and what the clock showed when it read it, and yields the new state,
  the new memory and the outputs in order. Frames are allocated in \<open>mm_frames\<close>, so a buffer
  that is not freed stays there. The calls of netlink are in \<open>ds_netlink\<close>, in order; \<open>env\<close>
  answers them. What is written to the log is left out.
\<close>

section \<open>State\<close>

text \<open>
  The last three fields are the static variables of \<^verbatim>\<open>log.c\<close> and of \<^verbatim>\<open>netutils.c\<close>, and the
  calls of netlink that were made.
\<close>

record daemon_state =
  ds_nan :: nan_state
  ds_io :: io_state
  ds_start_time_usec :: u64
  ds_dump :: bool
  ds_last_cmd :: "string option"
  ds_log :: log_state
  ds_sockets :: nl_sockets
  ds_netlink :: nl_trace

text \<open>The addresses of the two callbacks and of the \<^verbatim>\<open>io_state\<close> they get.\<close>

abbreviation (input) NAN_NEIGHBOR_ADD :: ptr where "NAN_NEIGHBOR_ADD \<equiv> 1"
abbreviation (input) NAN_NEIGHBOR_REMOVE :: ptr where "NAN_NEIGHBOR_REMOVE \<equiv> 2"
abbreviation (input) IO_STATE :: ptr where "IO_STATE \<equiv> 1"

definition nan_neighbor_add :: "nl_env \<Rightarrow> nl_sockets \<Rightarrow> io_state \<Rightarrow> nan_peer \<Rightarrow> nl_trace \<Rightarrow> nl_trace" where
  "nan_neighbor_add env s io peer t = snd (neighbor_add env s (host_ifindex io) (pe_addr peer) (pe_ipv6_addr peer) t)"

definition nan_neighbor_remove :: "nl_env \<Rightarrow> nl_sockets \<Rightarrow> io_state \<Rightarrow> nan_peer \<Rightarrow> nl_trace \<Rightarrow> nl_trace" where
  "nan_neighbor_remove env s io peer t = snd (neighbor_remove env s (host_ifindex io) (pe_ipv6_addr peer) t)"

text \<open>
  The calls of the peer callbacks that a function made; \<open>h\<close> has the peers they were called
  with. The callbacks read only addresses, which no function changes.
\<close>

fun run_peer_calls ::
  "nl_env \<Rightarrow> nl_sockets \<Rightarrow> io_state \<Rightarrow> peer_heap \<Rightarrow> peer_call list \<Rightarrow> nl_trace \<Rightarrow> nl_trace option" where
  "run_peer_calls env s io h [] t = Some t"
| "run_peer_calls env s io h ((f, peer, data) # calls) t =
     do { v \<leftarrow> cells h peer;
          t \<leftarrow> (if data \<noteq> IO_STATE then None
               else if f = NAN_NEIGHBOR_ADD then Some (nan_neighbor_add env s io v t)
               else if f = NAN_NEIGHBOR_REMOVE then Some (nan_neighbor_remove env s io v t)
               else None);
          run_peer_calls env s io h calls t }"

definition call_peers ::
  "nl_env \<Rightarrow> peer_heap \<Rightarrow> peer_call list \<Rightarrow> daemon_state \<Rightarrow> daemon_state option" where
  "call_peers env h calls state =
     map_option (\<lambda>t. state\<lparr>ds_netlink := t\<rparr>) (run_peer_calls env (ds_sockets state) (ds_io state) h calls (ds_netlink state))"

section \<open>Initialisation\<close>

text \<open>
  \<open>host_name\<close> is what \<^verbatim>\<open>gethostname\<close> yields: an error number or the name. \<open>array\<close> and \<open>cb\<close> are the memory of the ring buffer, and \<open>r\<close> is the
  generator that \<^verbatim>\<open>srand\<close> seeded.
\<close>

definition nan_init ::
  "io_os \<Rightarrow> int + u8 list \<Rightarrow> ptr list \<Rightarrow> circular_buf \<Rightarrow> rng \<Rightarrow> daemon_state \<Rightarrow> u8 list \<Rightarrow> u8 list \<Rightarrow> int
   \<Rightarrow> bool \<Rightarrow> u64 \<Rightarrow> (int \<times> daemon_state \<times> rng) option" where
  "nan_init os host_name array cb r state wlan host channel dump now_usec =
     (let (err, s, t) = netutils_init (os_netlink os) (ds_sockets state) (ds_netlink state);
          state = state\<lparr>ds_sockets := s, ds_netlink := t\<rparr>
      in if err \<noteq> 0 then Some (err, state, r)
      else do { (err, io, t) \<leftarrow> io_state_init os s (ds_io state) wlan host channel None t;
                let state = state\<lparr>ds_io := io, ds_netlink := t\<rparr>;
                if err \<noteq> 0 then Some (err, state, r)
                else case host_name of Inl errno \<Rightarrow> Some (- errno, state, r)
                | Inr hostname \<Rightarrow>
                    do { (ns, r) \<leftarrow> init_nan_state array cb (ds_nan state) r hostname (if_ether_addr io) channel now_usec;
                         let ps = nan_peer_set_callbacks (st_peers ns) NAN_NEIGHBOR_ADD IO_STATE
                                    NAN_NEIGHBOR_REMOVE IO_STATE;
                         Some (0, state\<lparr>ds_nan := ns\<lparr>st_peers := ps\<rparr>, ds_dump := dump, ds_last_cmd := None\<rparr>, r) } })"

definition nan_free :: "nl_env \<Rightarrow> daemon_state \<Rightarrow> daemon_state \<times> daemon_output list" where
  "nan_free env state = (state\<lparr>ds_last_cmd := None, ds_netlink := netutils_cleanup env (ds_sockets state) (ds_netlink state)\<rparr>,
     io_state_free (ds_io state))"

definition ev_timer_rearm_usec :: "watcher \<Rightarrow> u64 \<Rightarrow> daemon_output list" where
  "ev_timer_rearm_usec timer in_usec = [Rearm timer in_usec]"

text \<open>\<open>fd\<close> is the descriptor of the standard input.\<close>

definition nan_schedule :: "int \<Rightarrow> daemon_state \<Rightarrow> daemon_output list" where
  "nan_schedule stdin_fd state =
     [Timer_Start Send_Discovery_Beacon 0 0, Timer_Start Discovery_Window 0 0,
      Timer_Start Clean_Peers 0 (clean_interval_usec (st_peers (ds_nan state))),
      Io_Start Read_Wlan (wlan_fd (ds_io state)), Io_Start Read_Host (host_fd (ds_io state)),
      Io_Start Read_Stdin stdin_fd]"

section \<open>Sending\<close>

text \<open>
  The bytes passed to \<^verbatim>\<open>wlan_send\<close> for a finished frame: from \<^verbatim>\<open>buf_data\<close> on, \<^verbatim>\<open>buf_position\<close>
  many. The length is an \<^verbatim>\<open>int\<close>, which \<^verbatim>\<open>pcap_inject\<close> converts back to \<^verbatim>\<open>size_t\<close>.
\<close>

definition frame_bytes :: "buf \<Rightarrow> u8 list option" where
  "frame_bytes b = mem_load (bdata b) (nat (buf_data b))
     (unat (word_of_int (c_int (uint (buf_position b))) :: size_t))"

text \<open>The buffer is allocated and never freed. \<open>junk\<close> is its memory.\<close>

definition nan_send_beacon ::
  "'it radiotap_lib \<Rightarrow> (u8 list \<Rightarrow> int) \<Rightarrow> (nat \<Rightarrow> u8) \<Rightarrow> daemon_state \<Rightarrow> nan_memory \<Rightarrow> nan_beacon_type \<Rightarrow> u64
   \<Rightarrow> (daemon_state \<times> nan_memory \<times> daemon_output list) option" where
  "nan_send_beacon rt inject junk state mem type now_usec =
     (let (buf, fh) = store_alloc (buf_new_owned junk BUF_MAX_LENGTH) (mm_frames mem)
      in do { b \<leftarrow> cells fh buf;
              (b, ns) \<leftarrow> nan_build_beacon_frame rt b (ds_nan state) type now_usec;
              fh \<leftarrow> store_put buf b fh;
              let state = state\<lparr>ds_nan := ns\<rparr>;
              let mem = mem\<lparr>mm_frames := fh\<rparr>;
              if buf_error b < 0 then Some (state, mem, [])
              else do { bytes \<leftarrow> frame_bytes b;
                        let (err, out) = wlan_send inject (ds_io state) bytes;
                        Some (state, mem, out) } })"

definition nan_send_discovery_beacon ::
  "'it radiotap_lib \<Rightarrow> (u8 list \<Rightarrow> int) \<Rightarrow> (nat \<Rightarrow> u8) \<Rightarrow> daemon_state \<Rightarrow> nan_memory \<Rightarrow> u64
   \<Rightarrow> (daemon_state \<times> nan_memory \<times> daemon_output list) option" where
  "nan_send_discovery_beacon rt inject junk state mem now_usec =
     do { (state, mem, out) \<leftarrow>
            (if nan_can_send_discovery_beacon (ds_nan state) now_usec
             then do { (state, mem, out) \<leftarrow> nan_send_beacon rt inject junk state mem NAN_DISCOVERY_BEACON now_usec;
                       let ns = ds_nan state;
                       Some (state\<lparr>ds_nan := ns\<lparr>st_timer :=
                               nan_timer_set_last_discovery_beacon_usec (st_timer ns) now_usec\<rparr>\<rparr>, mem, out) }
             else Some (state, mem, []));
          let next_beacon_time_usec = nan_timer_next_discovery_beacon_usec (st_timer (ds_nan state)) now_usec;
          Some (state, mem, out @ ev_timer_rearm_usec Send_Discovery_Beacon next_beacon_time_usec) }"

partial_function (option) nan_send_buffered_frames_loop ::
  "(u8 list \<Rightarrow> int) \<Rightarrow> io_state \<Rightarrow> circular_buf \<Rightarrow> buf store \<Rightarrow> daemon_output list
   \<Rightarrow> (circular_buf \<times> buf store \<times> daemon_output list) option" where
  "nan_send_buffered_frames_loop inject io cb fh out =
     (case circular_buf_get cb False of None \<Rightarrow> None
      | Some (r, buf, cb') \<Rightarrow>
          if r \<noteq> - 1
          then (case Option.bind (cells fh buf) frame_bytes of None \<Rightarrow> None
                | Some bytes \<Rightarrow>
                    (case store_free buf fh of None \<Rightarrow> None
                     | Some fh' \<Rightarrow>
                         nan_send_buffered_frames_loop inject io cb' fh' (out @ snd (wlan_send inject io bytes))))
          else Some (cb', fh, out))"

definition nan_send_buffered_frames ::
  "(u8 list \<Rightarrow> int) \<Rightarrow> daemon_state \<Rightarrow> nan_memory \<Rightarrow> (daemon_state \<times> nan_memory \<times> daemon_output list) option" where
  "nan_send_buffered_frames inject state mem =
     do { (cb, fh, out) \<leftarrow> nan_send_buffered_frames_loop inject (ds_io state) (st_buffer (ds_nan state)) (mm_frames mem) [];
          let ns = ds_nan state;
          Some (state\<lparr>ds_nan := ns\<lparr>st_buffer := cb\<rparr>\<rparr>, mem\<lparr>mm_frames := fh\<rparr>, out) }"

definition nan_send_service_discovery_frame ::
  "'it radiotap_lib \<Rightarrow> (u8 list \<Rightarrow> int) \<Rightarrow> (nat \<Rightarrow> u8) \<Rightarrow> daemon_state \<Rightarrow> nan_memory
   \<Rightarrow> (daemon_state \<times> nan_memory \<times> daemon_output list) option" where
  "nan_send_service_discovery_frame rt inject junk state mem =
     do { announced_services \<leftarrow> nan_get_services_to_announce (st_services (ds_nan state)) (mm_services mem) [];
          if 0 < length announced_services then
            (let (buf, fh) = store_alloc (buf_new_owned junk BUF_MAX_LENGTH) (mm_frames mem)
             in do { b \<leftarrow> cells fh buf;
                     (b, ns) \<leftarrow> nan_build_service_discovery_frame rt b (ds_nan state) (mm_services mem)
                                 NAN_NETWORK_ID (Some announced_services);
                     fh \<leftarrow> store_put buf b fh;
                     bytes \<leftarrow> frame_bytes b;
                     let (err, out) = wlan_send inject (ds_io state) bytes;
                     fh \<leftarrow> store_free buf fh;
                     sh \<leftarrow> nan_update_announced_services announced_services (mm_services mem);
                     Some (state\<lparr>ds_nan := ns\<rparr>, mem\<lparr>mm_frames := fh, mm_services := sh\<rparr>, out) })
          else Some (state, mem, []) }"

section \<open>Timers\<close>

text \<open>The clock is read again after sending: \<open>later_usec\<close>.\<close>

definition nan_handle_discovery_window ::
  "'it radiotap_lib \<Rightarrow> (u8 list \<Rightarrow> int) \<Rightarrow> (nat \<Rightarrow> u8) \<Rightarrow> daemon_state \<Rightarrow> nan_memory \<Rightarrow> u64 \<Rightarrow> u64
   \<Rightarrow> (daemon_state \<times> nan_memory \<times> daemon_output list) option" where
  "nan_handle_discovery_window rt inject junk state mem now_usec later_usec =
     (let timer = st_timer (ds_nan state) in
      if \<not> nan_timer_in_dw timer now_usec \<or> \<not> nan_timer_initial_scan_done timer now_usec
      then Some (state, mem, ev_timer_rearm_usec Discovery_Window (nan_timer_next_dw_usec timer now_usec))
      else do { (state, mem, out1) \<leftarrow> nan_send_beacon rt inject junk state mem NAN_SYNC_BEACON now_usec;
                (state, mem, out2) \<leftarrow> nan_send_buffered_frames inject state mem;
                (state, mem, out3) \<leftarrow> nan_send_service_discovery_frame rt inject junk state mem;
                let timer = st_timer (ds_nan state);
                let dw_end_usec = nan_timer_dw_end_usec timer later_usec;
                let next_dw_usec = nan_timer_next_dw_usec timer later_usec;
                Some (state, mem, out1 @ out2 @ out3 @ ev_timer_rearm_usec Discovery_Window_End dw_end_usec
                        @ ev_timer_rearm_usec Discovery_Window next_dw_usec) })"

definition nan_handle_discovery_window_end ::
  "daemon_state \<Rightarrow> nan_memory \<Rightarrow> u64 \<Rightarrow> (daemon_state \<times> nan_memory \<times> daemon_output list) option" where
  "nan_handle_discovery_window_end state mem now_usec =
     do { let ns = ds_nan state;
          sync \<leftarrow> nan_master_election (st_sync ns) (peers (st_peers ns)) (mm_peers mem) now_usec;
          Some (state\<lparr>ds_nan := ns\<lparr>st_sync := nan_check_anchor_master_expiration sync\<rparr>\<rparr>, mem, []) }"

definition nan_clean_peers ::
  "nl_env \<Rightarrow> daemon_state \<Rightarrow> nan_memory \<Rightarrow> u64 \<Rightarrow> (daemon_state \<times> nan_memory \<times> daemon_output list) option" where
  "nan_clean_peers env state mem now_usec =
     do { let ns = ds_nan state;
          (ps, ph, calls) \<leftarrow> nan_peers_clean (st_peers ns) (mm_peers mem) now_usec;
          state \<leftarrow> call_peers env (mm_peers mem) calls state;
          Some (state\<lparr>ds_nan := ns\<lparr>st_peers := ps\<rparr>\<rparr>, mem\<lparr>mm_peers := ph\<rparr>, [Timer_Again Clean_Peers]) }"

section \<open>Receiving\<close>

text \<open>
  A captured frame of \<open>caplen\<close> bytes. The listeners of the commands run in the middle of the
  reception; \<open>frame_junk\<close> is the memory of the frames they allocate. They leave the peers alone, so
  that the calls for peers come after them here.
\<close>

definition nan_receive_frame ::
  "'it radiotap_lib \<Rightarrow> nl_env \<Rightarrow> rx_junk \<Rightarrow> (ptr \<Rightarrow> nat \<Rightarrow> u8) \<Rightarrow> daemon_state \<Rightarrow> nan_memory \<Rightarrow> u8 list \<Rightarrow> u32 \<Rightarrow> u64
   \<Rightarrow> (daemon_state \<times> nan_memory \<times> daemon_output list) option" where
  "nan_receive_frame rt env j frame_junk state mem bytes caplen now_usec =
     do { let frame = buf_new_const bytes (ucast caplen);
          (result, frame, ns, mem, calls, events) \<leftarrow>
            nan_rx rt (call_listener rt frame_junk (ds_log state)) j frame (ds_nan state) mem now_usec;
          state \<leftarrow> call_peers env (mm_peers mem) calls state;
          let dump = (if result < rx_result_val RX_OK \<and> ds_dump state then [Dump_Frame bytes] else []);
          Some (state\<lparr>ds_nan := ns\<rparr>, mem, dump) }"

text \<open>\<^verbatim>\<open>pcap_dispatch\<close> reads at most one frame.\<close>

definition wlan_device_ready ::
  "'it radiotap_lib \<Rightarrow> nl_env \<Rightarrow> rx_junk \<Rightarrow> (ptr \<Rightarrow> nat \<Rightarrow> u8) \<Rightarrow> daemon_state \<Rightarrow> nan_memory \<Rightarrow> (u8 list \<times> u32) option
   \<Rightarrow> u64 \<Rightarrow> (daemon_state \<times> nan_memory \<times> daemon_output list) option" where
  "wlan_device_ready rt env j frame_junk state mem packet now_usec =
     (case packet of None \<Rightarrow> Some (state, mem, [])
      | Some (bytes, caplen) \<Rightarrow> nan_receive_frame rt env j frame_junk state mem bytes caplen now_usec)"

abbreviation (input) ETHER_MAX_LEN :: size_t where "ETHER_MAX_LEN \<equiv> 1518"

text \<open>
  A frame from the host device. \<open>rd\<close> is what reading yields, \<open>junk\<close> the memory of the buffer,
  \<open>dst\<close> what the destination holds before it is read, and \<open>write_errno\<close> the result of writing.
  The cursor of the buffer is not valid any more after the resize, so from six bytes on the code
  is undefined.
\<close>

definition host_device_ready ::
  "(nat \<Rightarrow> int + u8 list) \<Rightarrow> int option \<Rightarrow> (nat \<Rightarrow> u8) \<Rightarrow> ether_addr \<Rightarrow> daemon_state \<Rightarrow> nan_memory
   \<Rightarrow> (daemon_state \<times> nan_memory \<times> daemon_output list) option" where
  "host_device_ready rd write_errno junk dst state mem =
     do { let b = buf_new_owned junk ETHER_MAX_LEN;
          (err, data, size) \<leftarrow> host_receive rd (ds_io state) (bdata b) (unat (buf_current b)) (c_int (uint ETHER_MAX_LEN));
          let b = b\<lparr>bdata := data\<rparr>;
          if err < 0 then Some (state, mem, [])
          else do { let resized = buf_resize junk b (word_of_int size);
                    if size < 6 then Some (state, mem, [])
                    else do { b \<leftarrow> usable resized;
                              (_, destination, b) \<leftarrow> read_ether_addr b dst;
                              let is_multicast = hd (ether_addr_octet destination) AND 1 \<noteq> 0;
                              if is_multicast then Some (state, mem, [])
                              else if ether_addr_equal (st_self_address (ds_nan state)) destination
                              then do { bytes \<leftarrow> mem_load (bdata b) (nat (buf_data b)) (nat size);
                                        Some (state, mem, snd (host_send write_errno (ds_io state) bytes)) }
                              else do { (status, peer) \<leftarrow> nan_peer_get (st_peers (ds_nan state)) (mm_peers mem) destination;
                                        if status = PEER_MISSING then Some (state, mem, [])
                                        else do { v \<leftarrow> cells (mm_peers mem) peer; Some (state, mem, []) } } } } }"

section \<open>Commands\<close>

text \<open>
  \<^verbatim>\<open>fgets\<close>: the characters it reads, with their newline, are stored with a zero behind them. At
  the end of the input it reads none and stores nothing.
\<close>

definition fgets :: "char list \<Rightarrow> string \<Rightarrow> char list option" where
  "fgets buf line =
     (if line = [] then Some buf
      else if length line + 1 \<le> length buf then Some (line @ [CHR 0x00] @ drop (length line + 1) buf)
      else None)"

text \<open>
  The search for the newline has no bound. \<open>buf\<close> is the array before the line is read; the
  service and the hash context are the memory a publication uses.
\<close>

definition stdin_ready ::
  "nl_env \<Rightarrow> u64 \<Rightarrow> nan_service \<Rightarrow> sha256_context \<Rightarrow> char list \<Rightarrow> string \<Rightarrow> daemon_state \<Rightarrow> nan_memory
   \<Rightarrow> (daemon_state \<times> nan_memory \<times> daemon_output list) option" where
  "stdin_ready env now_usec junk sj buf line state mem =
     do { buf \<leftarrow> fgets buf line;
          if CHR 0x0A \<notin> set buf then None
          else do { let cmd = takeWhile (\<lambda>c. c \<noteq> CHR 0x00) (takeWhile (\<lambda>c. c \<noteq> CHR 0x0A) buf);
                    (ns, mem', last_cmd, log, calls, messages) \<leftarrow>
                      nan_handle_cmd junk sj now_usec (ds_log state) (ds_nan state) mem cmd (ds_last_cmd state);
                    state \<leftarrow> call_peers env (mm_peers mem) calls state;
                    Some (state\<lparr>ds_nan := ns, ds_last_cmd := last_cmd, ds_log := log\<rparr>, mem', map Log_Message messages) } }"

end
