(* ===== verification/Nan_Daemon_Steps.thy ===== *)
theory Nan_Daemon_Steps
  imports Nan_Daemon Nan_Cmd_Safety
begin

text \<open>
  The daemon as an event-driven system: every handler keeps the state well-formed and returns,
  what a discovery window sends, and both facts for sequences of events from the initialisation
  on. The locale \<open>event_system\<close> has what a handler promises; the daemon's handlers interpret it.
\<close>

section \<open>Event-driven systems\<close>

fun run_events :: "('e \<Rightarrow> 's \<Rightarrow> ('s \<times> 'o list) option) \<Rightarrow> 'e list \<Rightarrow> 's \<Rightarrow> ('s \<times> 'o list) option" where
  "run_events handle [] s = Some (s, [])"
| "run_events handle (e # es) s =
     do { (s, out) \<leftarrow> handle e s; (s, outs) \<leftarrow> run_events handle es s; Some (s, out @ outs) }"

text \<open>Every event is admissible when it occurs.\<close>

fun admissible_run :: "('e \<Rightarrow> 's \<Rightarrow> ('s \<times> 'o list) option) \<Rightarrow> ('s \<Rightarrow> 'e \<Rightarrow> bool) \<Rightarrow> 'e list \<Rightarrow> 's \<Rightarrow> bool" where
  "admissible_run handle adm [] s \<longleftrightarrow> True"
| "admissible_run handle adm (e # es) s \<longleftrightarrow> adm s e
     \<and> (case handle e s of None \<Rightarrow> True | Some (s, _) \<Rightarrow> admissible_run handle adm es s)"

locale event_system =
  fixes handle :: "'e \<Rightarrow> 's \<Rightarrow> ('s \<times> 'o list) option"
    and ok :: "'s \<Rightarrow> bool"
    and adm :: "'s \<Rightarrow> 'e \<Rightarrow> bool"
  assumes handled: "ok s \<Longrightarrow> adm s e \<Longrightarrow> \<exists>s' out. handle e s = Some (s', out) \<and> ok s'"
begin

lemma run_ok: "ok s \<Longrightarrow> admissible_run handle adm es s \<Longrightarrow> \<exists>s' out. run_events handle es s = Some (s', out) \<and> ok s'"
proof (induction es arbitrary: s)
  case Nil
  then show ?case by simp
next
  case (Cons e es)
  from Cons.prems have a: "adm s e" by simp
  from handled [OF Cons.prems(1) a] obtain s' out where "handle e s = Some (s', out)" "ok s'" by blast
  with Cons.IH [of s'] Cons.prems(2) show ?case by auto
qed

end

section \<open>Well-formed daemons\<close>

definition callbacks_set :: "nan_peer_state \<Rightarrow> bool" where
  "callbacks_set ps \<longleftrightarrow> peer_add_callback ps = NAN_NEIGHBOR_ADD \<and> peer_add_callback_data ps = IO_STATE
     \<and> peer_remove_callback ps = NAN_NEIGHBOR_REMOVE \<and> peer_remove_callback_data ps = IO_STATE"

definition daemon_ok :: "daemon_state \<times> nan_memory \<Rightarrow> bool" where
  "daemon_ok s \<longleftrightarrow> device_ok (ds_nan (fst s)) (snd s) \<and> callbacks_set (st_peers (ds_nan (fst s)))
     \<and> last_ok (ds_last_cmd (fst s)) \<and> all_known command_listener (ds_nan (fst s)) (snd s)"

lemmas daemon_defs = daemon_ok_def all_known_def

lemma peer_config_eqD:
  "peer_config ps = peer_config qs \<Longrightarrow> peer_add_callback ps = peer_add_callback qs
     \<and> peer_add_callback_data ps = peer_add_callback_data qs \<and> peer_remove_callback ps = peer_remove_callback qs
     \<and> peer_remove_callback_data ps = peer_remove_callback_data qs \<and> timeout_usec ps = timeout_usec qs"
  by (cases ps; cases qs) (simp add: peer_config_def)

lemma callbacks_config: "peer_config ps = peer_config qs \<Longrightarrow> callbacks_set ps = callbacks_set qs"
  using peer_config_eqD [of ps qs] by (auto simp: callbacks_set_def)

lemma run_add_calls:
  assumes "peers_ok ps h" "callbacks_set ps" "calls_ok ps calls"
  shows "run_peer_calls env s io h calls t = Some (fold (\<lambda>(_, p, _). nan_neighbor_add env s io (peer_at h p)) calls t)"
  using assms(3)
proof (induction calls arbitrary: t)
  case (Cons c calls)
  obtain f p d where c: "c = (f, p, d)" by (metis prod_cases3)
  with Cons.prems assms(2) have "p \<in> set (peers ps)" "f = NAN_NEIGHBOR_ADD" "d = IO_STATE" "calls_ok ps calls"
    by (auto simp: calls_ok_def callbacks_set_def)
  with Cons.IH show ?case by (simp add: c peers_ok_live [OF assms(1)])
qed simp

lemma run_remove_calls:
  assumes "\<forall>p \<in> set ps. cells h p \<noteq> None"
  shows "run_peer_calls env s io h (map (\<lambda>p. (NAN_NEIGHBOR_REMOVE, p, IO_STATE)) ps) t
    = Some (fold (\<lambda>p. nan_neighbor_remove env s io (peer_at h p)) ps t)"
  using assms by (induction ps arbitrary: t) (auto simp: peer_at_def)

text \<open>Calls of the callbacks change only what netlink was asked.\<close>

definition netlink_only :: "daemon_state \<Rightarrow> daemon_state \<Rightarrow> bool" where
  "netlink_only state state' \<longleftrightarrow> (\<exists>t. state' = state\<lparr>ds_netlink := t\<rparr>)"

lemma call_add_run:
  "peers_ok ps h \<Longrightarrow> callbacks_set ps \<Longrightarrow> calls_ok ps calls \<Longrightarrow>
     \<exists>state'. call_peers env h calls state = Some state' \<and> netlink_only state state'"
  by (auto simp: call_peers_def run_add_calls netlink_only_def)

lemma call_remove_run:
  "\<forall>p \<in> set ps. cells h p \<noteq> None \<Longrightarrow>
     \<exists>state'. call_peers env h (map (\<lambda>p. (NAN_NEIGHBOR_REMOVE, p, IO_STATE)) ps) state = Some state' \<and> netlink_only state state'"
  by (auto simp: call_peers_def netlink_only_def run_remove_calls simp del: One_nat_def)

section \<open>Cleaning peers and ending a window\<close>

lemma clean_peers_run:
  assumes ok: "daemon_ok (state, mem)"
  shows "\<exists>ps ph. nan_clean_peers env state mem now_usec
      = Some (state\<lparr>ds_nan := (ds_nan state)\<lparr>st_peers := ps\<rparr>,
          ds_netlink := fold (\<lambda>p. nan_neighbor_remove env (ds_sockets state) (ds_io state) (peer_at (mm_peers mem) p))
            (filter (stale (st_peers (ds_nan state)) (mm_peers mem) now_usec) (peers (st_peers (ds_nan state))))
            (ds_netlink state)\<rparr>, mem\<lparr>mm_peers := ph\<rparr>, [Timer_Again Clean_Peers])
    \<and> daemon_ok (state\<lparr>ds_nan := (ds_nan state)\<lparr>st_peers := ps\<rparr>,
          ds_netlink := fold (\<lambda>p. nan_neighbor_remove env (ds_sockets state) (ds_io state) (peer_at (mm_peers mem) p))
            (filter (stale (st_peers (ds_nan state)) (mm_peers mem) now_usec) (peers (st_peers (ds_nan state))))
            (ds_netlink state)\<rparr>, mem\<lparr>mm_peers := ph\<rparr>)"
proof -
  let ?ps = "st_peers (ds_nan state)" and ?h = "mm_peers mem"
  define qs where "qs = ?ps\<lparr>peers := filter (\<lambda>p. \<not> stale ?ps ?h now_usec p) (peers ?ps)\<rparr>"
  have cb: "callbacks_set ?ps" and dev: "device_ok (ds_nan state) mem" using ok by (simp_all add: daemon_defs)
  then have pok: "peers_ok ?ps ?h" and avg: "averages_ok ?ps ?h" by (simp_all add: device_defs)
  from nan_peers_clean_loop_spec [OF pok, of now_usec "[]"] cb obtain h' where
    run: "nan_peers_clean ?ps ?h now_usec
      = Some (qs, h', map (\<lambda>p. (NAN_NEIGHBOR_REMOVE, p, IO_STATE)) (filter (stale ?ps ?h now_usec) (peers ?ps)))"
    and ok': "peers_ok qs h'"
    and h': "\<forall>q. cells h' q = (if q \<in> set (peers ?ps) \<and> stale ?ps ?h now_usec q then None else cells ?h q)"
    by (auto simp: nan_peers_clean_def callbacks_set_def qs_def)
  have "averages_ok qs h'"
    unfolding averages_ok_def
  proof (intro allI impI)
    fix a v assume "lookup_peer qs h' a = Some v"
    then obtain p where p: "p \<in> set (peers qs)" "peer_at h' p = v" by (auto simp: lookup_peer_Some [OF ok'])
    then have "p \<in> set (peers ?ps)" "peer_at ?h p = v" using h' by (auto simp: qs_def peer_at_def)
    with averages_peer [OF pok avg] show "ma_inv (pe_rssi_average_state v)" by blast
  qed
  then have "daemon_ok (state\<lparr>ds_nan := (ds_nan state)\<lparr>st_peers := qs\<rparr>, ds_netlink := t\<rparr>, mem\<lparr>mm_peers := h'\<rparr>)" for t
    using dev ok' cb ok by (simp add: daemon_defs device_defs callbacks_set_def qs_def)
  moreover have "run_peer_calls env s io ?h
      (map (\<lambda>p. (NAN_NEIGHBOR_REMOVE, p, IO_STATE)) (filter (stale ?ps ?h now_usec) (peers ?ps))) t
      = Some (fold (\<lambda>p. nan_neighbor_remove env s io (peer_at ?h p)) (filter (stale ?ps ?h now_usec) (peers ?ps)) t)" for s io t
    using pok by (intro run_remove_calls) (auto simp: peers_ok_def)
  ultimately show ?thesis
    using run by (intro exI [of _ qs] exI [of _ h']) (simp add: nan_clean_peers_def call_peers_def Let_def)
qed

lemma expiration_inv: "sync_inv s \<Longrightarrow> sync_inv (nan_check_anchor_master_expiration s)"
  using sync_inv_same_identity [OF _ expiration_identity expiration_rank] unfolding sync_inv_def by blast

lemma window_end_run:
  assumes ok: "daemon_ok (state, mem)"
  shows "\<exists>sync. nan_handle_discovery_window_end state mem now_usec
      = Some (state\<lparr>ds_nan := (ds_nan state)\<lparr>st_sync := sync\<rparr>\<rparr>, mem, [])
    \<and> daemon_ok (state\<lparr>ds_nan := (ds_nan state)\<lparr>st_sync := sync\<rparr>\<rparr>, mem)"
proof -
  have dev: "device_ok (ds_nan state) mem" and cb: "callbacks_set (st_peers (ds_nan state))"
    using ok by (simp_all add: daemon_defs)
  then have "\<forall>p \<in> set (peers (st_peers (ds_nan state))). cells (mm_peers mem) p \<noteq> None"
    by (simp add: device_defs peers_ok_def)
  from nan_master_election_next_role [OF this] obtain s1 where
    el: "nan_master_election (st_sync (ds_nan state)) (peers (st_peers (ds_nan state))) (mm_peers mem) now_usec = Some s1"
    by blast
  have "sync_inv (st_sync (ds_nan state))" using dev by (simp add: device_defs)
  then have "sync_inv (nan_check_anchor_master_expiration s1)"
    using election_inv [OF _ el] expiration_inv by blast
  then show ?thesis
    using dev cb ok by (intro exI [of _ "nan_check_anchor_master_expiration s1"])
      (simp add: nan_handle_discovery_window_end_def el daemon_defs device_defs Let_def)
qed

section \<open>Sending\<close>

text \<open>What reaches the air when bytes are sent: nothing without an open device.\<close>

definition injected :: "io_state \<Rightarrow> u8 list \<Rightarrow> daemon_output list" where
  "injected io bytes = (if wlan_handle io = NULL then [] else [Inject bytes])"

lemma snd_wlan_send [simp]: "snd (wlan_send inject io bytes) = injected io bytes"
  by (simp add: wlan_send_def injected_def)

lemma written_frame_bytes:
  assumes b: "wf_buf b" "bstart b = 0"
  shows "frame_bytes b = Some (written b)"
proof -
  obtain k e where k: "unat (bcurrent b) = k" "k \<le> e" "e \<le> length (bdata b)" "e < 2 ^ 31"
    using wf_bufE [OF b(1)] by metis
  then have "c_int (uint (bcurrent b)) = uint (bcurrent b)" by (simp add: c_int_uint)
  then show ?thesis
    using k b(2) by (simp add: frame_bytes_def wf_buf_position [OF b(1)] buf_data_def mem_load_def written_def)
qed

lemma filled_frame_bytes: "filled b ys n \<Longrightarrow> frame_bytes b = Some ys"
  by (simp add: filled_def written_frame_bytes)

lemma queue_ok_alloc: "queue_ok cb fh \<Longrightarrow> queue_ok cb (snd (store_alloc b fh))"
proof -
  assume q: "queue_ok cb fh"
  then have "brk fh \<notin> set (cbuf_contents cb)" using wf_store_fresh [of fh] by (auto simp: queue_ok_def)
  with q show ?thesis by (auto simp: queue_ok_def store_alloc_def wf_store_def less_Suc_eq)
qed

lemma daemon_ok_sent:
  "daemon_ok (state, mem) \<Longrightarrow> daemon_ok (state\<lparr>ds_nan := sent (ds_nan state)\<rparr>, mem)"
  by (simp add: daemon_defs device_defs)

lemma daemon_ok_frames:
  "daemon_ok (state, mem) \<Longrightarrow> queue_ok (st_buffer (ds_nan state)) fh \<Longrightarrow> daemon_ok (state, mem\<lparr>mm_frames := fh\<rparr>)"
  by (simp add: daemon_defs device_defs)

lemma length_beacon: "length (with_fcs ns (beacon_frame rt ns type now_usec)) \<le> 78"
  by (simp add: with_fcs_def beacon_frame_def beacon_payload_def attribute_bytes_def master_indication_body_def
      cluster_body_def length_radiotap_bytes)

lemma new_frame_filled: "k \<le> 65535 \<Longrightarrow> filled (buf_new_owned junk BUF_MAX_LENGTH) [] (k + (65535 - k))"
  using filled_of_new [of BUF_MAX_LENGTH k junk] by simp

lemma send_beacon_run:
  assumes rt: "radiotap_layout rt"
  shows "\<exists>b. nan_send_beacon rt inject junk state mem type now_usec
      = Some (state\<lparr>ds_nan := sent (ds_nan state)\<rparr>, mem\<lparr>mm_frames := snd (store_alloc b (mm_frames mem))\<rparr>,
          injected (ds_io state) (with_fcs (ds_nan state) (beacon_frame rt (ds_nan state) type now_usec)))"
proof -
  let ?bs = "with_fcs (ds_nan state) (beacon_frame rt (ds_nan state) type now_usec)"
  have "length ?bs \<le> 65535" using length_beacon [of "ds_nan state" rt type now_usec] by linarith
  from nan_build_beacon_frame_ok [OF rt new_frame_filled [OF this, of junk] refl] obtain b where
    b: "nan_build_beacon_frame rt (buf_new_owned junk BUF_MAX_LENGTH) (ds_nan state) type now_usec
        = Some (b, sent (ds_nan state))" "filled b ?bs (65535 - length ?bs)" by auto
  then have e: "\<not> buf_error b < 0" by (simp add: filled_def buf_error_def)
  show ?thesis
    by (intro exI [of _ b]) (simp add: nan_send_beacon_def store_alloc_def b(1) e filled_frame_bytes [OF b(2)]
        store_put_def case_prod_beta)
qed

lemma discovery_beacon_run:
  assumes rt: "radiotap_layout rt" and ok: "daemon_ok (state, mem)"
  shows "\<exists>state' mem' out. nan_send_discovery_beacon rt inject junk state mem now_usec = Some (state', mem', out)
    \<and> daemon_ok (state', mem')"
proof (cases "nan_can_send_discovery_beacon (ds_nan state) now_usec")
  case False
  then show ?thesis using ok by (simp add: nan_send_discovery_beacon_def)
next
  case True
  from send_beacon_run [OF rt, of inject junk state mem NAN_DISCOVERY_BEACON now_usec] obtain b where
    run: "nan_send_beacon rt inject junk state mem NAN_DISCOVERY_BEACON now_usec
      = Some (state\<lparr>ds_nan := sent (ds_nan state)\<rparr>, mem\<lparr>mm_frames := snd (store_alloc b (mm_frames mem))\<rparr>,
          injected (ds_io state) (with_fcs (ds_nan state) (beacon_frame rt (ds_nan state) NAN_DISCOVERY_BEACON now_usec)))"
    by blast
  have "queue_ok (st_buffer (ds_nan state)) (mm_frames mem)" using ok by (simp add: daemon_defs device_defs)
  from queue_ok_alloc [OF this, of b] True ok show ?thesis
    by (simp add: nan_send_discovery_beacon_def run daemon_defs device_defs
        nan_timer_set_last_discovery_beacon_usec_def error_window_def)
qed

text \<open>The queue is sent in order, emptied and freed.\<close>

definition queued_frame :: "buf store \<Rightarrow> ptr \<Rightarrow> u8 list" where
  "queued_frame fh p = (case cells fh p of None \<Rightarrow> [] | Some b \<Rightarrow> written b)"

lemma buffered_loop_run:
  assumes "queue_ok cb fh"
  shows "\<exists>cb' fh'. nan_send_buffered_frames_loop inject io cb fh out
      = Some (cb', fh', out @ concat (map (\<lambda>p. injected io (queued_frame fh p)) (cbuf_contents cb)))
    \<and> queue_ok cb' fh' \<and> cbuf_contents cb' = []
    \<and> cells fh' = (\<lambda>p. if p \<in> set (cbuf_contents cb) then None else cells fh p)"
  using assms
proof (induction "cbuf_contents cb" arbitrary: cb fh out)
  case Nil
  then have "circular_buf_empty cb" using cbuf_empty_iff [of cb] by (simp add: queue_ok_def)
  then have "nan_send_buffered_frames_loop inject io cb fh out = Some (cb, fh, out)"
    by (subst nan_send_buffered_frames_loop.simps) (simp add: circular_buf_get_def)
  then show ?case using Nil by (intro exI [of _ cb] exI [of _ fh]) simp
next
  case (Cons p ps)
  from Cons.prems have q: "cbuf_inv cb" "wf_store fh" "distinct (p # ps)"
      "\<forall>p \<in> set (p # ps). \<exists>b. cells fh p = Some b \<and> wf_buf b \<and> bstart b = 0"
    by (simp_all add: queue_ok_def flip: Cons.hyps(2))
  then obtain b where b: "cells fh p = Some b" "wf_buf b" "bstart b = 0" by auto
  from circular_buf_get_spec(2) [OF q(1) Cons.hyps(2) [symmetric]] obtain cb1 where
    get: "circular_buf_get cb False = Some (0, p, cb1)" and cb1: "cbuf_inv cb1" "cbuf_contents cb1 = ps" by auto
  define fh1 where "fh1 = fh\<lparr>cells := (cells fh)(p := None)\<rparr>"
  have free: "store_free p fh = Some fh1" using b(1) by (simp add: store_free_def fh1_def)
  have same: "\<forall>q \<in> set ps. cells fh1 q = cells fh q" using q(3) by (auto simp: fh1_def)
  have "queue_ok cb1 fh1" using cb1 q(3,4) same wf_store_free [OF q(2) free] by (auto simp: queue_ok_def)
  from Cons.hyps(1) [OF cb1(2) [symmetric] this, of "out @ injected io (written b)"] obtain cb' fh' where
    rest: "nan_send_buffered_frames_loop inject io cb1 fh1 (out @ injected io (written b))
        = Some (cb', fh', (out @ injected io (written b))
            @ concat (map (\<lambda>p. injected io (queued_frame fh1 p)) ps))"
      "queue_ok cb' fh'" "cbuf_contents cb' = []"
      "cells fh' = (\<lambda>q. if q \<in> set ps then None else cells fh1 q)" unfolding cb1(2) by blast
  have "queued_frame fh p = written b" using b(1) by (simp add: queued_frame_def)
  moreover have m: "map (\<lambda>p. injected io (queued_frame fh1 p)) ps = map (\<lambda>p. injected io (queued_frame fh p)) ps"
    using same by (simp add: queued_frame_def cong: map_cong)
  moreover have "cells fh' = (\<lambda>q. if q \<in> set (p # ps) then None else cells fh q)"
    unfolding rest(4) by (auto simp: fh1_def)
  moreover have "nan_send_buffered_frames_loop inject io cb fh out
      = nan_send_buffered_frames_loop inject io cb1 fh1 (out @ injected io (written b))"
    by (subst nan_send_buffered_frames_loop.simps) (simp add: get b written_frame_bytes free)
  ultimately show ?case
    using rest(1) [unfolded m] rest(2,3) by (intro exI [of _ cb'] exI [of _ fh']) (simp flip: Cons.hyps(2))
qed

text \<open>What is announced fits into a frame.\<close>

definition announcement_frame :: "'it radiotap_lib \<Rightarrow> nan_state \<Rightarrow> service_heap \<Rightarrow> u8 list" where
  "announcement_frame rt ns h =
     service_discovery_frame rt ns h NAN_NETWORK_ID (Some (announced (st_services ns) h))"

definition announcements_fit :: "'it radiotap_lib \<Rightarrow> nan_state \<Rightarrow> service_heap \<Rightarrow> bool" where
  "announcements_fit rt ns h \<longleftrightarrow> length (announcement_frame rt ns h) \<le> 65535"

lemma announcement_frame_buffer [simp]: "announcement_frame rt (ns\<lparr>st_buffer := cb\<rparr>) h = announcement_frame rt ns h"
  by (simp add: announcement_frame_def service_discovery_frame_def with_fcs_def service_discovery_header_def)

lemma announcements_fit_buffer [simp]: "announcements_fit rt (ns\<lparr>st_buffer := cb\<rparr>) h = announcements_fit rt ns h"
  by (simp add: announcements_fit_def)

lemma announcements_fit_sent [simp]: "announcements_fit rt (sent ns) h = announcements_fit rt ns h"
  by (simp add: announcements_fit_def announcement_frame_def service_discovery_frame_def length_with_fcs
      service_discovery_header_def length_radiotap_bytes)

lemma update_announced_ok:
  assumes "services_ok state h"
  shows "\<exists>h'. nan_update_announced_services (announced state h) h = Some h' \<and> services_ok state h'"
  using announce_round_ok [OF assms]
  by (auto simp: announce_round_def nan_get_services_to_announce_ok [OF assms] split: Option.bind_splits)

lemma service_discovery_run:
  assumes rt: "radiotap_layout rt" and ok: "daemon_ok (state, mem)"
    and fit: "announcements_fit rt (ds_nan state) (mm_services mem)"
  shows "\<exists>ns fh sh. nan_send_service_discovery_frame rt inject junk state mem
      = Some (state\<lparr>ds_nan := ns\<rparr>, mem\<lparr>mm_frames := fh, mm_services := sh\<rparr>,
          (if announced (st_services (ds_nan state)) (mm_services mem) = [] then []
           else injected (ds_io state) (announcement_frame rt (ds_nan state) (mm_services mem))))
    \<and> ns \<in> {ds_nan state, sent (ds_nan state)} \<and> cells fh = cells (mm_frames mem)
    \<and> nan_update_announced_services (announced (st_services (ds_nan state)) (mm_services mem)) (mm_services mem) = Some sh
    \<and> daemon_ok (state\<lparr>ds_nan := ns\<rparr>, mem\<lparr>mm_frames := fh, mm_services := sh\<rparr>)"
proof -
  let ?ns = "ds_nan state" and ?h = "mm_services mem" and ?fh = "mm_frames mem"
  define ps where "ps = announced (st_services ?ns) ?h"
  define bs where "bs = announcement_frame rt ?ns ?h"
  have dev: "services_ok (st_services ?ns) ?h" "queue_ok (st_buffer ?ns) ?fh"
    using ok by (simp_all add: daemon_defs device_defs)
  have get: "nan_get_services_to_announce (st_services ?ns) ?h [] = Some ps"
    by (simp add: nan_get_services_to_announce_ok [OF dev(1)] ps_def)
  from update_announced_ok [OF dev(1)] obtain sh where
    sh: "nan_update_announced_services ps ?h = Some sh" "services_ok (st_services ?ns) sh" unfolding ps_def by blast
  show ?thesis
  proof (cases "ps = []")
    case True
    then have "sh = ?h" using sh(1) by (simp add: nan_update_announced_services_def)
    moreover have "nan_send_service_discovery_frame rt inject junk state mem = Some (state, mem, [])"
      unfolding nan_send_service_discovery_frame_def get using True by simp
    ultimately show ?thesis
      using True ok sh(1) by (intro exI [of _ ?ns] exI [of _ ?fh] exI [of _ ?h]) (simp add: ps_def [symmetric])
  next
    case False
    have live: "\<forall>p \<in> set (case Some ps of Some ps \<Rightarrow> ps | None \<Rightarrow> []). \<exists>v. cells ?h p = Some v \<and> service_sendable v"
      using services_ok_live [OF dev(1)] services_ok_sendable [OF dev(1)] by (auto simp: ps_def announced_def)
    have "length bs \<le> 65535" using fit by (simp add: announcements_fit_def bs_def)
    from nan_build_service_discovery_frame_ok [OF rt _ live, of "buf_new_owned junk BUF_MAX_LENGTH" ?ns
        NAN_NETWORK_ID "65535 - length bs"] new_frame_filled [OF this, of junk]
    obtain b where b: "nan_build_service_discovery_frame rt (buf_new_owned junk BUF_MAX_LENGTH) ?ns ?h NAN_NETWORK_ID (Some ps)
        = Some (b, sent ?ns)" "filled b bs (65535 - length bs)"
      unfolding bs_def announcement_frame_def ps_def by blast
    define fh where "fh = ?fh\<lparr>cells := (cells ?fh)(brk ?fh := None), brk := Suc (brk ?fh)\<rparr>"
    have "cells ?fh (brk ?fh) = None" using dev(2) wf_store_fresh [of ?fh] by (simp add: queue_ok_def)
    then have same: "cells fh = cells ?fh" by (auto simp: fh_def)
    have "queue_ok (st_buffer ?ns) fh"
      using dev(2) unfolding queue_ok_def wf_store_def same by (auto simp: fh_def less_Suc_eq)
    then have "daemon_ok (state\<lparr>ds_nan := sent ?ns\<rparr>, mem\<lparr>mm_frames := fh, mm_services := sh\<rparr>)"
      using ok sh(2) by (simp add: daemon_defs device_defs)
    moreover have "nan_send_service_discovery_frame rt inject junk state mem
        = Some (state\<lparr>ds_nan := sent ?ns\<rparr>, mem\<lparr>mm_frames := fh, mm_services := sh\<rparr>, injected (ds_io state) bs)"
      unfolding nan_send_service_discovery_frame_def get using False
      by (simp add: store_alloc_def b(1) store_put_def filled_frame_bytes [OF b(2)] case_prod_beta store_free_def
          sh(1) fh_def)
    ultimately show ?thesis
      using False same sh(1) unfolding ps_def [symmetric] bs_def [symmetric]
      by (intro exI [of _ "sent ?ns"] exI [of _ fh] exI [of _ sh]) simp
  qed
qed

section \<open>The discovery window\<close>

definition window_open :: "nan_state \<Rightarrow> u64 \<Rightarrow> bool" where
  "window_open ns now_usec \<longleftrightarrow> nan_timer_in_dw (st_timer ns) now_usec \<and> nan_timer_initial_scan_done (st_timer ns) now_usec"

text \<open>What is sent in an open window, in this order.\<close>

definition window_frames :: "'it radiotap_lib \<Rightarrow> nan_state \<Rightarrow> nan_memory \<Rightarrow> u64 \<Rightarrow> u8 list list" where
  "window_frames rt ns mem now_usec =
     [with_fcs ns (beacon_frame rt ns NAN_SYNC_BEACON now_usec)]
     @ map (queued_frame (mm_frames mem)) (cbuf_contents (st_buffer ns))
     @ (if announced (st_services ns) (mm_services mem) = [] then []
        else [announcement_frame rt (sent ns) (mm_services mem)])"

lemma window_run:
  assumes rt: "radiotap_layout rt" and ok: "daemon_ok (state, mem)" and opn: "window_open (ds_nan state) now_usec"
    and fit: "announcements_fit rt (ds_nan state) (mm_services mem)"
  shows "\<exists>state' mem'. nan_handle_discovery_window rt inject junk state mem now_usec later_usec
      = Some (state', mem', concat (map (injected (ds_io state)) (window_frames rt (ds_nan state) mem now_usec))
          @ [Rearm Discovery_Window_End (nan_timer_dw_end_usec (st_timer (ds_nan state)) later_usec),
             Rearm Discovery_Window (nan_timer_next_dw_usec (st_timer (ds_nan state)) later_usec)])
    \<and> cbuf_contents (st_buffer (ds_nan state')) = []
    \<and> (\<forall>p \<in> set (cbuf_contents (st_buffer (ds_nan state))). cells (mm_frames mem') p = None)
    \<and> nan_update_announced_services (announced (st_services (ds_nan state)) (mm_services mem)) (mm_services mem)
        = Some (mm_services mem')
    \<and> daemon_ok (state', mem')"
proof -
  let ?ns = "ds_nan state" and ?io = "ds_io state" and ?h = "mm_services mem"
  have q: "queue_ok (st_buffer ?ns) (mm_frames mem)" using ok by (simp add: daemon_defs device_defs)
  from send_beacon_run [OF rt, of inject junk state mem NAN_SYNC_BEACON now_usec] obtain b where
    1: "nan_send_beacon rt inject junk state mem NAN_SYNC_BEACON now_usec
      = Some (state\<lparr>ds_nan := sent ?ns\<rparr>, mem\<lparr>mm_frames := snd (store_alloc b (mm_frames mem))\<rparr>,
          injected ?io (with_fcs ?ns (beacon_frame rt ?ns NAN_SYNC_BEACON now_usec)))" by blast
  define fh1 where "fh1 = snd (store_alloc b (mm_frames mem))"
  have q1: "queue_ok (st_buffer ?ns) fh1" using queue_ok_alloc [OF q] by (simp add: fh1_def)
  have same: "\<forall>p \<in> set (cbuf_contents (st_buffer ?ns)). queued_frame fh1 p = queued_frame (mm_frames mem) p"
    using q wf_store_fresh [of "mm_frames mem"]
    by (auto simp: queue_ok_def queued_frame_def fh1_def store_alloc_def)
  from buffered_loop_run [OF q1, of inject ?io "[]"] obtain cb fh2 where
    2: "nan_send_buffered_frames_loop inject ?io (st_buffer ?ns) fh1 []
        = Some (cb, fh2, concat (map (\<lambda>p. injected ?io (queued_frame fh1 p)) (cbuf_contents (st_buffer ?ns))))"
      "queue_ok cb fh2" "cbuf_contents cb = []"
      "cells fh2 = (\<lambda>p. if p \<in> set (cbuf_contents (st_buffer ?ns)) then None else cells fh1 p)" by auto
  have m: "map (\<lambda>p. injected ?io (queued_frame fh1 p)) (cbuf_contents (st_buffer ?ns))
      = map (\<lambda>p. injected ?io (queued_frame (mm_frames mem) p)) (cbuf_contents (st_buffer ?ns))"
    using same by (simp cong: map_cong)
  define state2 where "state2 = state\<lparr>ds_nan := (sent ?ns)\<lparr>st_buffer := cb\<rparr>\<rparr>"
  define mem2 where "mem2 = mem\<lparr>mm_frames := fh2\<rparr>"
  have ok2: "daemon_ok (state2, mem2)" using ok 2(2) by (simp add: daemon_defs device_defs state2_def mem2_def)
  have fit2: "announcements_fit rt (ds_nan state2) (mm_services mem2)" using fit by (simp add: state2_def mem2_def)
  from service_discovery_run [OF rt ok2 fit2, of inject junk] obtain ns fh sh where
    3: "nan_send_service_discovery_frame rt inject junk state2 mem2
      = Some (state2\<lparr>ds_nan := ns\<rparr>, mem2\<lparr>mm_frames := fh, mm_services := sh\<rparr>,
          (if announced (st_services ?ns) ?h = [] then [] else injected ?io (announcement_frame rt (sent ?ns) ?h)))"
      "ns \<in> {ds_nan state2, sent (ds_nan state2)}" "cells fh = cells fh2"
      "nan_update_announced_services (announced (st_services ?ns) ?h) ?h = Some sh"
      "daemon_ok (state2\<lparr>ds_nan := ns\<rparr>, mem2\<lparr>mm_frames := fh, mm_services := sh\<rparr>)"
    by (auto simp: state2_def mem2_def)
  have ns: "st_timer ns = st_timer ?ns" "st_buffer ns = cb" using 3(2) by (auto simp: state2_def)
  have b2: "nan_send_buffered_frames inject (state\<lparr>ds_nan := sent ?ns\<rparr>) (mem\<lparr>mm_frames := fh1\<rparr>)
      = Some (state2, mem2, concat (map (\<lambda>p. injected ?io (queued_frame (mm_frames mem) p)) (cbuf_contents (st_buffer ?ns))))"
    by (simp add: nan_send_buffered_frames_def 2(1) m state2_def mem2_def)
  have "nan_handle_discovery_window rt inject junk state mem now_usec later_usec
      = Some (state2\<lparr>ds_nan := ns\<rparr>, mem2\<lparr>mm_frames := fh, mm_services := sh\<rparr>,
          concat (map (injected ?io) (window_frames rt ?ns mem now_usec))
          @ [Rearm Discovery_Window_End (nan_timer_dw_end_usec (st_timer ?ns) later_usec),
             Rearm Discovery_Window (nan_timer_next_dw_usec (st_timer ?ns) later_usec)])"
    unfolding nan_handle_discovery_window_def Let_def 1 Option.bind.simps prod.case fh1_def [symmetric] b2 3(1)
    using opn by (simp add: window_open_def ns(1) window_frames_def ev_timer_rearm_usec_def comp_def)
  with 2(3,4) 3(3-5) ns(2) show ?thesis by auto
qed

lemma window_handler_run:
  assumes rt: "radiotap_layout rt" and ok: "daemon_ok (state, mem)"
    and fit: "announcements_fit rt (ds_nan state) (mm_services mem)"
  shows "\<exists>state' mem' out. nan_handle_discovery_window rt inject junk state mem now_usec later_usec = Some (state', mem', out)
    \<and> daemon_ok (state', mem')"
proof (cases "window_open (ds_nan state) now_usec")
  case True
  from window_run [OF rt ok this fit] show ?thesis by blast
next
  case False
  then show ?thesis using ok by (simp add: nan_handle_discovery_window_def window_open_def)
qed

section \<open>Receiving\<close>

text \<open>A captured frame: its bytes are there, and its time stamp is not the exceptional one.\<close>

definition capture_ok :: "'it radiotap_lib \<Rightarrow> nan_state \<Rightarrow> u8 list \<Rightarrow> u32 \<Rightarrow> u64 \<Rightarrow> bool" where
  "capture_ok rt ns bytes caplen now_usec \<longleftrightarrow> unat caplen < 2 ^ 31 \<and> unat caplen \<le> length bytes
     \<and> clock_ok (st_timer ns) now_usec (rx_timestamp rt (take (unat caplen) bytes))"

lemma receive_frame_run:
  assumes rt: "radiotap_ok rt I m" "radiotap_layout rt" and ok: "daemon_ok (state, mem)" and j: "junk_ok j"
    and log: "lg_level (ds_log state) < LOG_DEBUG" and b: "capture_ok rt (ds_nan state) bytes caplen now_usec"
  shows "\<exists>state' mem' out. nan_receive_frame rt env j frame_junk state mem bytes caplen now_usec = Some (state', mem', out)
    \<and> daemon_ok (state', mem')"
proof -
  have n: "unat (ucast caplen :: size_t) = unat caplen" by (rule unat_ucast_up) simp
  have w: "wf_buf (buf_new_const bytes (ucast caplen))" "berror (buf_new_const bytes (ucast caplen)) = 0"
      "inp (buf_new_const bytes (ucast caplen)) = take (unat caplen) bytes"
    using buf_new_const_wf [of "ucast caplen" bytes] b by (simp_all add: capture_ok_def n)
  have "device_ok (ds_nan state) mem" "all_known command_listener (ds_nan state) mem" using ok by (simp_all add: daemon_ok_def)
  from nan_rx_run [OF rt(1) call_listener_ok [OF rt(2) log, of frame_junk] this j sim_inp [OF w(1,2)], of now_usec] b
  obtain r frame' ns mem' calls events where
    run: "nan_rx rt (call_listener rt frame_junk (ds_log state)) j (buf_new_const bytes (ucast caplen)) (ds_nan state) mem now_usec
        = Some (r, frame', ns, mem', calls, events)"
      "device_ok ns mem'" "peer_config (st_peers ns) = peer_config (st_peers (ds_nan state))" "calls_ok (st_peers ns) calls"
      "all_known command_listener ns mem'"
    by (auto simp: capture_ok_def w(3))
  have cb: "callbacks_set (st_peers ns)" using ok callbacks_config [OF run(3)] by (simp add: daemon_defs)
  have "peers_ok (st_peers ns) (mm_peers mem')" using run(2) by (simp add: device_defs)
  from call_add_run [OF this cb run(4), of env state] run(1,2,5) cb ok show ?thesis
    by (auto simp: nan_receive_frame_def daemon_ok_def netlink_only_def)
qed

text \<open>
  Reading from the host yields an error number, or fewer bytes than an address has. A frame with
  an address makes the code read it through a cursor that the resize of the buffer has left behind.
\<close>

definition read_short :: "(nat \<Rightarrow> int + u8 list) \<Rightarrow> bool" where
  "read_short rd \<longleftrightarrow> (case rd (unat ETHER_MAX_LEN) of Inl errno \<Rightarrow> 0 < errno | Inr bytes \<Rightarrow> length bytes < 6)"

lemma host_device_run:
  assumes ok: "daemon_ok (state, mem)" and rd: "read_short rd"
  shows "\<exists>out. host_device_ready rd write_errno junk dst state mem = Some (state, mem, out)"
proof -
  let ?b = "buf_new_owned junk ETHER_MAX_LEN"
  have b: "bdata ?b = map junk [0..<1518]" "bcurrent ?b = 0" "bend ?b = 1518" "bowned ?b" "bstart ?b = 0"
    by (simp_all add: buf_new_owned_def c_int_id)
  consider "host_fd (ds_io state) = 0" | e where "rd 1518 = Inl e" "0 < e" "host_fd (ds_io state) \<noteq> 0"
    | bytes where "rd 1518 = Inr bytes" "length bytes < 6" "host_fd (ds_io state) \<noteq> 0"
    using rd by (auto simp: read_short_def split: sum.splits)
  then show ?thesis
  proof cases
    case (3 bytes)
    define data where "data = bytes @ drop (length bytes) (map junk [0..<1518])"
    have len: "length data = 1518" using 3(2) by (simp add: data_def)
    have st: "mem_store (map junk [0..<1518]) 0 bytes = Some data"
      using 3(2) by (simp add: mem_store_def data_def)
    show ?thesis
      using 3 st by (simp add: host_device_ready_def host_receive_def b buf_current_def c_int_id Let_def)
  qed (simp_all add: host_device_ready_def host_receive_def buf_current_def b c_int_id)
qed

lemma host_frame_undefined:
  assumes "rd (unat ETHER_MAX_LEN) = Inr bytes" "6 \<le> length bytes" "length bytes \<le> unat ETHER_MAX_LEN" "host_fd (ds_io state) \<noteq> 0"
  shows "host_device_ready rd write_errno junk dst state mem = None"
proof -
  let ?b = "buf_new_owned junk ETHER_MAX_LEN"
  have b: "bdata ?b = map junk [0..<1518]" "bcurrent ?b = 0" "bowned ?b"
    by (simp_all add: buf_new_owned_def)
  have "\<exists>data. mem_store (map junk [0..<1518]) 0 bytes = Some data" using assms(3) by (simp add: mem_store_def)
  then obtain data where "mem_store (map junk [0..<1518]) 0 bytes = Some data" by blast
  then show ?thesis
    using assms by (simp add: host_device_ready_def host_receive_def b buf_current_def buf_resize_def c_int_id Let_def)
qed

section \<open>Commands and listeners\<close>

text \<open>A line of the user: it fits, it ends with a newline, and its command may be entered.\<close>

definition line_command :: "string \<Rightarrow> string" where
  "line_command line = takeWhile (\<lambda>c. c \<noteq> CHR 0x00) (takeWhile (\<lambda>c. c \<noteq> CHR 0x0A) line)"

definition line_ok :: "char list \<Rightarrow> string \<Rightarrow> bool" where
  "line_ok buf line \<longleftrightarrow> length line < length buf \<and> CHR 0x0A \<in> set line \<and> command_ok (line_command line)"

lemma stdin_run:
  assumes ok: "daemon_ok (state, mem)" and sj: "length (sha_buf sj) = 64" and line: "line_ok buf line"
  shows "\<exists>state' mem' out. stdin_ready env now_usec junk sj buf line state mem = Some (state', mem', out) \<and> daemon_ok (state', mem')"
proof -
  let ?ps = "st_peers (ds_nan state)"
  have nl: "CHR 0x0A \<in> set line" using line by (simp add: line_ok_def)
  define buf' where "buf' = line @ [CHR 0x00] @ drop (length line + 1) buf"
  have get: "fgets buf line = Some buf'" using line nl by (auto simp: fgets_def line_ok_def buf'_def)
  have nl': "CHR 0x0A \<in> set buf'" using nl by (simp add: buf'_def)
  have cmd: "takeWhile (\<lambda>c. c \<noteq> CHR 0x0A) buf' = takeWhile (\<lambda>c. c \<noteq> CHR 0x0A) line"
    using nl unfolding buf'_def by (intro takeWhile_append1) auto
  have dev: "device_ok (ds_nan state) mem" and cb: "callbacks_set ?ps" and last: "last_ok (ds_last_cmd state)"
    using ok by (simp_all add: daemon_defs)
  from cb have nn: "peer_remove_callback ?ps \<noteq> NULL" by (simp add: callbacks_set_def)
  from handle_cmd_run [OF dev nn last _ sj, of "line_command line" junk now_usec "ds_log state"] line
  obtain ns mem' last' level' ps msgs where
    run: "nan_handle_cmd junk sj now_usec (ds_log state) (ds_nan state) mem (line_command line) (ds_last_cmd state)
        = Some (ns, mem', last', level', map (\<lambda>p. (peer_remove_callback ?ps, p, peer_remove_callback_data ?ps)) ps, msgs)"
      "device_ok ns mem'" "peer_config (st_peers ns) = peer_config ?ps" "last_ok last'" "set ps \<subseteq> set (peers ?ps)"
      "keeps_known (ds_nan state) mem ns mem'"
    by (auto simp: line_ok_def)
  have cb': "callbacks_set (st_peers ns)" using cb callbacks_config [OF run(3)] by simp
  have live: "\<forall>p \<in> set ps. cells (mm_peers mem) p \<noteq> None" using dev run(5) by (auto simp: device_defs peers_ok_def)
  obtain state' where calls: "call_peers env (mm_peers mem)
      (map (\<lambda>p. (peer_remove_callback ?ps, p, peer_remove_callback_data ?ps)) ps) state = Some state'" "netlink_only state state'"
    using call_remove_run [OF live, of env state] cb by (auto simp: callbacks_set_def)
  have "all_known command_listener ns mem'" using run(6) ok by (simp add: daemon_ok_def)
  then show ?thesis
    unfolding stdin_ready_def get using nl' run(1,2,4) cb' calls
    by (simp add: cmd daemon_ok_def flip: line_command_def)
qed

section \<open>The event loop\<close>

text \<open>An event, with everything from outside that its handler uses.\<close>

datatype daemon_event =
    Send_Discovery_Beacon_Due "nat \<Rightarrow> u8" u64
  | Discovery_Window_Due "nat \<Rightarrow> u8" u64 u64
  | Discovery_Window_End_Due u64
  | Clean_Peers_Due u64
  | Wlan_Ready rx_junk "ptr \<Rightarrow> nat \<Rightarrow> u8" "(u8 list \<times> u32) option" u64
  | Host_Ready "nat \<Rightarrow> int + u8 list" "int option" "nat \<Rightarrow> u8" ether_addr
  | Stdin_Ready u64 nan_service sha256_context "char list" string

definition joined ::
  "(daemon_state \<times> nan_memory \<times> daemon_output list) option
   \<Rightarrow> ((daemon_state \<times> nan_memory) \<times> daemon_output list) option" where
  "joined = map_option (\<lambda>(state, mem, out). ((state, mem), out))"

fun daemon_handle ::
  "'it radiotap_lib \<Rightarrow> (u8 list \<Rightarrow> int) \<Rightarrow> nl_env \<Rightarrow> daemon_event \<Rightarrow> daemon_state \<times> nan_memory
   \<Rightarrow> ((daemon_state \<times> nan_memory) \<times> daemon_output list) option" where
  "daemon_handle rt inject env (Send_Discovery_Beacon_Due junk now_usec) (state, mem)
     = joined (nan_send_discovery_beacon rt inject junk state mem now_usec)"
| "daemon_handle rt inject env (Discovery_Window_Due junk now_usec later_usec) (state, mem)
     = joined (nan_handle_discovery_window rt inject junk state mem now_usec later_usec)"
| "daemon_handle rt inject env (Discovery_Window_End_Due now_usec) (state, mem)
     = joined (nan_handle_discovery_window_end state mem now_usec)"
| "daemon_handle rt inject env (Clean_Peers_Due now_usec) (state, mem) = joined (nan_clean_peers env state mem now_usec)"
| "daemon_handle rt inject env (Wlan_Ready j frame_junk packet now_usec) (state, mem)
     = joined (wlan_device_ready rt env j frame_junk state mem packet now_usec)"
| "daemon_handle rt inject env (Host_Ready rd write_errno junk dst) (state, mem)
     = joined (host_device_ready rd write_errno junk dst state mem)"
| "daemon_handle rt inject env (Stdin_Ready now_usec junk sj buf line) (state, mem)
     = joined (stdin_ready env now_usec junk sj buf line state mem)"

text \<open>
  What the environment promises for an event; the library of radiotap headers is part of it. No
  frame is captured at a level with debugging messages, since the one about a follow-up without
  information is undefined.
\<close>

definition daemon_admissible ::
  "'it radiotap_lib \<Rightarrow> ('it \<Rightarrow> bool) \<Rightarrow> ('it \<Rightarrow> nat) \<Rightarrow> daemon_state \<times> nan_memory \<Rightarrow> daemon_event \<Rightarrow> bool" where
  "daemon_admissible rt I m s e \<longleftrightarrow> radiotap_layout rt \<and> radiotap_ok rt I m
     \<and> (case e of
          Discovery_Window_Due _ _ _ \<Rightarrow> announcements_fit rt (ds_nan (fst s)) (mm_services (snd s))
        | Wlan_Ready j _ packet now_usec \<Rightarrow> junk_ok j
            \<and> (case packet of None \<Rightarrow> True
               | Some (bytes, caplen) \<Rightarrow> lg_level (ds_log (fst s)) < LOG_DEBUG
                   \<and> capture_ok rt (ds_nan (fst s)) bytes caplen now_usec)
        | Host_Ready rd _ _ _ \<Rightarrow> read_short rd
        | Stdin_Ready _ _ sj buf line \<Rightarrow> length (sha_buf sj) = 64 \<and> line_ok buf line
        | _ \<Rightarrow> True)"

lemma joined_run:
  "\<exists>state' mem' out. r = Some (state', mem', out) \<and> daemon_ok (state', mem') \<Longrightarrow>
     \<exists>s out. joined r = Some (s, out) \<and> daemon_ok s"
  by (auto simp: joined_def)

interpretation daemon: event_system "daemon_handle rt inject env" daemon_ok "daemon_admissible rt I m" for rt inject env I m
proof
  fix s e
  assume "daemon_ok s" and adm: "daemon_admissible rt I m s e"
  then obtain state mem where s: "s = (state, mem)" and ok: "daemon_ok (state, mem)" by (cases s) simp
  from adm have rt: "radiotap_layout rt" "radiotap_ok rt I m" by (simp_all add: daemon_admissible_def)
  show "\<exists>s' out. daemon_handle rt inject env e s = Some (s', out) \<and> daemon_ok s'"
  proof (cases e)
    case (Send_Discovery_Beacon_Due junk now_usec)
    show ?thesis unfolding s Send_Discovery_Beacon_Due daemon_handle.simps
      by (rule joined_run [OF discovery_beacon_run [OF rt(1) ok]])
  next
    case (Discovery_Window_Due junk now_usec later_usec)
    then have "announcements_fit rt (ds_nan state) (mm_services mem)" using adm by (simp add: daemon_admissible_def s)
    from joined_run [OF window_handler_run [OF rt(1) ok this]] show ?thesis unfolding s Discovery_Window_Due by simp
  next
    case (Discovery_Window_End_Due now_usec)
    from window_end_run [OF ok, of now_usec] show ?thesis unfolding s Discovery_Window_End_Due daemon_handle.simps
      by (intro joined_run) blast
  next
    case (Clean_Peers_Due now_usec)
    from clean_peers_run [OF ok, of env now_usec] show ?thesis unfolding s Clean_Peers_Due daemon_handle.simps
      by (intro joined_run) blast
  next
    case (Wlan_Ready j frame_junk packet now_usec)
    show ?thesis
    proof (cases packet)
      case None
      then show ?thesis using ok by (simp add: s Wlan_Ready wlan_device_ready_def joined_def)
    next
      case (Some pk)
      obtain bytes caplen where pk: "pk = (bytes, caplen)" by fastforce
      have "junk_ok j" "lg_level (ds_log state) < LOG_DEBUG" "capture_ok rt (ds_nan state) bytes caplen now_usec"
        using adm Some pk by (simp_all add: daemon_admissible_def s Wlan_Ready)
      from joined_run [OF receive_frame_run [OF rt(2,1) ok this]] show ?thesis
        by (simp add: s Wlan_Ready wlan_device_ready_def Some pk)
    qed
  next
    case (Host_Ready rd write_errno junk dst)
    then have "read_short rd" using adm by (simp add: daemon_admissible_def s)
    from host_device_run [OF ok this, of write_errno junk dst] ok show ?thesis
      unfolding s Host_Ready daemon_handle.simps by (intro joined_run) blast
  next
    case (Stdin_Ready now_usec junk sj buf line)
    then have "length (sha_buf sj) = 64" "line_ok buf line" using adm by (simp_all add: daemon_admissible_def s)
    from joined_run [OF stdin_run [OF ok this]] show ?thesis unfolding s Stdin_Ready by simp
  qed
qed

section \<open>Initialisation\<close>

definition fresh_memory :: "rng \<Rightarrow> nan_memory" where
  "fresh_memory r = \<lparr>mm_peers = store_empty, mm_listeners = store_empty, mm_services = store_empty,
     mm_frames = store_empty, mm_rng = r\<rparr>"

lemma strncpy_defined: "n \<le> length dst \<Longrightarrow> \<exists>name. strncpy dst src n = Some name"
  by (simp add: strncpy_def mem_store_def)

lemma init_nan_state_run:
  assumes array: "16 \<le> length array" and r: "rng_live r" and name: "64 \<le> length (st_hostname state)"
  shows "\<exists>ns r'. init_nan_state array cb state r hostname addr channel now_usec = Some (ns, r')
    \<and> device_ok ns (fresh_memory r') \<and> listeners (st_events ns) = []"
proof -
  obtain a r1 where a: "get_rand_num 0 255 r = Some (a, r1)" "rng_live r1" using rng_live_rand [OF r, of 0 255] by auto
  obtain b r2 where b: "get_rand_num 0 255 r1 = Some (b, r2)" "rng_live r2" using rng_live_rand [OF a(2), of 0 255] by auto
  obtain name' where n: "strncpy (st_hostname state) hostname 64 = Some name'" using strncpy_defined [OF name] by blast
  have buf: "cbuf_inv (circular_buf_init array cb 16)" "cbuf_contents (circular_buf_init array cb 16) = []"
    using circular_buf_init_inv [of 16 array cb] array by simp_all
  have "queue_ok (circular_buf_init array cb 16) store_empty" using buf by (simp add: queue_ok_def)
  moreover have "listeners_ok (s\<lparr>listeners := []\<rparr>) store_empty" for s
    by (simp add: listeners_ok_def)
  ultimately show ?thesis
    using b(2) by (simp add: init_nan_state_def n nan_cluster_state_init_def nan_cluster_id_new_def a(1) b(1)
        device_defs fresh_memory_def nan_event_state_init_def peers_ok_init services_ok_init sync_inv_init averages_ok_init timer_window_init Let_def)
qed

text \<open>The arrays of the state are large enough for the names that are given and that the kernel gives.\<close>

definition names_fit :: "io_os \<Rightarrow> io_state \<Rightarrow> u8 list \<Rightarrow> u8 list \<Rightarrow> bool" where
  "names_fit os io wlan host \<longleftrightarrow> length wlan < length (wlan_ifname io) \<and> length host < length (host_ifname io)
     \<and> (\<forall>name. length (takeWhile (\<lambda>c. c \<noteq> 0) (tun_ifname (os_tun os) name)) < length (host_ifname io))"

lemma strcpy_defined: "length src < length dst \<Longrightarrow> \<exists>name. strcpy dst src = Some name \<and> length name = length dst"
  by (simp add: strcpy_def mem_store_def)

lemma open_tun_run:
  assumes "\<forall>name. length (takeWhile (\<lambda>c. c \<noteq> 0) (tun_ifname os name)) < length dev"
  shows "\<exists>fd name closed. open_tun os dev self = Some (fd, name, closed)"
proof -
  have "\<exists>name. (if dev \<noteq> [] \<and> hd dev \<noteq> 0 then strncpy (replicate 16 0) (takeWhile (\<lambda>c. c \<noteq> 0) dev) 16
      else Some (replicate 16 0)) = Some name"
    using strncpy_defined [of 16 "replicate 16 0"] by auto
  then obtain name where name: "(if dev \<noteq> [] \<and> hd dev \<noteq> 0 then strncpy (replicate 16 0) (takeWhile (\<lambda>c. c \<noteq> 0) dev) 16
      else Some (replicate 16 0)) = Some name" by blast
  obtain dev' where "mem_store dev 0 (takeWhile (\<lambda>c. c \<noteq> 0) (tun_ifname os name) @ [0]) = Some dev'"
    using assms by (auto simp: mem_store_def Suc_le_eq)
  then show ?thesis unfolding open_tun_def Let_def name by auto
qed

text \<open>
  What the daemon relies on of the system's start: the channel exists, links have addresses, and
  they can be set up, since the message that one cannot is undefined.
\<close>

definition links_go_up :: "nl_env \<Rightarrow> bool" where
  "links_go_up env \<longleftrightarrow> (\<forall>s i t. 0 \<le> fst (link_up env s i t))"

definition links_ok :: "io_os \<Rightarrow> int \<Rightarrow> bool" where
  "links_ok os channel \<longleftrightarrow> ieee80211_channel_to_frequency channel \<noteq> 0 \<and> (\<forall>p. os_ether_addr_at os p \<noteq> None)
     \<and> links_go_up (os_netlink os)"

lemma io_state_init_wlan_run:
  assumes name: "strcpy (wlan_ifname io) wlan = Some name" and links: "links_ok os channel"
  shows "\<exists>err io' t'. io_state_init_wlan os s io wlan channel bssid t = Some (err, io', t')
    \<and> host_ifname io' = host_ifname io \<and> err \<le> 0"
proof -
  have chan: "\<exists>r. set_channel (os_netlink os) s i channel t = Some r" for i t
    using links set_channel_defined [of "os_netlink os" s i channel t] by (auto simp: links_ok_def)
  have addr: "\<exists>r. link_ether_addr_get (os_netlink os) (os_ether_addr_at os) s wlan a t = Some r" for a t
  proof -
    obtain e lk t1 where 1: "nl_out (os_netlink os) (Rtnl_Link_Get_Kernel (nlroute_socket s) 0 (Some wlan)) t = (e, lk, t1)"
      by (metis prod_cases3)
    obtain n t2 where 2: "nl (os_netlink os) (Rtnl_Link_Get_Addr lk) t1 = (n, t2)" by (metis surj_pair)
    obtain b t3 where 3: "nl (os_netlink os) (Nl_Addr_Get_Binary_Addr n) t2 = (b, t3)" by (metis surj_pair)
    obtain v where "os_ether_addr_at os b = Some v" using links unfolding links_ok_def by blast
    then show ?thesis by (simp add: link_ether_addr_get_def 1 2 3)
  qed
  obtain c where c: "\<And>i t. set_channel (os_netlink os) s i channel t = Some (c i t)" using chan by metis
  obtain l where l: "\<And>a t. link_ether_addr_get (os_netlink os) (os_ether_addr_at os) s wlan a t = Some (l a t)" using addr by metis
  define i where "i = os_if_nametoindex os wlan"
  define io1 where "io1 = io\<lparr>wlan_ifname := name, wlan_ifindex := i\<rparr>"
  have fields: "wlan_ifindex io1 = i" "host_ifname io1 = host_ifname io" by (simp_all add: io1_def)
  obtain e1 t1 where 1: "(if \<not> no_updown io1 then link_down (os_netlink os) s i t else (0, t)) = (e1, t1)" by (metis surj_pair)
  obtain e2 t2 where 2: "(if \<not> no_monitor io1 then set_monitor_mode (os_netlink os) s i t1 else (0, t1)) = (e2, t2)" by (metis surj_pair)
  obtain e3 t3 where 3: "(if \<not> no_updown io1 then link_up (os_netlink os) s i t2 else (0, t2)) = (e3, t3)" by (metis surj_pair)
  then have up: "\<not> e3 < 0"
    using links unfolding links_ok_def links_go_up_def by (metis Pair_inject fst_conv not_less order_refl)
  obtain e4 t4 where 4: "(if \<not> no_channel io1 then set_channel (os_netlink os) s i channel t3 else Some (0, t3)) = Some (e4, t4)"
    using c [of i t3] by (cases "no_channel io1"; cases "c i t3") auto
  obtain fd handle cl where 5: "open_nonblocking_device (os_pcap os) wlan bssid = (fd, handle, cl)" by (metis prod_cases3)
  define io2 where "io2 = io1\<lparr>wlan_handle := (case handle of None \<Rightarrow> wlan_handle io1 | Some h \<Rightarrow> h)\<rparr>\<lparr>wlan_fd := fd\<rparr>"
  have fields2: "host_ifname io2 = host_ifname io" by (simp add: io2_def fields)
  obtain e6 a t6 where 6: "link_ether_addr_get (os_netlink os) (os_ether_addr_at os) s wlan (if_ether_addr io2) t4 = Some (e6, a, t6)"
    using l [of "if_ether_addr io2" t4] by (cases "l (if_ether_addr io2) t4") auto
  have "io_state_init_wlan os s io wlan channel bssid t =
    (if i = 0 then Some (- ENOENT, io1, t) else if e1 < 0 then Some (- 1, io1, t1) else if e2 < 0 then Some (- 1, io1, t2)
     else if e4 \<noteq> 0 then Some (- 1, io1, t4) else if fd < 0 then Some (- 1, io2, t4)
     else if e6 < 0 then Some (- 1, io2\<lparr>if_ether_addr := a\<rparr>, t6) else Some (0, io2\<lparr>if_ether_addr := a\<rparr>, t6))"
    unfolding io_state_init_wlan_def name Option.bind.simps Let_def i_def [symmetric]
      io1_def [symmetric] fields 1 2 3 4 5 6 prod.case io2_def [symmetric] using up by simp
  then show ?thesis using fields(2) fields2 by auto
qed

lemma io_state_init_host_error: "io_state_init_host os io host = Some (err, io') \<Longrightarrow> err \<le> 0"
  by (auto simp: io_state_init_host_def Let_def case_prod_beta split: Option.bind_splits if_splits)

lemma io_state_init_run:
  assumes fit: "names_fit os io wlan host" and links: "links_ok os channel"
  shows "\<exists>err io' t'. io_state_init os s io wlan host channel bssid t = Some (err, io', t') \<and> err \<le> 0"
proof -
  from fit obtain name where name: "strcpy (wlan_ifname io) wlan = Some name" using strcpy_defined [of wlan "wlan_ifname io"]
    by (auto simp: names_fit_def)
  from io_state_init_wlan_run [OF this links, of s bssid t] obtain err io1 t1 where
    1: "io_state_init_wlan os s io wlan channel bssid t = Some (err, io1, t1)" "host_ifname io1 = host_ifname io" "err \<le> 0"
    by blast
  obtain name2 where name2: "strcpy (host_ifname io1) host = Some name2" "length name2 = length (host_ifname io1)"
    using strcpy_defined [of host "host_ifname io1"] fit 1(2) by (auto simp: names_fit_def)
  then obtain fd name3 closed where "open_tun (os_tun os) name2 (if_ether_addr io1) = Some (fd, name3, closed)"
    using open_tun_run [of "os_tun os" name2 "if_ether_addr io1"] fit 1(2) by (auto simp: names_fit_def)
  then have "\<exists>err io'. io_state_init_host os io1 host = Some (err, io')"
    by (simp add: io_state_init_host_def name2(1) Let_def)
  then show ?thesis using 1 by (auto simp: io_state_init_def dest: io_state_init_host_error)
qed

lemma netutils_init_error: "netutils_init env s t = (err, s', t') \<Longrightarrow> err \<le> 0"
  by (auto simp: netutils_init_def nlroute_init_def nl80211_init_def Let_def case_prod_beta split: if_splits)

lemma nan_init_run:
  assumes fit: "names_fit os (ds_io state) wlan host" and links: "links_ok os channel" and array: "16 \<le> length array" and r: "rng_live r"
    and name: "64 \<le> length (st_hostname (ds_nan state))" and errno: "\<forall>e. host_name = Inl e \<longrightarrow> 0 < e"
  shows "\<exists>err state' r'. nan_init os host_name array cb r state wlan host channel dump now_usec
      = Some (err, state', r') \<and> err \<le> 0 \<and> (err = 0 \<longrightarrow> daemon_ok (state', fresh_memory r'))"
proof -
  obtain nl s t where nl: "netutils_init (os_netlink os) (ds_sockets state) (ds_netlink state) = (nl, s, t)" by (metis prod_cases3)
  note nl_err = netutils_init_error [OF nl]
  from io_state_init_run [OF fit links, of s None t] obtain err io t' where
    io: "io_state_init os s (ds_io state) wlan host channel None t = Some (err, io, t')" and err: "err \<le> 0" by blast
  show ?thesis
  proof (cases "nl = 0 \<and> err = 0")
    case False
    then show ?thesis using io nl_err err by (auto simp: nan_init_def nl Let_def)
  next
    case True
    show ?thesis
    proof (cases host_name)
      case (Inl errno)
      then show ?thesis using True io errno by (simp add: nan_init_def nl Let_def)
    next
      case (Inr hostname)
      from init_nan_state_run [OF array r name, of cb hostname "if_ether_addr io" channel now_usec] obtain ns r' where
        ns: "init_nan_state array cb (ds_nan state) r hostname (if_ether_addr io) channel now_usec = Some (ns, r')"
          "device_ok ns (fresh_memory r')" "listeners (st_events ns) = []" by blast
      define ps where "ps = nan_peer_set_callbacks (st_peers ns) NAN_NEIGHBOR_ADD IO_STATE NAN_NEIGHBOR_REMOVE IO_STATE"
      have "callbacks_set ps" by (simp add: ps_def nan_peer_set_callbacks_def callbacks_set_def)
      moreover have "peers ps = peers (st_peers ns)" by (simp add: ps_def nan_peer_set_callbacks_def)
      then have "device_ok (ns\<lparr>st_peers := ps\<rparr>) (fresh_memory r')"
        using ns(2) by (simp add: device_defs peers_ok_def averages_ok_def lookup_peer_def)
      moreover have "all_known command_listener (ns\<lparr>st_peers := ps\<rparr>) (fresh_memory r')"
        using ns(3) by (simp add: all_known_def listener_items_def)
      ultimately show ?thesis
        using True io ns(1) Inr by (simp add: nan_init_def nl daemon_ok_def last_ok_def Let_def ps_def)
    qed
  qed
qed

section \<open>Properties\<close>

text \<open>
  C14: In an open discovery window the daemon sends a synchronisation beacon, then the queued
  frames in order, then, if services are to be announced, one service discovery frame with
  them, and nothing else; afterwards the queue is empty, its frames are freed, the announced
  services are updated, and the timers for the end of the window and for the next window run.
\<close>

theorem discovery_window_sends:
  assumes "radiotap_layout rt" "daemon_ok (state, mem)" "window_open (ds_nan state) now_usec"
    and "announcements_fit rt (ds_nan state) (mm_services mem)"
  shows "\<exists>state' mem'. nan_handle_discovery_window rt inject junk state mem now_usec later_usec
      = Some (state', mem', concat (map (injected (ds_io state)) (window_frames rt (ds_nan state) mem now_usec))
          @ [Rearm Discovery_Window_End (nan_timer_dw_end_usec (st_timer (ds_nan state)) later_usec),
             Rearm Discovery_Window (nan_timer_next_dw_usec (st_timer (ds_nan state)) later_usec)])
    \<and> cbuf_contents (st_buffer (ds_nan state')) = []
    \<and> (\<forall>p \<in> set (cbuf_contents (st_buffer (ds_nan state))). cells (mm_frames mem') p = None)
    \<and> nan_update_announced_services (announced (st_services (ds_nan state)) (mm_services mem)) (mm_services mem)
        = Some (mm_services mem')
    \<and> daemon_ok (state', mem')"
  by (rule window_run [OF assms])

text \<open>A daemon with one queued frame and no services, a second after it was started.\<close>

definition queued_daemon :: "nan_state \<Rightarrow> io_state \<Rightarrow> daemon_state" where
  "queued_daemon s io = \<lparr>ds_nan = booted s\<lparr>st_buffer := \<lparr>cb_buffer = 1 # replicate 15 0, cb_head = 1, cb_tail = 0,
       cb_capacity = 16, cb_full = False\<rparr>,
       st_peers := nan_peer_set_callbacks (nan_peer_state_init (st_peers s)) NAN_NEIGHBOR_ADD IO_STATE
         NAN_NEIGHBOR_REMOVE IO_STATE\<rparr>,
     ds_io = io\<lparr>wlan_handle := 5\<rparr>, ds_start_time_usec = 0, ds_dump = False, ds_last_cmd = None, 
     ds_log = \<lparr>lg_udata = 0, lg_lock = 0, lg_fp = 0, lg_level = 6, lg_quiet = 0\<rparr>,
     ds_sockets = \<lparr>nlroute_socket = 0, nl80211_socket = 0, nl80211_id = 0\<rparr>, ds_netlink = []\<rparr>"

definition one_frame :: nan_memory where
  "one_frame = empty_memory\<lparr>mm_frames := \<lparr>cells = [1 \<mapsto> \<lparr>bdata = [1, 2, 3], bcurrent = 3, bstart = 0, bend = 3,
     bsize = 3, bowned = True, berror = 0\<rparr>], brk = 2\<rparr>\<rparr>"

lemma queued_daemon_ok: "daemon_ok (queued_daemon s io, one_frame)"
proof -
  have c: "cbuf_contents (st_buffer (ds_nan (queued_daemon s io))) = [1]"
    by (simp add: queued_daemon_def cbuf_contents_def circular_buf_size_def circular_buf_full_def)
  have "queue_ok (st_buffer (ds_nan (queued_daemon s io))) (mm_frames one_frame)"
    unfolding queue_ok_def c by (simp add: queued_daemon_def one_frame_def cbuf_defs wf_store_def wf_buf_def)
  moreover have "device_ok (booted s) empty_memory" by (rule device_ok_booted)
  ultimately show ?thesis
    by (simp add: daemon_defs last_ok_def device_defs callbacks_set_def nan_peer_set_callbacks_def booted_def
        queued_daemon_def one_frame_def peers_ok_def listener_items_def nan_event_state_init_def averages_ok_def lookup_peer_def nan_peer_state_init_def)
qed

theorem discovery_window_sends_witness:
  "\<forall>s io junk. \<exists>state' mem' beacon. nan_handle_discovery_window plain_radiotap (\<lambda>_. 0) junk (queued_daemon s io) one_frame
      1048576 1048700 = Some (state', mem', [Inject beacon, Inject [1, 2, 3],
        Rearm Discovery_Window_End (nan_timer_dw_end_usec (st_timer (booted s)) 1048700),
        Rearm Discovery_Window (nan_timer_next_dw_usec (st_timer (booted s)) 1048700)])
    \<and> cells (mm_frames mem') 1 = None"
proof (intro allI)
  fix s :: nan_state and io :: io_state and junk :: "nat \<Rightarrow> u8"
  let ?d = "queued_daemon s io"
  have timer: "st_timer (ds_nan ?d) = st_timer (booted s)" by (simp add: queued_daemon_def)
  have services: "announced (st_services (ds_nan ?d)) (mm_services one_frame) = []"
    by (simp add: queued_daemon_def booted_def announced_def nan_service_state_init_def)
  have "window_open (ds_nan ?d) 1048576"
    by (simp add: window_open_def timer nan_timer_in_dw_def nan_timer_initial_scan_done_def booted_def
        nan_timer_state_init_def moving_average_init_def Let_def nan_timer_get_fixed_time_tu_def
        nan_timer_get_fixed_time_usec_def USEC_TO_TU_def)
  moreover have "announcements_fit plain_radiotap (ds_nan ?d) (mm_services one_frame)"
    by (simp add: announcements_fit_def announcement_frame_def services service_discovery_frame_def length_with_fcs
        service_discovery_header_def length_radiotap_bytes service_discovery_payload_def length_attribute_bytes_eq
        device_capability_body_def availability_body_def)
  moreover have "cbuf_contents (st_buffer (ds_nan ?d)) = [1]"
    by (simp add: queued_daemon_def cbuf_contents_def circular_buf_size_def circular_buf_full_def)
  moreover have "queued_frame (mm_frames one_frame) 1 = [1, 2, 3]"
    by (simp add: queued_frame_def one_frame_def written_def)
  moreover have "injected (ds_io ?d) = (\<lambda>bytes. [Inject bytes])" by (simp add: injected_def queued_daemon_def fun_eq_iff)
  ultimately show "\<exists>state' mem' beacon. nan_handle_discovery_window plain_radiotap (\<lambda>_. 0) junk ?d one_frame
      1048576 1048700 = Some (state', mem', [Inject beacon, Inject [1, 2, 3],
        Rearm Discovery_Window_End (nan_timer_dw_end_usec (st_timer (booted s)) 1048700),
        Rearm Discovery_Window (nan_timer_next_dw_usec (st_timer (booted s)) 1048700)])
    \<and> cells (mm_frames mem') 1 = None"
    using discovery_window_sends [OF plain_radiotap_layout queued_daemon_ok, of s io 1048576 "\<lambda>_. 0" junk 1048700]
    by (auto simp: window_frames_def services timer)
qed

end
