(* ===== verification/Nan_Main.thy ===== *)
theory Nan_Main
  imports Nan_Daemon_Steps
begin








section \<open>Starting\<close>









section \<open>Properties\<close>








end
