(* ===== verification/Spec2Isabelle.thy ===== *)
theory Spec2Isabelle
  imports Nan_Sha256 Nan_Dispatch Nan_Main
begin

text \<open>
  A verification development for OpenNAN, an implementation of Wi-Fi Neighbour Awareness
  Networking (NAN) in C.

  \<^bold>\<open>The program.\<close> \<^verbatim>\<open>src/src\<close> is a library of protocol components around one state record
  (\<^verbatim>\<open>state.c\<close>); \<^verbatim>\<open>src/daemon\<close> drives it from an event loop. A captured frame goes from the
  wireless device (\<^verbatim>\<open>io.c\<close>) through \<^verbatim>\<open>core.c\<close> to the parser (\<^verbatim>\<open>rx.c\<close>), which records its sender
  (\<^verbatim>\<open>peer.c\<close>), follows its clock and its master rank (\<^verbatim>\<open>timer.c\<close>, \<^verbatim>\<open>sync.c\<close>, \<^verbatim>\<open>cluster.c\<close>) and
  hands the descriptors of services to \<^verbatim>\<open>service.c\<close>, which calls the listeners registered with
  \<^verbatim>\<open>event.c\<close>. Timers make the daemon build beacons and service discovery frames (\<^verbatim>\<open>tx.c\<close>) and
  send them with the frames that wait in the ring buffer; a listener (\<^verbatim>\<open>cmd.c\<close>) answers a
  discovered service by queueing one. New and expired peers are made known to the kernel
  (\<^verbatim>\<open>netutils.c\<close>).

  \<^bold>\<open>The theories.\<close> A theory has the definitions of one part, named as in the C file, and the
  lemmas that make the part correct; parts whose proofs are long have a theory for those.
  \<^item> \<^verbatim>\<open>Nan_Prelude\<close>: C types, byte encodings, typed stores for the objects on the heap, and the
    conventions below.
  \<^item> \<^verbatim>\<open>Nan_Lists\<close> (\<^verbatim>\<open>list.c\<close>, \<^verbatim>\<open>list.h\<close>): the linked list at the level of its nodes, its
    refinement to sequences, and the iteration macros. \<^verbatim>\<open>Nan_Circular_Buffer\<close>
    (\<^verbatim>\<open>circular_buffer.c\<close>): the ring buffer and its refinement to a bounded queue.
  \<^item> \<^verbatim>\<open>Nan_Crc32\<close> (\<^verbatim>\<open>crc32.c\<close>) and \<^verbatim>\<open>Nan_Sha256\<close> (\<^verbatim>\<open>sha256.c\<close>): the optimised routines and their
    equivalence with the published definitions.
  \<^item> \<^verbatim>\<open>Nan_Wire\<close> (\<^verbatim>\<open>wire.c\<close>, \<^verbatim>\<open>wire.h\<close>): the frame buffer; its reads and writes stay inside it
    and are inverse to each other; a buffer that was resized may be \<open>Dangling\<close>, and using its
    cursor is then undefined. \<^verbatim>\<open>Nan_Utils\<close> (\<^verbatim>\<open>utils.c\<close>), \<^verbatim>\<open>Nan_Moving_Average\<close>
    (\<^verbatim>\<open>moving_average.h\<close>): the average over a window, which drifts.
  \<^item> \<^verbatim>\<open>Nan_Frame\<close>, \<^verbatim>\<open>Nan_Attributes\<close>, \<^verbatim>\<open>Nan_Ieee80211\<close> (\<^verbatim>\<open>frame.c\<close>, \<^verbatim>\<open>attributes.h\<close>,
    \<^verbatim>\<open>ieee80211.c\<close>): the layout of packed structures as bytes, headers and checksums.
  \<^item> \<^verbatim>\<open>Nan_Timer\<close>, \<^verbatim>\<open>Nan_Cluster\<close>, \<^verbatim>\<open>Nan_Event\<close>, \<^verbatim>\<open>Nan_Peer\<close>, \<^verbatim>\<open>Nan_Sync\<close>, \<^verbatim>\<open>Nan_Service\<close>: the
    components of the state; a step relation for the master rank and its anchor, the table of
    peers as a map, services and the events they cause. \<^verbatim>\<open>Nan_State\<close> (\<^verbatim>\<open>state.c\<close>) puts them
    together.
  \<^item> \<^verbatim>\<open>Nan_Rx\<close> (\<^verbatim>\<open>rx.c\<close>); \<^verbatim>\<open>Nan_Rx_Attributes\<close>: the loop over attributes refines a fold over
    what the bytes encode; \<^verbatim>\<open>Nan_Rx_Safety\<close>, \<^verbatim>\<open>Nan_Rx_Frames\<close>: the invariant of the device,
    and that every received frame keeps it.
  \<^item> \<^verbatim>\<open>Nan_Tx\<close> (\<^verbatim>\<open>tx.c\<close>, \<^verbatim>\<open>data_path.c\<close>); \<^verbatim>\<open>Nan_Tx_Frames\<close>: the bytes of every frame, and
    that the parser of \<^verbatim>\<open>Nan_Rx\<close> reads from them what they announce.
  \<^item> \<^verbatim>\<open>Nan_Log\<close> (\<^verbatim>\<open>log.c\<close>): the log, its level, and when writing a message is defined.
  \<^item> \<^verbatim>\<open>Nan_Netutils\<close>, \<^verbatim>\<open>Nan_Io\<close>, \<^verbatim>\<open>Nan_Cmd\<close>, \<^verbatim>\<open>Nan_Daemon\<close>, \<^verbatim>\<open>Nan_Main\<close> (\<^verbatim>\<open>netutils.c\<close>,
    \<^verbatim>\<open>io.c\<close>, \<^verbatim>\<open>cmd.c\<close>, \<^verbatim>\<open>core.c\<close>, \<^verbatim>\<open>nan.c\<close>): the daemon. \<^verbatim>\<open>Nan_Cmd_Print\<close>: the
    commands that print, and the text they make of the tables. \<^verbatim>\<open>Nan_Cmd_Safety\<close>: commands and
    listeners keep the invariant, and what is printed; \<^verbatim>\<open>Nan_Dispatch\<close>: dispatching an event while its listeners
    change the list it goes over; \<^verbatim>\<open>Nan_Daemon_Steps\<close>: the daemon as an event-driven system,
    of which every run from its start is safe.

  \<^bold>\<open>Correspondence.\<close> A struct is a record, with the fields of the C struct; an array of bytes
  is a list; a pointer into a buffer is an offset in it; objects that are shared (list nodes,
  peers, services, listeners, queued frames) live in a store from addresses to values, and
  \<^verbatim>\<open>nan_memory\<close> has one store for each type. \<^const>\<open>None\<close> is undefined behaviour, and for a
  \<^theory_text>\<open>partial_function\<close> also a loop that does not end; where the code returns an error, the
  model returns the same number. So a theorem that a function yields \<^const>\<open>Some\<close> says that it
  returns and is memory-safe. Memory that the code does not initialise is an argument
  (\<open>junk\<close>), and so are the successive results of \<^verbatim>\<open>rand\<close>, what the clock shows, and the
  results of the operating system, of libpcap, of netlink (an environment that answers each
  call) and of the radiotap library (\<open>radiotap_lib\<close>), none of which are in the repository.
  \<^verbatim>\<open>malloc\<close> does not fail, as the code assumes. What is done to the devices is an output, in
  order, and the calls of netlink are a trace. A listener is a function pointer: what calling
  it does is an argument of the reception (\<open>listen\<close>), and the daemon passes the listeners of its
  commands (\<open>call_listener\<close>). The reception runs them after each descriptor, on the calls that
  \<^verbatim>\<open>nan_dispatch_event\<close> makes; \<^verbatim>\<open>Nan_Dispatch\<close> proves that this is what its loop does. The
  callbacks for peers leave the device alone, so they run when the reception has ended.

  \<^bold>\<open>Bounds.\<close> No fuel is used: loops are structural or \<^theory_text>\<open>partial_function\<close>s that are proved
  to return. Hypotheses that bound an input are named: \<open>line_ok\<close> (what the user may enter
  without the daemon reading past its buffer or through a null pointer), \<open>announcements_fit\<close>
  (the announced services fit the buffer of 65535 bytes, which the code does not check),
  \<open>service_sendable\<close> (the information of a service is as long as it says, and that is an
  \<^verbatim>\<open>int\<close>),
  \<open>clock_ok\<close> (time stamps whose difference to the own clock has an absolute value, in
  microseconds and in time units, and that keep the average clock error an \<^verbatim>\<open>int\<close>),
  \<open>read_short\<close> (a frame from the host device with an address in it is undefined, by
  \<open>host_frame_undefined\<close>), \<open>loggable\<close> (the information of a follow-up can be written to the log;
  the daemon receives frames only while the level is below that of debugging messages),
  \<open>arrays_ok\<close> and \<open>tun_names_ok\<close> (the arrays for the names of interfaces), \<open>links_ok\<close> (the
  channel exists, every link has an address, and setting one up does not fail), and \<open>listen_ok\<close> (what a listener may do to the
  device, which is proved for those of the daemon).

  \<^bold>\<open>Not modelled.\<close> The messages that the components write to the log, except those of the
  commands that print, and those that are undefined for some data, of which the models have the
  reading: the ones of \<^verbatim>\<open>nan_timer_sync_time\<close> and \<^verbatim>\<open>nan_timer_sync_error\<close> (the absolute values),
  \<^verbatim>\<open>handle_event_receive\<close>, \<^verbatim>\<open>nan_cmd_peer_set_value\<close> and \<^verbatim>\<open>io_state_init_wlan\<close>. That the others
  do nothing but write presupposes that the sources lie below a directory named \<^verbatim>\<open>nan-linux\<close>
  (\<open>log_log_defined\<close>), and that an argument of another width than its conversion is passed as the
  target's calling convention passes it: the pointer for \<^verbatim>\<open>%u\<close> in \<^verbatim>\<open>nan_rx_service_discovery\<close>, the
  64 bits for \<^verbatim>\<open>%d\<close> in \<^verbatim>\<open>nan_master_election\<close>, a \<^verbatim>\<open>size_t\<close> for the precision of \<^verbatim>\<open>%.*s\<close>. That
  structures and integers are read and written at any address of a buffer, as the target
  allows, is presupposed too. \<^verbatim>\<open>print_frame\<close> and \<^verbatim>\<open>print_usage\<close>, which only
  write to the terminal; the file \<^verbatim>\<open>dump_frame\<close> appends to, which is an output; the branches
  for macOS and \<^verbatim>\<open>corewlan.m\<close>; the radiotap submodule; \<^verbatim>\<open>nan_data_request\<close>, whose body is empty;
  \<^verbatim>\<open>nan_handle_availability_attribute\<close>, which is commented out; the layout of availability
  entries, which no code reads or writes; the tests.
\<close>

end
